(* ===== verification/Prelude.thy ===== *)
theory Prelude
  imports Main "HOL-Library.Word"
begin

section \<open>Shared vocabulary of the DeskUnlock development\<close>

text \<open>
  This theory names the types the components share, the collections of simplification rules,
  and the two interfaces that recur in the code base:
  \<^item> \<^theory_text>\<open>codec\<close>: a wire format, an encoder and a strict decoder that are
    inverse to each other on the values the Rust types admit;
  \<^item> \<^theory_text>\<open>keyed_store\<close>: a store that refuses to overwrite, and the
    replace-by-remove-then-add client the pairing code builds on it.
  \<open>Inl\<close> is always the error branch of a Rust \<open>Result\<close>.
\<close>

type_synonym byte = "8 word"
type_synonym bytes = "byte list"
type_synonym u16 = "16 word"
type_synonym u32 = "32 word"
type_synonym u64 = "64 word"
type_synonym i64 = "64 word"
type_synonym ('e, 'a) result = "'e + 'a"

named_theorems wire_consts \<open>unfolding rules of the numeric constants of the wire formats\<close>
named_theorems layout_simps \<open>length and slicing rules of the wire layouts\<close>

subsection \<open>Results\<close>

definition result_bind :: "('e, 'a) result \<Rightarrow> ('a \<Rightarrow> ('e, 'b) result) \<Rightarrow> ('e, 'b) result" where
  "result_bind r f = (case r of Inl e \<Rightarrow> Inl e | Inr x \<Rightarrow> f x)"

definition result_map_err :: "('e \<Rightarrow> 'f) \<Rightarrow> ('e, 'a) result \<Rightarrow> ('f, 'a) result" where
  "result_map_err g r = (case r of Inl e \<Rightarrow> Inl (g e) | Inr x \<Rightarrow> Inr x)"

definition ok_or :: "'e \<Rightarrow> 'a option \<Rightarrow> ('e, 'a) result" where
  "ok_or e x = (case x of None \<Rightarrow> Inl e | Some v \<Rightarrow> Inr v)"

definition result_ok :: "('e, 'a) result \<Rightarrow> 'a option" where
  "result_ok r = (case r of Inl _ \<Rightarrow> None | Inr x \<Rightarrow> Some x)"

definition is_ok :: "('e, 'a) result \<Rightarrow> bool" where
  "is_ok r = (case r of Inl _ \<Rightarrow> False | Inr _ \<Rightarrow> True)"

lemma result_bind_simps [simp]:
  "result_bind (Inl e) f = Inl e"
  "result_bind (Inr x) f = f x"
  by (simp_all add: result_bind_def)

lemma result_bind_Inr_iff:
  "result_bind r f = Inr y \<longleftrightarrow> (\<exists>x. r = Inr x \<and> f x = Inr y)"
  by (cases r) auto

lemma ok_or_simps [simp]: "ok_or e None = Inl e" "ok_or e (Some v) = Inr v"
  by (simp_all add: ok_or_def)

lemma result_ok_simps [simp]: "result_ok (Inl e) = None" "result_ok (Inr x) = Some x"
  by (simp_all add: result_ok_def)

lemma result_map_err_simps [simp]:
  "result_map_err g (Inl e) = Inl (g e)" "result_map_err g (Inr x) = Inr x"
  by (simp_all add: result_map_err_def)

lemma is_ok_simps [simp]: "is_ok (Inl e) = False" "is_ok (Inr x) = True"
  by (simp_all add: is_ok_def)

lemma is_ok_iff: "is_ok r \<longleftrightarrow> (\<exists>x. r = Inr x)"
  by (cases r) auto

lemma result_ok_Some_iff [simp]: "result_ok r = Some x \<longleftrightarrow> r = Inr x"
  by (cases r) auto

lemma ok_or_Inr_iff [simp]: "ok_or e x = Inr v \<longleftrightarrow> x = Some v"
  by (cases x) simp_all

lemma result_map_err_Inr_iff [simp]: "result_map_err g r = Inr x \<longleftrightarrow> r = Inr x"
  by (cases r) simp_all

subsection \<open>Programs over a state\<close>

text \<open>A program takes a state to a result and a new state. The operators are those of fallible code:
  return, early return, the \<open>?\<close> operator (\<open>io_bind\<close>), and what the code does with an error.\<close>

type_synonym ('s, 'e, 'a) stm = "'s \<Rightarrow> ('e, 'a) result \<times> 's"

definition io_return :: "'a \<Rightarrow> ('s, 'e, 'a) stm" where
  "io_return x s = (Inr x, s)"

definition io_fail :: "'e \<Rightarrow> ('s, 'e, 'a) stm" where
  "io_fail e s = (Inl e, s)"

definition io_bind :: "('s, 'e, 'a) stm \<Rightarrow> ('a \<Rightarrow> ('s, 'e, 'b) stm) \<Rightarrow> ('s, 'e, 'b) stm" where
  "io_bind m f s = (case m s of (Inl e, s') \<Rightarrow> (Inl e, s') | (Inr x, s') \<Rightarrow> f x s')"

definition io_lift :: "('e, 'a) result \<Rightarrow> ('s, 'e, 'a) stm" where
  "io_lift r s = (r, s)"

definition io_map_err :: "('e \<Rightarrow> 'f) \<Rightarrow> ('s, 'e, 'a) stm \<Rightarrow> ('s, 'f, 'a) stm" where
  "io_map_err g m s = (case m s of (Inl e, s') \<Rightarrow> (Inl (g e), s') | (Inr x, s') \<Rightarrow> (Inr x, s'))"

text \<open>The result as a value: a \<open>match\<close> on a fallible call.\<close>

definition io_try :: "('s, 'e, 'a) stm \<Rightarrow> ('s, 'f, ('e, 'a) result) stm" where
  "io_try m s = (case m s of (r, s') \<Rightarrow> (Inr r, s'))"

text \<open>\<open>let _ = m;\<close>\<close>

definition io_ignore :: "('s, 'e, 'a) stm \<Rightarrow> ('s, 'f, unit) stm" where
  "io_ignore m s = (Inr (), snd (m s))"

text \<open>A value whose destructor runs when the scope fails.\<close>

definition io_on_error :: "('s, 'e, 'a) stm \<Rightarrow> ('s, 'f, 'b) stm \<Rightarrow> ('s, 'e, 'a) stm" where
  "io_on_error m h s = (case m s of (Inl e, s') \<Rightarrow> (Inl e, snd (h s')) | (Inr x, s') \<Rightarrow> (Inr x, s'))"

definition io_do :: "('s \<Rightarrow> 's) \<Rightarrow> ('s, 'e, unit) stm" where
  "io_do f s = (Inr (), f s)"

lemma io_bind_lift_Inr [simp]: "io_bind (io_lift (Inr x)) f = f x"
  by (simp add: fun_eq_iff io_bind_def io_lift_def)

lemma io_bind_assoc: "io_bind (io_bind m f) g = io_bind m (\<lambda>x. io_bind (f x) g)"
  by (rule ext) (auto simp: io_bind_def split: prod.splits sum.splits)

lemma io_bind_return: "io_bind (io_return x) f = f x"
  by (simp add: fun_eq_iff io_bind_def io_return_def)

lemma io_bind_if: "io_bind (if b then m else m') f = (if b then io_bind m f else io_bind m' f)"
  by simp

lemma io_bind_guard: "io_bind (if b then io_fail e else m) f = (if b then io_fail e else io_bind m f)"
  by (simp add: fun_eq_iff io_bind_def io_fail_def)

text \<open>\<open>triple P m Q E\<close>: from a state with \<open>P\<close> the program ends well in \<open>Q\<close> or with an error in \<open>E\<close>.\<close>

definition triple ::
    "('s \<Rightarrow> bool) \<Rightarrow> ('s, 'e, 'a) stm \<Rightarrow> ('a \<Rightarrow> 's \<Rightarrow> bool) \<Rightarrow> ('e \<Rightarrow> 's \<Rightarrow> bool) \<Rightarrow> bool" where
  "triple P m Q E \<longleftrightarrow> (\<forall>s. P s \<longrightarrow> (case m s of (Inr x, s') \<Rightarrow> Q x s' | (Inl e, s') \<Rightarrow> E e s'))"

lemma tripleI:
  "(\<And>s. P s \<Longrightarrow> case m s of (Inr x, s') \<Rightarrow> Q x s' | (Inl e, s') \<Rightarrow> E e s') \<Longrightarrow> triple P m Q E"
  by (simp add: triple_def)

lemma triple_bind:
  assumes "triple P m R E" "\<And>x. triple (R x) (f x) Q E"
  shows "triple P (io_bind m f) Q E"
proof (rule tripleI)
  fix s
  assume "P s"
  then have "case m s of (Inr x, s') \<Rightarrow> R x s' | (Inl e, s') \<Rightarrow> E e s'"
    using assms(1) by (simp add: triple_def)
  then show "case io_bind m f s of (Inr x, s') \<Rightarrow> Q x s' | (Inl e, s') \<Rightarrow> E e s'"
    using assms(2) unfolding triple_def by (cases "m s"; cases "fst (m s)") (simp_all add: io_bind_def)
qed

lemma triple_do: "(\<And>s. P s \<Longrightarrow> Q () (f s)) \<Longrightarrow> triple P (io_do f) Q E"
  by (simp add: triple_def io_do_def)

lemma triple_fail: "(\<And>s. P s \<Longrightarrow> E e s) \<Longrightarrow> triple P (io_fail e) Q E"
  by (simp add: triple_def io_fail_def)

lemma triple_return: "(\<And>s. P s \<Longrightarrow> Q x s) \<Longrightarrow> triple P (io_return x) Q E"
  by (simp add: triple_def io_return_def)

lemma triple_if:
  "(b \<Longrightarrow> triple P m Q E) \<Longrightarrow> (\<not> b \<Longrightarrow> triple P m' Q E) \<Longrightarrow> triple P (if b then m else m') Q E"
  by simp

lemma triple_pre: "(\<And>s. P s \<Longrightarrow> P' s) \<Longrightarrow> triple P' m Q E \<Longrightarrow> triple P m Q E"
  by (simp add: triple_def)

lemma triple_known: "triple P (f x) Q E \<Longrightarrow> triple (\<lambda>s. y = x \<and> P s) (f y) Q E"
  by (auto simp: triple_def)

lemma triple_fact: "(b \<Longrightarrow> triple P m Q E) \<Longrightarrow> triple (\<lambda>s. b \<and> P s) m Q E"
  by (auto simp: triple_def)

lemma triple_ex: "(\<And>v. triple (P v) m Q E) \<Longrightarrow> triple (\<lambda>s. \<exists>v. P v s) m Q E"
  by (rule tripleI, elim exE) (simp add: triple_def)

lemma triple_conj:
  "triple P m Q E \<Longrightarrow> triple P' m Q' E' \<Longrightarrow>
     triple (\<lambda>s. P s \<and> P' s) m (\<lambda>x s. Q x s \<and> Q' x s) E"
  unfolding triple_def by (auto split: prod.splits sum.splits)

lemma triple_result:
  assumes "triple P m (\<lambda>x. G (Inr x)) (\<lambda>e. G (Inl e))" "P s"
  shows "G (fst (m s)) (snd (m s))"
  using assms by (cases "m s"; cases "fst (m s)") (auto simp: triple_def)

lemma triple_weaken:
  assumes "triple P m Q E" and "\<And>s. P' s \<Longrightarrow> P s" and "\<And>x s. Q x s \<Longrightarrow> Q' x s" and "\<And>e s. E e s \<Longrightarrow> E' e s"
  shows "triple P' m Q' E'"
  unfolding triple_def
proof (intro allI impI)
  fix s
  assume "P' s"
  then show "case m s of (Inr x, s') \<Rightarrow> Q' x s' | (Inl e, s') \<Rightarrow> E' e s'"
    using assms by (cases "m s"; cases "fst (m s)") (fastforce simp: triple_def)+
qed

lemma triple_case_sum:
  "(\<And>e. r = Inl e \<Longrightarrow> triple P (f e) Q E) \<Longrightarrow> (\<And>x. r = Inr x \<Longrightarrow> triple P (g x) Q E) \<Longrightarrow>
     triple P (case r of Inl e \<Rightarrow> f e | Inr x \<Rightarrow> g x) Q E"
  by (cases r) simp_all

text \<open>An invariant of a program, however it ends.\<close>

definition stays :: "('s \<Rightarrow> bool) \<Rightarrow> ('s, 'e, 'a) stm \<Rightarrow> bool" where
  "stays I m \<longleftrightarrow> (\<forall>s. I s \<longrightarrow> I (snd (m s)))"

named_theorems stays_rules

lemma stays_bind [stays_rules]:
  "stays I m \<Longrightarrow> (\<And>x. stays I (f x)) \<Longrightarrow> stays I (io_bind m f)"
  unfolding stays_def io_bind_def by (fastforce split: prod.split sum.split)

lemma stays_simple [stays_rules]:
  "stays I (io_return x)" "stays I (io_fail e)"
  "stays I m \<Longrightarrow> stays I (io_try m)"
  "stays I m \<Longrightarrow> stays I m' \<Longrightarrow> stays I (if b then m else m')"
  by (simp_all add: stays_def io_return_def io_fail_def io_try_def case_prod_beta)

lemma stays_case_sum [stays_rules]:
  "(\<And>e. stays I (f e)) \<Longrightarrow> (\<And>x. stays I (g x)) \<Longrightarrow> stays I (case r of Inl e \<Rightarrow> f e | Inr x \<Rightarrow> g x)"
  by (cases r) simp_all

lemma triple_stays:
  assumes "stays I m" and "\<And>e s. I s \<Longrightarrow> E e s"
    and "\<And>x s s'. I s \<Longrightarrow> m s = (Inr x, s') \<Longrightarrow> triple I (f x) Q E"
  shows "triple I (io_bind m f) Q E"
proof (rule tripleI)
  fix s
  assume I: "I s"
  obtain r s' where m: "m s = (r, s')" by force
  then have I': "I s'" using assms(1) I by (metis snd_conv stays_def)
  show "case io_bind m f s of (Inr x, s') \<Rightarrow> Q x s' | (Inl e, s') \<Rightarrow> E e s'"
  proof (cases r)
    case (Inl e)
    then show ?thesis using m I' assms(2) by (simp add: io_bind_def)
  next
    case (Inr x)
    then have "triple I (f x) Q E" using assms(3) [OF I] m by simp
    then show ?thesis using m I' Inr by (simp add: io_bind_def triple_def)
  qed
qed

subsection \<open>Slices\<close>

text \<open>\<open>bslice i j xs\<close> is \<open>&xs[i..j]\<close> for \<open>i \<le> j \<le> xs.len()\<close>; every use below is guarded
  by a length check, as in the source.\<close>

definition bslice :: "nat \<Rightarrow> nat \<Rightarrow> 'a list \<Rightarrow> 'a list" where
  "bslice i j xs = take (j - i) (drop i xs)"

lemma length_bslice [layout_simps]: "j \<le> length xs \<Longrightarrow> length (bslice i j xs) = j - i"
  by (simp add: bslice_def)

lemma bslice_append_first:
  "j \<le> length xs \<Longrightarrow> bslice i j (xs @ ys) = bslice i j xs"
  by (cases "i \<le> j") (auto simp: bslice_def)

lemma bslice_append_second:
  "length xs \<le> i \<Longrightarrow> bslice i j (xs @ ys) = bslice (i - length xs) (j - length xs) ys"
  by (simp add: bslice_def)

lemma bslice_all [simp]: "bslice 0 (length xs) xs = xs"
  by (simp add: bslice_def)

lemma bslice_split: "i \<le> j \<Longrightarrow> j \<le> length xs \<Longrightarrow> bslice i j xs @ drop j xs = drop i xs"
  by (metis append_take_drop_id drop_drop le_add_diff_inverse2 bslice_def)

lemma bslice_join: "i \<le> j \<Longrightarrow> j \<le> k \<Longrightarrow> bslice i j xs @ bslice j k xs = bslice i k xs"
proof -
  assume a: "i \<le> j" "j \<le> k"
  then have "k - i = (j - i) + (k - j)" by simp
  then have "bslice i k xs = take (j - i) (drop i xs) @ take (k - j) (drop (j - i) (drop i xs))"
    unfolding bslice_def by (simp only: take_add)
  with a show ?thesis by (simp add: bslice_def)
qed

lemma bslice_single: "i < length xs \<Longrightarrow> bslice i (Suc i) xs = [xs ! i]"
  by (simp add: bslice_def take_Suc_conv_app_nth Cons_nth_drop_Suc [symmetric])

lemma bslice_mid: "length a = i \<Longrightarrow> i + length b = j \<Longrightarrow> bslice i j (a @ b @ c) = b"
  by (auto simp: bslice_def)

lemma bslice_full: "length xs = n \<Longrightarrow> bslice 0 n xs = xs"
  by (simp add: bslice_def)

lemma bslice_0: "bslice 0 j xs = take j xs"
  by (simp add: bslice_def)

lemma bslice_to_end: "bslice i (length xs) xs = drop i xs"
  by (simp add: bslice_def)

subsection \<open>Searching lists\<close>

text \<open>\<open>iter().position(p)\<close>: the index of the first element that satisfies the predicate.\<close>

fun position :: "('a \<Rightarrow> bool) \<Rightarrow> 'a list \<Rightarrow> nat option" where
  "position p [] = None"
| "position p (x # xs) = (if p x then Some 0 else map_option Suc (position p xs))"

definition remove_at :: "nat \<Rightarrow> 'a list \<Rightarrow> 'a list" where
  "remove_at i xs = take i xs @ drop (Suc i) xs"

lemma position_None_iff [simp]: "position p xs = None \<longleftrightarrow> (\<forall>x \<in> set xs. \<not> p x)"
  by (induction xs) auto

lemma position_SomeD:
  "position p xs = Some i \<Longrightarrow> i < length xs \<and> p (xs ! i) \<and> (\<forall>j < i. \<not> p (xs ! j))"
proof (induction xs arbitrary: i)
  case Nil
  then show ?case by simp
next
  case (Cons x xs)
  then show ?case
    by (cases i) (auto split: if_splits simp: less_Suc_eq_0_disj)
qed

lemma find_eq_position:
  "find p xs = (case position p xs of None \<Rightarrow> None | Some i \<Rightarrow> Some (xs ! i))"
  by (induction xs) (auto split: option.splits simp del: position_None_iff)

lemma set_remove_at: "set (remove_at i xs) \<subseteq> set xs"
  unfolding remove_at_def using set_take_subset [of i xs] set_drop_subset [of "Suc i" xs] by auto

lemma length_remove_at: "i < length xs \<Longrightarrow> length (remove_at i xs) = length xs - 1"
  by (simp add: remove_at_def)

lemma map_remove_at: "map f (remove_at i xs) = remove_at i (map f xs)"
  by (simp add: remove_at_def take_map drop_map)

lemma distinct_remove_at: "distinct xs \<Longrightarrow> distinct (remove_at i xs)"
  unfolding remove_at_def
  by (metis Suc_n_not_le_n distinct_append distinct_drop distinct_take nat_le_linear
      set_take_disj_set_drop_if_distinct)

lemma remove_at_Cons [simp]:
  "remove_at 0 (x # xs) = xs" "remove_at (Suc i) (x # xs) = x # remove_at i xs"
  by (simp_all add: remove_at_def)

text \<open>\<open>iter().find_map(f)\<close>: the first result of \<open>f\<close> that is not \<open>None\<close>.\<close>

fun find_map :: "('a \<Rightarrow> 'b option) \<Rightarrow> 'a list \<Rightarrow> 'b option" where
  "find_map f [] = None"
| "find_map f (x # xs) = (case f x of None \<Rightarrow> find_map f xs | Some y \<Rightarrow> Some y)"

lemma find_map_SomeD: "find_map f xs = Some y \<Longrightarrow> \<exists>x \<in> set xs. f x = Some y"
  by (induction xs) (auto split: option.splits)

subsection \<open>Wire formats as an interface\<close>

text \<open>
  Every binary format of the program is a pair of a partial encoder and a strict decoder.
  \<open>valid\<close> states what the Rust type of the message guarantees (the widths of its arrays).
\<close>

locale codec =
  fixes valid :: "'a \<Rightarrow> bool"
    and enc :: "'a \<Rightarrow> bytes option"
    and dec :: "bytes \<Rightarrow> 'a option"
  assumes dec_enc: "valid x \<Longrightarrow> enc x = Some bs \<Longrightarrow> dec bs = Some x"
    and enc_dec: "dec bs = Some x \<Longrightarrow> valid x \<and> enc x = Some bs"
begin

lemma dec_iff: "dec bs = Some x \<longleftrightarrow> valid x \<and> enc x = Some bs"
  using dec_enc enc_dec by blast

lemma enc_injective:
  assumes "valid x" "valid y" "enc x = Some bs" "enc y = Some bs"
  shows "x = y"
  using assms dec_enc by (metis option.inject)

lemma dec_injective:
  assumes "dec a = Some x" "dec b = Some x"
  shows "a = b"
  using assms enc_dec by (metis option.inject)

lemma dec_None_iff: "dec bs = None \<longleftrightarrow> (\<nexists>x. valid x \<and> enc x = Some bs)"
  using dec_iff by (metis not_None_eq)

end

text \<open>A fixed-width format can be peeled off the front of a byte stream.\<close>

locale fixed_codec = codec +
  fixes width :: nat
  assumes enc_width: "valid x \<Longrightarrow> enc x = Some bs \<Longrightarrow> length bs = width"
begin

lemma dec_width: "dec bs = Some x \<Longrightarrow> length bs = width"
  using dec_iff enc_width by blast

lemma dec_prefix:
  assumes "valid x" "enc x = Some bs"
  shows "dec (take width (bs @ rest)) = Some x"
  using assms enc_width [OF assms] dec_enc by simp

lemma width_prefix_free:
  assumes "valid x" "valid y" "enc x = Some a" "enc y = Some b" "a @ r = b @ s"
  shows "x = y \<and> r = s"
proof -
  have "length a = length b"
    using assms enc_width by metis
  then have "a = b" and "r = s"
    using assms(5) by simp_all
  then show ?thesis
    using assms enc_injective by blast
qed

end

subsection \<open>Predicates a machine keeps\<close>

text \<open>
  A deterministic machine is a step function over events; a predicate every step keeps holds
  after any run. Each component interprets this locale once per invariant.
\<close>

locale preserved =
  fixes step :: "'s \<Rightarrow> 'e \<Rightarrow> 's"
    and I :: "'s \<Rightarrow> bool"
  assumes step_keeps: "I s \<Longrightarrow> I (step s e)"
begin

lemma run_keeps: "I s \<Longrightarrow> I (foldl step s es)"
  by (induction es arbitrary: s) (auto intro: step_keeps)

lemma extension_keeps: "I (foldl step s es) \<Longrightarrow> I (foldl step s (es @ es'))"
  by (simp add: run_keeps)

end

subsection \<open>Stores that refuse to overwrite\<close>

text \<open>
  The contract of a store keyed by an identifier of its records: \<open>ins\<close> fails on a present
  key, \<open>del\<close> fails on an absent one, and each success has the effect of a map update.
\<close>

locale keyed_store =
  fixes inv :: "'s \<Rightarrow> bool"
    and key :: "'v \<Rightarrow> 'k"
    and look :: "'s \<Rightarrow> 'k \<Rightarrow> 'v option"
    and ins :: "'s \<Rightarrow> 'v \<Rightarrow> ('e, 's) result"
    and del :: "'s \<Rightarrow> 'k \<Rightarrow> ('e, 's) result"
  assumes ins_fresh: "inv s \<Longrightarrow> look s (key v) = None \<Longrightarrow>
      \<exists>s'. ins s v = Inr s' \<and> inv s' \<and> look s' = (look s)(key v \<mapsto> v)"
    and ins_present: "inv s \<Longrightarrow> look s (key v) \<noteq> None \<Longrightarrow> \<exists>e. ins s v = Inl e"
    and del_present: "inv s \<Longrightarrow> look s k \<noteq> None \<Longrightarrow>
      \<exists>s'. del s k = Inr s' \<and> inv s' \<and> look s' = (look s)(k := None)"
    and del_absent: "inv s \<Longrightarrow> look s k = None \<Longrightarrow> \<exists>e. del s k = Inl e"
begin

lemma ins_inv: "inv s \<Longrightarrow> ins s v = Inr s' \<Longrightarrow> inv s'"
  using ins_fresh ins_present by (metis Inl_Inr_False sum.inject(2))

lemma del_inv: "inv s \<Longrightarrow> del s k = Inr s' \<Longrightarrow> inv s'"
  using del_present del_absent by (metis Inl_Inr_False sum.inject(2))

lemma ins_look: "inv s \<Longrightarrow> ins s v = Inr s' \<Longrightarrow> look s' = (look s)(key v \<mapsto> v)"
  using ins_fresh ins_present by (metis Inl_Inr_False sum.inject(2))

lemma del_look: "inv s \<Longrightarrow> del s k = Inr s' \<Longrightarrow> look s' = (look s)(k := None)"
  using del_present del_absent by (metis Inl_Inr_False sum.inject(2))

text \<open>Remove a present record, then add its replacement: never fails, and overwrites.\<close>

lemma replace_total:
  assumes "inv s"
  shows "\<exists>s'. result_bind (if look s (key v) \<noteq> None then del s (key v) else Inr s)
             (\<lambda>t. ins t v) = Inr s' \<and> inv s' \<and> look s' = (look s)(key v \<mapsto> v)"
proof (cases "look s (key v) = None")
  case True
  then show ?thesis using ins_fresh [OF assms, of v] by auto
next
  case False
  then obtain t where t: "del s (key v) = Inr t" "inv t" "look t = (look s)(key v := None)"
    using del_present [OF assms] by blast
  then have "look t (key v) = None" by simp
  with t obtain s' where "ins t v = Inr s'" "inv s'" "look s' = (look t)(key v \<mapsto> v)"
    using ins_fresh by blast
  with t False show ?thesis by auto
qed

end

end
