(* ===== verification/Rust_Std.thy ===== *)
theory Rust_Std
  imports Prelude
begin

section \<open>The parts of Rust's standard library the program uses\<close>

text \<open>
  Big-endian integers (\<open>to_be_bytes\<close>, \<open>from_be_bytes\<close>), hexadecimal text
  (\<open>from_str_radix(_, 16)\<close>, \<open>{:02x}\<close>), UTF-8 (\<open>String::from_utf8\<close>, \<open>char::len_utf8\<close>)
  and the string operations the journal parser needs. A Rust \<open>String\<close> is a \<^typ>\<open>string\<close>
  whose characters are its UTF-8 bytes, so \<open>length\<close> is \<open>str::len\<close>.
\<close>

subsection \<open>Big-endian integers\<close>

fun be_bytes :: "nat \<Rightarrow> nat \<Rightarrow> bytes" where
  "be_bytes 0 x = []"
| "be_bytes (Suc n) x = be_bytes n (x div 256) @ [word_of_nat (x mod 256)]"

definition be_nat :: "bytes \<Rightarrow> nat" where
  "be_nat bs = foldl (\<lambda>a b. a * 256 + unat b) 0 bs"

lemma length_be_bytes [simp, layout_simps]: "length (be_bytes n x) = n"
  by (induction n arbitrary: x) auto

lemma be_nat_Nil [simp]: "be_nat [] = 0"
  by (simp add: be_nat_def)

lemma be_nat_snoc [simp]: "be_nat (bs @ [b]) = be_nat bs * 256 + unat b"
  by (simp add: be_nat_def)

lemma unat_byte_less [simp]: "unat (b :: byte) < 256"
  using unsigned_less [of b, where ?'a = nat] by simp

lemma be_nat_less: "be_nat bs < 256 ^ length bs"
proof (induction bs rule: rev_induct)
  case Nil
  then show ?case by simp
next
  case (snoc b bs)
  have "be_nat bs * 256 + unat b < (be_nat bs + 1) * 256"
    by simp
  also have "\<dots> \<le> 256 ^ length bs * 256"
    using snoc by (simp add: mult_le_mono1 Suc_leI)
  finally show ?case by simp
qed

lemma be_nat_be_bytes: "be_nat (be_bytes n x) = x mod 256 ^ n"
proof (induction n arbitrary: x)
  case 0
  then show ?case by simp
next
  case (Suc n)
  have "unat (word_of_nat (x mod 256) :: byte) = x mod 256"
    by (simp add: unat_of_nat)
  then have "be_nat (be_bytes (Suc n) x) = (x div 256) mod 256 ^ n * 256 + x mod 256"
    using Suc by simp
  also have "\<dots> = x mod (256 * 256 ^ n)"
    by (metis mod_mult2_eq mult.commute)
  finally show ?case by simp
qed

lemma be_bytes_be_nat: "be_bytes (length bs) (be_nat bs) = bs"
proof (induction bs rule: rev_induct)
  case Nil
  then show ?case by simp
next
  case (snoc b bs)
  have "(be_nat bs * 256 + unat b) div 256 = be_nat bs"
    and "(be_nat bs * 256 + unat b) mod 256 = unat b"
    by simp_all
  with snoc show ?case by simp
qed

lemma be_bytes_be_nat_length: "length bs = n \<Longrightarrow> be_bytes n (be_nat bs) = bs"
  using be_bytes_be_nat by blast

definition u16_to_be :: "u16 \<Rightarrow> bytes" where "u16_to_be w = be_bytes 2 (unat w)"
definition u16_from_be :: "bytes \<Rightarrow> u16" where "u16_from_be bs = word_of_nat (be_nat bs)"
definition u32_to_be :: "u32 \<Rightarrow> bytes" where "u32_to_be w = be_bytes 4 (unat w)"
definition u32_from_be :: "bytes \<Rightarrow> u32" where "u32_from_be bs = word_of_nat (be_nat bs)"
definition u64_to_be :: "u64 \<Rightarrow> bytes" where "u64_to_be w = be_bytes 8 (unat w)"
definition u64_from_be :: "bytes \<Rightarrow> u64" where "u64_from_be bs = word_of_nat (be_nat bs)"

lemma length_to_be [simp, layout_simps]:
  "length (u16_to_be a) = 2" "length (u32_to_be b) = 4" "length (u64_to_be c) = 8"
  by (simp_all add: u16_to_be_def u32_to_be_def u64_to_be_def)

lemma u16_from_to_be [simp]: "u16_from_be (u16_to_be w) = w"
  using unsigned_less [of w, where ?'a = nat] by (simp add: u16_from_be_def u16_to_be_def be_nat_be_bytes)

lemma u32_from_to_be [simp]: "u32_from_be (u32_to_be w) = w"
  using unsigned_less [of w, where ?'a = nat] by (simp add: u32_from_be_def u32_to_be_def be_nat_be_bytes)

lemma u64_from_to_be [simp]: "u64_from_be (u64_to_be w) = w"
  using unsigned_less [of w, where ?'a = nat] by (simp add: u64_from_be_def u64_to_be_def be_nat_be_bytes)

lemma u16_to_from_be: "length bs = 2 \<Longrightarrow> u16_to_be (u16_from_be bs) = bs"
  using be_nat_less [of bs] be_bytes_be_nat_length [of bs 2]
  by (simp add: u16_from_be_def u16_to_be_def unat_of_nat)

lemma u32_to_from_be: "length bs = 4 \<Longrightarrow> u32_to_be (u32_from_be bs) = bs"
  using be_nat_less [of bs] be_bytes_be_nat_length [of bs 4]
  by (simp add: u32_from_be_def u32_to_be_def unat_of_nat)

lemma u64_to_from_be: "length bs = 8 \<Longrightarrow> u64_to_be (u64_from_be bs) = bs"
  using be_nat_less [of bs] be_bytes_be_nat_length [of bs 8]
  by (simp add: u64_from_be_def u64_to_be_def unat_of_nat)

text \<open>\<open>u16::try_from(len)\<close> and \<open>u32::try_from(len)\<close> on a \<open>usize\<close>.\<close>

definition u16_try_from :: "nat \<Rightarrow> u16 option" where
  "u16_try_from n = (if n < 2 ^ 16 then Some (word_of_nat n) else None)"

definition u32_try_from :: "nat \<Rightarrow> u32 option" where
  "u32_try_from n = (if n < 2 ^ 32 then Some (word_of_nat n) else None)"

lemma unat_u16_try_from: "u16_try_from n = Some w \<Longrightarrow> unat w = n"
  by (auto simp: u16_try_from_def unat_of_nat split: if_splits)

lemma unat_u32_try_from: "u32_try_from n = Some w \<Longrightarrow> unat w = n"
  by (auto simp: u32_try_from_def unat_of_nat split: if_splits)

subsection \<open>Bytes and strings\<close>

definition string_bytes :: "string \<Rightarrow> bytes" where
  "string_bytes s = map (\<lambda>c. word_of_nat (of_char c)) s"

definition bytes_string :: "bytes \<Rightarrow> string" where
  "bytes_string bs = map (\<lambda>b. char_of (unat b)) bs"

lemma length_string_bytes [simp, layout_simps]: "length (string_bytes s) = length s"
  by (simp add: string_bytes_def)

lemma length_bytes_string [simp]: "length (bytes_string bs) = length bs"
  by (simp add: bytes_string_def)

lemma of_char_less [simp]: "(of_char c :: nat) < 256"
  using nat_of_char_less_256 by blast

lemma bytes_string_bytes [simp]: "bytes_string (string_bytes s) = s"
  by (simp add: bytes_string_def string_bytes_def unat_of_nat o_def map_idI)

lemma string_bytes_string [simp]: "string_bytes (bytes_string bs) = bs"
  by (simp add: bytes_string_def string_bytes_def o_def map_idI)

subsection \<open>UTF-8\<close>

text \<open>Well-formed byte sequences, as \<open>core::str::from_utf8\<close> accepts them.\<close>

definition cont :: "nat \<Rightarrow> bool" where
  "cont b \<longleftrightarrow> 128 \<le> b \<and> b \<le> 191"

definition second_of_3 :: "nat \<Rightarrow> nat \<Rightarrow> bool" where
  "second_of_3 a b \<longleftrightarrow>
     (a = 224 \<and> 160 \<le> b \<and> b \<le> 191) \<or>
     (225 \<le> a \<and> a \<le> 236 \<and> cont b) \<or>
     (a = 237 \<and> 128 \<le> b \<and> b \<le> 159) \<or>
     (238 \<le> a \<and> a \<le> 239 \<and> cont b)"

definition second_of_4 :: "nat \<Rightarrow> nat \<Rightarrow> bool" where
  "second_of_4 a b \<longleftrightarrow>
     (a = 240 \<and> 144 \<le> b \<and> b \<le> 191) \<or>
     (241 \<le> a \<and> a \<le> 243 \<and> cont b) \<or>
     (a = 244 \<and> 128 \<le> b \<and> b \<le> 143)"

fun utf8_valid :: "nat list \<Rightarrow> bool" where
  "utf8_valid [] = True"
| "utf8_valid (a # r) =
     (if a < 128 then utf8_valid r
      else if a < 224 then
        (case r of b # r' \<Rightarrow> 194 \<le> a \<and> cont b \<and> utf8_valid r' | _ \<Rightarrow> False)
      else if a < 240 then
        (case r of b # c # r' \<Rightarrow> second_of_3 a b \<and> cont c \<and> utf8_valid r' | _ \<Rightarrow> False)
      else
        (case r of b # c # d # r' \<Rightarrow> second_of_4 a b \<and> cont c \<and> cont d \<and> utf8_valid r'
         | _ \<Rightarrow> False))"

declare utf8_valid.simps(2) [simp del]

definition utf8_ok :: "bytes \<Rightarrow> bool" where
  "utf8_ok bs = utf8_valid (map unat bs)"

text \<open>\<open>String::from_utf8(bytes).ok()\<close>\<close>

definition from_utf8 :: "bytes \<Rightarrow> string option" where
  "from_utf8 bs = (if utf8_ok bs then Some (bytes_string bs) else None)"

definition string_ok :: "string \<Rightarrow> bool" where
  "string_ok s = utf8_ok (string_bytes s)"

lemma from_utf8_string_bytes [simp]:
  "string_ok s \<Longrightarrow> from_utf8 (string_bytes s) = Some s"
  by (simp add: from_utf8_def string_ok_def)

lemma from_utf8_SomeD: "from_utf8 bs = Some s \<Longrightarrow> string_ok s \<and> string_bytes s = bs"
  by (auto simp: from_utf8_def string_ok_def split: if_splits)

text \<open>Unicode scalar values (\<open>char\<close>) and their encoding.\<close>

definition scalar :: "nat \<Rightarrow> bool" where
  "scalar c \<longleftrightarrow> c < 55296 \<or> (57344 \<le> c \<and> c < 1114112)"

definition utf8_char :: "nat \<Rightarrow> nat list" where
  "utf8_char c =
     (if c < 128 then [c]
      else if c < 2048 then [192 + c div 64, 128 + c mod 64]
      else if c < 65536 then [224 + c div 4096, 128 + c div 64 mod 64, 128 + c mod 64]
      else [240 + c div 262144, 128 + c div 4096 mod 64, 128 + c div 64 mod 64, 128 + c mod 64])"

definition utf8_string :: "nat list \<Rightarrow> nat list" where
  "utf8_string cs = concat (map utf8_char cs)"

lemma utf8_valid_char:
  assumes "scalar c"
  shows "utf8_valid (utf8_char c @ rest) = utf8_valid rest"
proof -
  consider "c < 128" | "128 \<le> c" "c < 2048" | "2048 \<le> c" "c < 65536" | "65536 \<le> c"
    by linarith
  then show ?thesis
  proof cases
    case 1
    then show ?thesis by (simp add: utf8_char_def utf8_valid.simps(2))
  next
    case 2
    then have "192 + c div 64 < 224" "194 \<le> 192 + c div 64" by auto
    moreover have "cont (128 + c mod 64)"
      unfolding cont_def using mod_less_divisor [of 64 c] by linarith
    ultimately show ?thesis
      using 2 by (simp add: utf8_char_def utf8_valid.simps(2))
  next
    case 3
    have c: "cont (128 + c mod 64)" "cont (128 + c div 64 mod 64)"
      unfolding cont_def using mod_less_divisor [of 64 c] mod_less_divisor [of 64 "c div 64"]
      by linarith+
    have "c div 64 div 64 = c div 4096" by (simp add: div_mult2_eq [symmetric])
    then have split: "c div 64 = 64 * (c div 4096) + c div 64 mod 64"
      by (metis mult_div_mod_eq)
    have surrogate: "c < 55296 \<Longrightarrow> c div 64 < 864"
      by (simp add: div_less_iff_less_mult)
    have "second_of_3 (224 + c div 4096) (128 + c div 64 mod 64)"
      using 3 assms c split surrogate mod_less_divisor [of 64 "c div 64"]
      unfolding second_of_3_def cont_def scalar_def by auto
    with 3 c show ?thesis
      by (auto simp: utf8_char_def utf8_valid.simps(2))
  next
    case 4
    have c: "cont (128 + c mod 64)" "cont (128 + c div 64 mod 64)" "cont (128 + c div 4096 mod 64)"
      unfolding cont_def using mod_less_divisor [of 64 c] mod_less_divisor [of 64 "c div 64"]
        mod_less_divisor [of 64 "c div 4096"]
      by linarith+
    have "c div 4096 div 64 = c div 262144" by (simp add: div_mult2_eq [symmetric])
    then have split: "c div 4096 = 64 * (c div 262144) + c div 4096 mod 64"
      by (metis mult_div_mod_eq)
    have range: "16 \<le> c div 4096" "c div 4096 < 272"
      using 4 assms by (auto simp: scalar_def div_less_iff_less_mult less_eq_div_iff_mult_less_eq)
    have "second_of_4 (240 + q) (128 + m)" if "64 * q + m < 272" "16 \<le> 64 * q + m" "m < 64" for q m
      using that unfolding second_of_4_def cont_def by (cases "q = 0"; cases "q = 4") auto
    then have "second_of_4 (240 + c div 262144) (128 + c div 4096 mod 64)"
      using range split by simp
    with 4 c show ?thesis
      by (auto simp: utf8_char_def utf8_valid.simps(2))
  qed
qed

lemma utf8_valid_string: "\<forall>c \<in> set cs. scalar c \<Longrightarrow> utf8_valid (utf8_string cs)"
  by (induction cs) (auto simp: utf8_string_def utf8_valid_char)

lemma utf8_char_bytes:
  assumes "scalar c" and "b \<in> set (utf8_char c)"
  shows "b < 256"
proof -
  have "c div 64 mod 64 < 64" "c mod 64 < 64" "c div 4096 mod 64 < 64"
    by simp_all
  with assms show ?thesis
    by (auto simp: utf8_char_def scalar_def split: if_splits)
qed

lemma utf8_string_bytes: "\<forall>c \<in> set cs. scalar c \<Longrightarrow> b \<in> set (utf8_string cs) \<Longrightarrow> b < 256"
  by (auto simp: utf8_string_def dest: utf8_char_bytes)

lemma length_utf8_char: "1 \<le> length (utf8_char c) \<and> length (utf8_char c) \<le> 4"
  by (simp add: utf8_char_def)

subsection \<open>Hexadecimal text\<close>

text \<open>\<open>{:02x}\<close> of every byte, concatenated: the rendering of identifiers everywhere in the
  program.\<close>

definition hex_char :: "nat \<Rightarrow> char" where
  "hex_char n = ''0123456789abcdef'' ! n"

definition hex_byte :: "byte \<Rightarrow> string" where
  "hex_byte b = [hex_char (unat b div 16), hex_char (unat b mod 16)]"

definition hex_encode :: "bytes \<Rightarrow> string" where
  "hex_encode bs = concat (map hex_byte bs)"

lemma length_hex_byte [simp]: "length (hex_byte b) = 2"
  by (simp add: hex_byte_def)

lemma length_hex_encode [simp, layout_simps]: "length (hex_encode bs) = 2 * length bs"
  by (induction bs) (auto simp: hex_encode_def)

lemma hex_encode_simps [simp]:
  "hex_encode [] = []" "hex_encode (b # bs) = hex_byte b @ hex_encode bs"
  by (simp_all add: hex_encode_def)

text \<open>\<open>char::to_digit(16)\<close> on an ASCII byte, and \<open>u8::from_str_radix(s, 16)\<close>: an empty
  string and a lone sign are errors, a leading \<open>+\<close> is skipped, a leading \<open>-\<close> is an
  invalid digit of an unsigned type, and an overflowing value is an error.\<close>

definition hex_digit :: "char \<Rightarrow> nat option" where
  "hex_digit c =
     (let n = of_char c in
      if 48 \<le> n \<and> n \<le> 57 then Some (n - 48)
      else if 97 \<le> n \<and> n \<le> 102 then Some (n - 87)
      else if 65 \<le> n \<and> n \<le> 70 then Some (n - 55)
      else None)"

fun radix16 :: "nat \<Rightarrow> string \<Rightarrow> nat option" where
  "radix16 acc [] = Some acc"
| "radix16 acc (c # cs) =
     (case hex_digit c of None \<Rightarrow> None
      | Some d \<Rightarrow> if acc * 16 + d < 256 then radix16 (acc * 16 + d) cs else None)"

definition u8_from_str_radix16 :: "string \<Rightarrow> byte option" where
  "u8_from_str_radix16 s =
     (case s of [] \<Rightarrow> None
      | c # cs \<Rightarrow>
          if (c = CHR ''+'' \<or> c = CHR ''-'') \<and> cs = [] then None
          else map_option word_of_nat (radix16 0 (if c = CHR ''+'' then cs else s)))"

text \<open>\<open>&s[i..j]\<close> on a string panics off a character boundary or out of range.\<close>

definition char_boundary :: "string \<Rightarrow> nat \<Rightarrow> bool" where
  "char_boundary s i \<longleftrightarrow>
     i = 0 \<or> i = length s \<or> (i < length s \<and> \<not> cont (of_char (s ! i)))"

definition str_slice :: "nat \<Rightarrow> nat \<Rightarrow> string \<Rightarrow> string option" where
  "str_slice i j s =
     (if i \<le> j \<and> j \<le> length s \<and> char_boundary s i \<and> char_boundary s j
      then Some (bslice i j s) else None)"

subsection \<open>Lines and prefixes\<close>

definition strip_prefix :: "string \<Rightarrow> string \<Rightarrow> string option" where
  "strip_prefix p s = (if take (length p) s = p then Some (drop (length p) s) else None)"

definition strip_cr :: "string \<Rightarrow> string" where
  "strip_cr l = (if l \<noteq> [] \<and> last l = CHR 0x0D then butlast l else l)"

function lines :: "string \<Rightarrow> string list" where
  "lines s =
     (if s = [] then []
      else (case dropWhile (\<lambda>c. c \<noteq> CHR 0x0A) s of
              [] \<Rightarrow> [s]
            | c # r \<Rightarrow> strip_cr (takeWhile (\<lambda>c. c \<noteq> CHR 0x0A) s) # lines r))"
  by pat_completeness auto
termination
proof (relation "measure length", simp)
  fix s :: string and c r
  assume "dropWhile (\<lambda>c. c \<noteq> CHR 0x0A) s = c # r"
  then have "length (c # r) \<le> length s"
    by (metis length_dropWhile_le)
  then show "(r, s) \<in> measure length" by simp
qed

declare lines.simps [simp del]

lemma lines_Nil [simp]: "lines [] = []"
  by (simp add: lines.simps)

lemma lines_step [simp]:
  assumes "CHR 0x0A \<notin> set l"
  shows "lines (l @ CHR 0x0A # r) = strip_cr l # lines r"
proof -
  have "dropWhile (\<lambda>c. c \<noteq> CHR 0x0A) (l @ CHR 0x0A # r) = CHR 0x0A # r"
    and "takeWhile (\<lambda>c. c \<noteq> CHR 0x0A) (l @ CHR 0x0A # r) = l"
    using assms by (induction l) auto
  then show ?thesis
    by (subst lines.simps) simp
qed

lemma strip_prefix_append [simp]: "strip_prefix p (p @ s) = Some s"
  by (simp add: strip_prefix_def)

lemma strip_cr_id [simp]: "CHR 0x0D \<notin> set l \<Longrightarrow> strip_cr l = l"
  by (auto simp: strip_cr_def dest: last_in_set)

subsection \<open>Fixed-size hexadecimal fields\<close>

text \<open>The loop that fills an array from the digit pairs of a string: a slice off a character
  boundary panics, a pair that is no number is an error.\<close>

datatype hex_failure =
    Hex_Digit
  | Hex_Panic

primrec hex_from :: "string \<Rightarrow> nat \<Rightarrow> nat \<Rightarrow> (hex_failure, bytes) result" where
  "hex_from s i 0 = Inr []"
| "hex_from s i (Suc k) =
     (case str_slice (2 * i) (2 * i + 2) s of
        None \<Rightarrow> Inl Hex_Panic
      | Some d \<Rightarrow>
          (case u8_from_str_radix16 d of
             None \<Rightarrow> Inl Hex_Digit
           | Some b \<Rightarrow> result_bind (hex_from s (Suc i) k) (\<lambda>bs. Inr (b # bs))))"

lemma hex_char_digit:
  assumes "n < 16"
  shows "hex_digit (hex_char n) = Some n"
    and "48 \<le> (of_char (hex_char n) :: nat) \<and> (of_char (hex_char n) :: nat) \<le> 102"
proof -
  have "list_all (\<lambda>k. hex_digit (hex_char k) = Some k \<and>
      48 \<le> (of_char (hex_char k) :: nat) \<and> (of_char (hex_char k) :: nat) \<le> 102) [0..<16]"
    by code_simp
  then show "hex_digit (hex_char n) = Some n"
    "48 \<le> (of_char (hex_char n) :: nat) \<and> (of_char (hex_char n) :: nat) \<le> 102"
    using assms by (auto simp: list_all_iff)
qed

lemma byte_digits [simp]: "unat (b :: byte) div 16 < 16" "unat (b :: byte) mod 16 < 16"
  using unat_byte_less [of b] by (simp_all add: div_less_iff_less_mult del: unat_byte_less)

lemma radix16_hex_byte: "u8_from_str_radix16 (hex_byte b) = Some b"
proof -
  have "hex_char (unat b div 16) \<noteq> CHR ''+''"
    using hex_char_digit(1) [OF byte_digits(1) [of b]] by (auto simp: hex_digit_def)
  moreover have "unat b div 16 * 16 + unat b mod 16 = unat b" by simp
  ultimately show ?thesis
    using unat_byte_less [of b] byte_digits [of b]
    by (simp add: u8_from_str_radix16_def hex_byte_def hex_char_digit del: unat_byte_less byte_digits)
qed

lemma hex_encode_chars:
  "c \<in> set (hex_encode bs) \<Longrightarrow> 48 \<le> (of_char c :: nat) \<and> (of_char c :: nat) \<le> 102"
proof (induction bs)
  case (Cons b bs)
  then show ?case
    using hex_char_digit(2) [OF byte_digits(1) [of b]] hex_char_digit(2) [OF byte_digits(2) [of b]]
    by (auto simp: hex_byte_def)
qed simp

lemma hex_encode_not_cont: "i < 2 * length bs \<Longrightarrow> \<not> cont (of_char (hex_encode bs ! i))"
  using hex_encode_chars [of "hex_encode bs ! i" bs] nth_mem [of i "hex_encode bs"] by (simp add: cont_def)

lemma char_boundary_hex: "i \<le> 2 * length bs \<Longrightarrow> char_boundary (hex_encode bs) i"
  using hex_encode_not_cont [of i bs] by (auto simp: char_boundary_def)

lemma hex_encode_append: "hex_encode (as @ bs) = hex_encode as @ hex_encode bs"
  by (simp add: hex_encode_def)

lemma hex_from_encode:
  "hex_from (hex_encode (as @ bs)) (length as) (length bs) = Inr bs"
proof (induction bs arbitrary: as)
  case (Cons b bs)
  have "str_slice (2 * length as) (2 * length as + 2) (hex_encode (as @ b # bs)) = Some (hex_byte b)"
    by (simp add: str_slice_def char_boundary_hex)
       (simp add: hex_encode_append bslice_def hex_byte_def)
  moreover have "hex_from (hex_encode (as @ b # bs)) (Suc (length as)) (length bs) = Inr bs"
    using Cons [of "as @ [b]"] by simp
  ultimately show ?case by (simp add: radix16_hex_byte)
qed simp

lemma hex_from_length: "hex_from s i k = Inr bs \<Longrightarrow> length bs = k"
  by (induction k arbitrary: i bs) (auto simp: result_bind_Inr_iff split: option.splits)

lemma string_ok_ascii:
  "(\<And>c. c \<in> set s \<Longrightarrow> (of_char c :: nat) < 128) \<Longrightarrow> string_ok s"
proof (induction s)
  case (Cons a s)
  have "unat (word_of_nat (of_char a) :: byte) = of_char a" by (simp add: unat_of_nat)
  with Cons show ?case
    by (simp add: string_ok_def utf8_ok_def string_bytes_def utf8_valid.simps(2) o_def)
qed (simp add: string_ok_def utf8_ok_def string_bytes_def)

lemma hex_encode_string_ok: "string_ok (hex_encode bs)"
  by (rule string_ok_ascii) (use hex_encode_chars in fastforce)

lemma hex_encode_avoids:
  "(of_char c :: nat) < 48 \<Longrightarrow> c \<notin> set (hex_encode bs)"
  using hex_encode_chars [of c bs] by auto

subsection \<open>Splitting and numbers as text\<close>

text \<open>\<open>str::split(c)\<close>: always at least one piece.\<close>

fun split_on :: "char \<Rightarrow> string \<Rightarrow> string list" where
  "split_on c [] = [[]]"
| "split_on c (x # xs) =
     (if x = c then [] # split_on c xs
      else (case split_on c xs of [] \<Rightarrow> [[x]] | w # ws \<Rightarrow> (x # w) # ws))"

lemma split_on_none: "c \<notin> set s \<Longrightarrow> split_on c s = [s]"
  by (induction s) auto

text \<open>\<open>format!("{}")\<close> of an unsigned number, and its zero-padded form.\<close>

function dec_string :: "nat \<Rightarrow> string" where
  "dec_string n = (if n < 10 then [hex_char n] else dec_string (n div 10) @ [hex_char (n mod 10)])"
  by pat_completeness auto
termination by (relation "measure id") auto

declare dec_string.simps [simp del]

definition pad_left :: "nat \<Rightarrow> string \<Rightarrow> string" where
  "pad_left w s = replicate (w - length s) CHR ''0'' @ s"

lemma length_dec_string: "n < 10 ^ k \<Longrightarrow> 0 < k \<Longrightarrow> length (dec_string n) \<le> k"
proof (induction n arbitrary: k rule: dec_string.induct)
  case (1 n)
  show ?case
  proof (cases "n < 10")
    case True
    then show ?thesis using 1 by (simp add: dec_string.simps [of n])
  next
    case False
    then obtain j where j: "k = Suc (Suc j)" using 1(2,3) by (cases k; cases "k - 1") auto
    have "n div 10 < 10 ^ Suc j" using 1(2) j by (simp add: div_less_iff_less_mult)
    then have "length (dec_string (n div 10)) \<le> Suc j" using 1(1) [OF False] by simp
    then show ?thesis using False j by (simp add: dec_string.simps [of n])
  qed
qed

lemma length_pad_left: "length s \<le> w \<Longrightarrow> length (pad_left w s) = w"
  by (simp add: pad_left_def)

definition dec_value :: "string \<Rightarrow> nat" where
  "dec_value s = foldl (\<lambda>a c. a * 10 + (of_char c - 48)) 0 s"

lemma dec_value_digit: "n < 10 \<Longrightarrow> (of_char (hex_char n) :: nat) - 48 = n"
proof -
  assume n: "n < 10"
  have "list_all (\<lambda>k. (of_char (hex_char k) :: nat) - 48 = k) [0..<10]" by code_simp
  then show ?thesis using n by (auto simp: list_all_iff)
qed

lemma dec_value_string: "dec_value (dec_string n) = n"
proof (induction n rule: dec_string.induct)
  case (1 n)
  then show ?case
    by (cases "n < 10") (simp_all add: dec_string.simps [of n] dec_value_def dec_value_digit)
qed

lemma dec_value_pad: "dec_value (pad_left w s) = dec_value s"
proof -
  have "foldl (\<lambda>a c. a * 10 + (of_char c - 48)) 0 (replicate n CHR ''0'') = (0::nat)" for n
    by (induction n) simp_all
  then show ?thesis by (simp add: dec_value_def pad_left_def)
qed

subsection \<open>White space\<close>

text \<open>\<open>str::trim\<close>: the UTF-8 encodings of the characters with the White_Space property.\<close>

definition white_space :: "bytes list" where
  "white_space =
     map (\<lambda>b. [b]) [9, 10, 11, 12, 13, 32] @ [[0xC2, 0x85], [0xC2, 0xA0], [0xE1, 0x9A, 0x80]] @
     map (\<lambda>b. [0xE2, 0x80, b]) [0x80, 0x81, 0x82, 0x83, 0x84, 0x85, 0x86, 0x87, 0x88, 0x89, 0x8A, 0xA8, 0xA9, 0xAF] @
     [[0xE2, 0x81, 0x9F], [0xE3, 0x80, 0x80]]"

definition strip_one :: "bytes list \<Rightarrow> bytes \<Rightarrow> bytes option" where
  "strip_one seqs bs = find_map (\<lambda>w. if take (length w) bs = w then Some (drop (length w) bs) else None) seqs"

primrec strip_many :: "nat \<Rightarrow> bytes list \<Rightarrow> bytes \<Rightarrow> bytes" where
  "strip_many 0 seqs bs = bs"
| "strip_many (Suc n) seqs bs = (case strip_one seqs bs of None \<Rightarrow> bs | Some r \<Rightarrow> strip_many n seqs r)"

definition str_trim :: "bytes \<Rightarrow> bytes" where
  "str_trim bs =
     (let front = strip_many (length bs) white_space bs
      in rev (strip_many (length front) (map rev white_space) (rev front)))"

definition to_ascii_lowercase :: "bytes \<Rightarrow> bytes" where
  "to_ascii_lowercase = map (\<lambda>b. if 65 \<le> b \<and> b \<le> 90 then b + 32 else b)"

subsection \<open>Parsing numbers and searching text\<close>

text \<open>\<open>str::parse::<i32>\<close>: an optional sign, at least one digit, and the range of the type.\<close>

definition dec_digit :: "byte \<Rightarrow> int option" where
  "dec_digit b = (if 48 \<le> b \<and> b \<le> 57 then Some (uint b - 48) else None)"

fun dec_digits :: "int \<Rightarrow> bytes \<Rightarrow> int option" where
  "dec_digits acc [] = Some acc"
| "dec_digits acc (b # bs) = (case dec_digit b of None \<Rightarrow> None | Some d \<Rightarrow> dec_digits (acc * 10 + d) bs)"

definition unsigned_digits :: "bytes \<Rightarrow> int option" where
  "unsigned_digits bs = (if bs = [] then None else dec_digits 0 bs)"

definition parse_i32 :: "bytes \<Rightarrow> int option" where
  "parse_i32 bs =
     (let v = (case bs of
                 [] \<Rightarrow> None
               | b # r \<Rightarrow>
                   if b = 43 then unsigned_digits r
                   else if b = 45 then map_option uminus (unsigned_digits r)
                   else unsigned_digits bs)
      in case v of None \<Rightarrow> None | Some n \<Rightarrow> if - 2147483648 \<le> n \<and> n \<le> 2147483647 then Some n else None)"

definition parse_u32 :: "bytes \<Rightarrow> int option" where
  "parse_u32 bs =
     (let v = (case bs of [] \<Rightarrow> None | b # r \<Rightarrow> if b = 43 then unsigned_digits r else unsigned_digits bs)
      in case v of None \<Rightarrow> None | Some n \<Rightarrow> if n \<le> 4294967295 then Some n else None)"

text \<open>\<open>str::find\<close>: the offset of the first occurrence.\<close>

primrec str_find :: "string \<Rightarrow> string \<Rightarrow> nat option" where
  "str_find needle [] = (if needle = [] then Some 0 else None)"
| "str_find needle (c # s) = (if take (length needle) (c # s) = needle then Some 0 else map_option Suc (str_find needle s))"

end
