(* ===== verification/Pair_Transaction.thy ===== *)
theory Pair_Transaction
  imports Rust_Std
begin

section \<open>The V2 pairing transaction: \<open>pair_transaction.rs\<close> of syauth-core\<close>

text \<open>
  The commit protocol both ends of a pairing run. The theory has the wire messages and their
  codecs, the transition validator \<open>Transaction\<close> with every operation of its \<open>impl\<close> block,
  and the lemmas that make it a commit protocol: what a reachable state implies, that no
  event undoes a commit decision, and which events a commit needs.
  Operations that take \<open>&mut self\<close> return the Rust result paired with the new state.
\<close>

subsection \<open>Wire messages\<close>

definition TX_VERSION :: byte where [wire_consts]: "TX_VERSION = 2"
definition MESSAGE_LEN :: nat where [wire_consts]: "MESSAGE_LEN = 18"
definition STATUS_MESSAGE_LEN :: nat where [wire_consts]: "STATUS_MESSAGE_LEN = 27"
definition STATUS_QUERY_STATE :: byte where [wire_consts]: "STATUS_QUERY_STATE = 0"

datatype operation =
    Op_Capability | Op_Confirm | Op_Reject | Op_Cancel | Op_Timeout | Op_Prepared | Op_Commit
  | Op_CommitAck | Op_Committed | Op_Status | Op_Error | Op_StatusQuery | Op_StatusResponse
  | Op_Revoke

primrec op_code :: "operation \<Rightarrow> byte" where
  "op_code Op_Capability = 1"
| "op_code Op_Confirm = 2"
| "op_code Op_Reject = 3"
| "op_code Op_Cancel = 4"
| "op_code Op_Timeout = 5"
| "op_code Op_Prepared = 6"
| "op_code Op_Commit = 7"
| "op_code Op_CommitAck = 8"
| "op_code Op_Committed = 9"
| "op_code Op_Status = 10"
| "op_code Op_Error = 11"
| "op_code Op_StatusQuery = 12"
| "op_code Op_StatusResponse = 13"
| "op_code Op_Revoke = 14"

datatype transaction_error = Incompatible | WrongTransaction | InvalidTransition

record message =
  msg_transaction :: bytes
  msg_operation :: operation

definition message_encode :: "message \<Rightarrow> bytes" where
  "message_encode m = [TX_VERSION] @ msg_transaction m @ [op_code (msg_operation m)]"

definition op_of_code :: "byte \<Rightarrow> operation option" where
  "op_of_code b =
     (if b = 1 then Some Op_Capability
      else if b = 2 then Some Op_Confirm
      else if b = 3 then Some Op_Reject
      else if b = 4 then Some Op_Cancel
      else if b = 5 then Some Op_Timeout
      else if b = 6 then Some Op_Prepared
      else if b = 7 then Some Op_Commit
      else if b = 8 then Some Op_CommitAck
      else if b = 9 then Some Op_Committed
      else if b = 10 then Some Op_Status
      else if b = 11 then Some Op_Error
      else if b = 12 then Some Op_StatusQuery
      else if b = 13 then Some Op_StatusResponse
      else if b = 14 then Some Op_Revoke
      else None)"

definition message_decode :: "bytes \<Rightarrow> (transaction_error, message) result" where
  "message_decode bs =
     (if length bs \<noteq> MESSAGE_LEN \<or> bs ! 0 \<noteq> TX_VERSION then Inl Incompatible
      else (case op_of_code (bs ! 17) of
              None \<Rightarrow> Inl Incompatible
            | Some oper \<Rightarrow> Inr \<lparr>msg_transaction = bslice 1 17 bs, msg_operation = oper\<rparr>))"

datatype status_state =
  St_PreCommit | St_CommitPending | St_Committed | St_Bonded | St_Aborted | St_Unknown

primrec status_code :: "status_state \<Rightarrow> byte" where
  "status_code St_PreCommit = 1"
| "status_code St_CommitPending = 2"
| "status_code St_Committed = 3"
| "status_code St_Bonded = 4"
| "status_code St_Aborted = 5"
| "status_code St_Unknown = 6"

definition status_state_decode :: "byte \<Rightarrow> (transaction_error, status_state) result" where
  "status_state_decode v =
     (if v = 1 then Inr St_PreCommit
      else if v = 2 then Inr St_CommitPending
      else if v = 3 then Inr St_Committed
      else if v = 4 then Inr St_Bonded
      else if v = 5 then Inr St_Aborted
      else if v = 6 then Inr St_Unknown
      else Inl Incompatible)"

record status_message =
  sm_transaction :: bytes
  sm_nonce :: u64
  sm_state :: "status_state option"

definition status_query :: "bytes \<Rightarrow> u64 \<Rightarrow> status_message" where
  "status_query tid n = \<lparr>sm_transaction = tid, sm_nonce = n, sm_state = None\<rparr>"

definition status_response :: "bytes \<Rightarrow> u64 \<Rightarrow> status_state \<Rightarrow> status_message" where
  "status_response tid n st = \<lparr>sm_transaction = tid, sm_nonce = n, sm_state = Some st\<rparr>"

definition status_encode :: "status_message \<Rightarrow> bytes" where
  "status_encode m =
     [TX_VERSION] @ sm_transaction m @ u64_to_be (sm_nonce m) @
     [if sm_state m \<noteq> None then op_code Op_StatusResponse else op_code Op_StatusQuery] @
     [case sm_state m of None \<Rightarrow> STATUS_QUERY_STATE | Some st \<Rightarrow> status_code st]"

definition status_decode :: "bytes \<Rightarrow> (transaction_error, status_message) result" where
  "status_decode bs =
     (if length bs \<noteq> STATUS_MESSAGE_LEN \<or> bs ! 0 \<noteq> TX_VERSION then Inl Incompatible
      else
        let tid = bslice 1 17 bs; n = u64_from_be (bslice 17 25 bs) in
        if bs ! 25 = 12 \<and> bs ! 26 = STATUS_QUERY_STATE then Inr (status_query tid n)
        else if bs ! 25 = 12 \<or> (bs ! 25 = 13 \<and> bs ! 26 = STATUS_QUERY_STATE) then Inl Incompatible
        else if bs ! 25 = 13 then
          result_bind (status_state_decode (bs ! 26)) (\<lambda>st. Inr (status_response tid n st))
        else Inl Incompatible)"

subsection \<open>The transaction state\<close>

datatype phase =
    Negotiating | OobPending | Preparing | Prepared | CommitPending | Committed | Bonded
  | Aborted operation | Uncertain

datatype role = Coordinator | Participant

datatype local_event =
    Ev_VerifiedExchange | Ev_Capability | Ev_Confirm | Ev_Prepared | Ev_Commit | Ev_CommitAck
  | Ev_Committed | Ev_Disconnected | Ev_Abort operation

text \<open>The flag arrays \<open>[bool; 2]\<close>: index 0 is the local side, index 1 the peer.\<close>

type_synonym flags = "bool \<times> bool"

definition flag :: "nat \<Rightarrow> flags \<Rightarrow> bool" where
  "flag side fl = (if side = 0 then fst fl else snd fl)"

definition set_flag :: "nat \<Rightarrow> flags \<Rightarrow> flags" where
  "set_flag side fl = (if side = 0 then (True, snd fl) else (fst fl, True))"

abbreviation both :: flags where "both \<equiv> (True, True)"
abbreviation neither :: flags where "neither \<equiv> (False, False)"

record transaction =
  tx_id :: bytes
  tx_role :: role
  tx_phase :: phase
  tx_capabilities :: flags
  tx_confirmed :: flags
  tx_prepared :: flags
  tx_committed :: flags

type_synonym 'a tx_outcome = "(transaction_error, 'a) result \<times> transaction"

definition tx_new :: "bytes \<Rightarrow> role \<Rightarrow> transaction" where
  "tx_new i r = \<lparr>tx_id = i, tx_role = r, tx_phase = Negotiating, tx_capabilities = neither,
     tx_confirmed = neither, tx_prepared = neither, tx_committed = neither\<rparr>"

primrec phase_code :: "phase \<Rightarrow> byte" where
  "phase_code Negotiating = 0"
| "phase_code OobPending = 1"
| "phase_code Preparing = 2"
| "phase_code Prepared = 3"
| "phase_code CommitPending = 4"
| "phase_code Committed = 5"
| "phase_code Bonded = 6"
| "phase_code (Aborted x) = 7"
| "phase_code Uncertain = 8"

definition decode_phase :: "byte \<Rightarrow> (transaction_error, phase) result" where
  "decode_phase c =
     (if c = 0 then Inr Negotiating
      else if c = 1 then Inr OobPending
      else if c = 2 then Inr Preparing
      else if c = 3 then Inr Prepared
      else if c = 4 then Inr CommitPending
      else if c = 5 then Inr Committed
      else if c = 6 then Inr Bonded
      else if c = 8 then Inr Uncertain
      else Inl Incompatible)"

definition tx_validate :: "transaction \<Rightarrow> (transaction_error, unit) result" where
  "tx_validate t =
     (let valid = (case tx_phase t of
          Negotiating \<Rightarrow> \<not> fst (tx_capabilities t) \<or> snd (tx_capabilities t)
        | OobPending \<Rightarrow> tx_capabilities t = both \<and> tx_confirmed t \<noteq> both
        | Preparing \<Rightarrow> tx_capabilities t = both \<and> tx_confirmed t = both \<and> tx_prepared t \<noteq> both
        | Prepared \<Rightarrow> tx_capabilities t = both \<and> tx_confirmed t = both \<and> tx_prepared t = both
            \<and> tx_committed t = neither
        | CommitPending \<Rightarrow> tx_capabilities t = both \<and> tx_confirmed t = both
            \<and> tx_prepared t = both \<and> tx_committed t = neither
        | Committed \<Rightarrow> tx_capabilities t = both \<and> tx_confirmed t = both \<and> tx_prepared t = both
            \<and> tx_committed t \<noteq> both
        | Bonded \<Rightarrow> tx_capabilities t = both \<and> tx_confirmed t = both \<and> tx_prepared t = both
            \<and> tx_committed t = both
        | Aborted x \<Rightarrow> True
        | Uncertain \<Rightarrow> True)
      in if valid then Inr () else Inl InvalidTransition)"

definition flag_byte :: "bool \<Rightarrow> byte" where
  "flag_byte b = (if b then 1 else 0)"

definition flags_bytes :: "flags \<Rightarrow> bytes" where
  "flags_bytes fl = [flag_byte (fst fl), flag_byte (snd fl)]"

definition tx_serialize :: "transaction \<Rightarrow> bytes" where
  "tx_serialize t =
     [TX_VERSION, (case tx_role t of Coordinator \<Rightarrow> 0 | Participant \<Rightarrow> 1), phase_code (tx_phase t)]
     @ tx_id t @ flags_bytes (tx_capabilities t) @ flags_bytes (tx_confirmed t)
     @ flags_bytes (tx_prepared t) @ flags_bytes (tx_committed t)"

text \<open>The closure \<open>flags\<close> of \<open>restore\<close>: two bytes that must each be 0 or 1.\<close>

definition restore_flags :: "bytes \<Rightarrow> nat \<Rightarrow> (transaction_error, flags) result" where
  "restore_flags bs offset =
     (if bs ! offset \<le> 1 \<and> bs ! (offset + 1) \<le> 1
      then Inr (bs ! offset \<noteq> 0, bs ! (offset + 1) \<noteq> 0) else Inl Incompatible)"

definition tx_restore :: "bytes \<Rightarrow> (transaction_error, transaction) result" where
  "tx_restore bs =
     (if length bs \<noteq> 27 \<or> bs ! 0 \<noteq> TX_VERSION then Inl Incompatible
      else result_bind
        (if bs ! 1 = 0 then Inr Coordinator else if bs ! 1 = 1 then Inr Participant else Inl Incompatible)
        (\<lambda>r. result_bind (decode_phase (bs ! 2))
        (\<lambda>p. result_bind (restore_flags bs 19)
        (\<lambda>caps. result_bind (restore_flags bs 21)
        (\<lambda>conf. result_bind (restore_flags bs 23)
        (\<lambda>prep. result_bind (restore_flags bs 25)
        (\<lambda>comm.
           let t = \<lparr>tx_id = bslice 3 19 bs, tx_role = r, tx_phase = p, tx_capabilities = caps,
                    tx_confirmed = conf, tx_prepared = prep, tx_committed = comm\<rparr>
           in result_bind (tx_validate t) (\<lambda>_. Inr t))))))))"

definition from_recovery_status ::
    "bytes \<Rightarrow> role \<Rightarrow> status_state \<Rightarrow> (transaction_error, transaction) result" where
  "from_recovery_status i r st =
     (let p = (case st of
            St_PreCommit \<Rightarrow> Prepared
          | St_CommitPending \<Rightarrow> CommitPending
          | St_Committed \<Rightarrow> Committed
          | St_Bonded \<Rightarrow> Bonded
          | St_Aborted \<Rightarrow> Aborted Op_Error
          | St_Unknown \<Rightarrow> Uncertain);
          comm = (case p of Bonded \<Rightarrow> both | Committed \<Rightarrow> (True, False) | _ \<Rightarrow> neither);
          t = \<lparr>tx_id = i, tx_role = r, tx_phase = p, tx_capabilities = both,
               tx_confirmed = both, tx_prepared = both, tx_committed = comm\<rparr>
      in result_bind (tx_validate t) (\<lambda>_. Inr t))"

subsection \<open>Transitions\<close>

definition tx_confirm :: "transaction \<Rightarrow> nat \<Rightarrow> unit tx_outcome" where
  "tx_confirm t side =
     (if tx_phase t \<noteq> OobPending \<or> flag side (tx_confirmed t) then (Inl InvalidTransition, t)
      else
        let t1 = t\<lparr>tx_confirmed := set_flag side (tx_confirmed t)\<rparr> in
        (Inr (), if tx_confirmed t1 = both then t1\<lparr>tx_phase := Preparing\<rparr> else t1))"

definition tx_prepare :: "transaction \<Rightarrow> nat \<Rightarrow> unit tx_outcome" where
  "tx_prepare t side =
     (if tx_phase t \<noteq> Preparing \<or> flag side (tx_prepared t) then (Inl InvalidTransition, t)
      else
        let t1 = t\<lparr>tx_prepared := set_flag side (tx_prepared t)\<rparr> in
        (Inr (), if tx_prepared t1 = both then t1\<lparr>tx_phase := Prepared\<rparr> else t1))"

definition tx_record_committed :: "transaction \<Rightarrow> nat \<Rightarrow> unit tx_outcome" where
  "tx_record_committed t side =
     (if tx_phase t \<noteq> Committed \<or> flag side (tx_committed t) then (Inl InvalidTransition, t)
      else
        let t1 = t\<lparr>tx_committed := set_flag side (tx_committed t)\<rparr> in
        (Inr (), if tx_committed t1 = both then t1\<lparr>tx_phase := Bonded\<rparr> else t1))"

definition tx_disconnect :: "transaction \<Rightarrow> transaction" where
  "tx_disconnect t = t\<lparr>tx_phase :=
     (case tx_phase t of
        CommitPending \<Rightarrow> Uncertain | Committed \<Rightarrow> Uncertain | Uncertain \<Rightarrow> Uncertain
      | Bonded \<Rightarrow> tx_phase t | Aborted x \<Rightarrow> tx_phase t
      | _ \<Rightarrow> Aborted Op_Cancel)\<rparr>"

definition is_abort_op :: "operation \<Rightarrow> bool" where
  "is_abort_op x \<longleftrightarrow> x = Op_Reject \<or> x = Op_Cancel \<or> x = Op_Timeout \<or> x = Op_Error"

definition is_aborted :: "phase \<Rightarrow> bool" where
  "is_aborted p \<longleftrightarrow> (case p of Aborted x \<Rightarrow> True | _ \<Rightarrow> False)"

definition tx_abort :: "transaction \<Rightarrow> operation \<Rightarrow> unit tx_outcome" where
  "tx_abort t x =
     (if \<not> is_abort_op x \<or> tx_phase t = Bonded \<or> is_aborted (tx_phase t)
      then (Inl InvalidTransition, t)
      else (Inr (), t\<lparr>tx_phase :=
        (case tx_phase t of
           CommitPending \<Rightarrow> Uncertain | Committed \<Rightarrow> Uncertain | Uncertain \<Rightarrow> Uncertain
         | _ \<Rightarrow> Aborted x)\<rparr>))"

fun tx_local :: "transaction \<Rightarrow> local_event \<Rightarrow> unit tx_outcome" where
  "tx_local t Ev_Capability =
     (if tx_phase t = Negotiating \<and> \<not> fst (tx_capabilities t)
      then (Inr (), t\<lparr>tx_capabilities := set_flag 0 (tx_capabilities t)\<rparr>)
      else (Inl InvalidTransition, t))"
| "tx_local t Ev_VerifiedExchange =
     (if tx_phase t = Negotiating \<and> tx_capabilities t = both
      then (Inr (), t\<lparr>tx_phase := OobPending\<rparr>) else (Inl InvalidTransition, t))"
| "tx_local t Ev_Confirm = tx_confirm t 0"
| "tx_local t Ev_Prepared = tx_prepare t 0"
| "tx_local t Ev_Commit =
     (if tx_role t = Coordinator \<and> tx_phase t = Prepared
      then (Inr (), t\<lparr>tx_phase := CommitPending\<rparr>) else (Inl InvalidTransition, t))"
| "tx_local t Ev_CommitAck =
     (if tx_role t = Participant \<and> tx_phase t = CommitPending
      then (Inr (), t\<lparr>tx_phase := Committed\<rparr>) else (Inl InvalidTransition, t))"
| "tx_local t Ev_Committed = tx_record_committed t 0"
| "tx_local t Ev_Disconnected = (Inr (), tx_disconnect t)"
| "tx_local t (Ev_Abort x) = tx_abort t x"

definition tx_remote :: "transaction \<Rightarrow> message \<Rightarrow> unit tx_outcome" where
  "tx_remote t m =
     (if msg_transaction m \<noteq> tx_id t then (Inl WrongTransaction, t)
      else (case msg_operation m of
          Op_Capability \<Rightarrow>
            (if tx_phase t = Negotiating \<and> \<not> snd (tx_capabilities t)
             then (Inr (), t\<lparr>tx_capabilities := set_flag 1 (tx_capabilities t)\<rparr>)
             else (Inl InvalidTransition, t))
        | Op_Confirm \<Rightarrow> tx_confirm t 1
        | Op_Prepared \<Rightarrow> tx_prepare t 1
        | Op_Commit \<Rightarrow>
            (if tx_role t = Participant \<and> tx_phase t = Prepared
             then (Inr (), t\<lparr>tx_phase := CommitPending\<rparr>) else (Inl InvalidTransition, t))
        | Op_CommitAck \<Rightarrow>
            (if tx_role t = Coordinator \<and> tx_phase t = CommitPending
             then (Inr (), t\<lparr>tx_phase := Committed\<rparr>) else (Inl InvalidTransition, t))
        | Op_Committed \<Rightarrow> tx_record_committed t 1
        | Op_Status \<Rightarrow> (Inr (), t)
        | Op_StatusQuery \<Rightarrow> (Inr (), t)
        | Op_StatusResponse \<Rightarrow> (Inr (), t)
        | Op_Revoke \<Rightarrow> (Inl InvalidTransition, t)
        | x \<Rightarrow> tx_abort t x))"

definition tx_status :: "transaction \<Rightarrow> status_state" where
  "tx_status t =
     (case tx_phase t of
        Negotiating \<Rightarrow> St_PreCommit | OobPending \<Rightarrow> St_PreCommit
      | Preparing \<Rightarrow> St_PreCommit | Prepared \<Rightarrow> St_PreCommit
      | CommitPending \<Rightarrow> St_CommitPending
      | Uncertain \<Rightarrow> St_Unknown
      | Committed \<Rightarrow> St_Committed
      | Bonded \<Rightarrow> St_Bonded
      | Aborted x \<Rightarrow> St_Aborted)"

fun reconcile_phase :: "status_state \<Rightarrow> status_state \<Rightarrow> transaction \<Rightarrow> transaction" where
  "reconcile_phase St_Unknown remote t = t\<lparr>tx_phase := Uncertain\<rparr>"
| "reconcile_phase loc St_Unknown t = t\<lparr>tx_phase := Uncertain\<rparr>"
| "reconcile_phase St_PreCommit St_Aborted t = t\<lparr>tx_phase := Aborted Op_Error\<rparr>"
| "reconcile_phase St_PreCommit St_PreCommit t = t"
| "reconcile_phase St_CommitPending St_Committed t = t\<lparr>tx_phase := Committed\<rparr>"
| "reconcile_phase St_CommitPending St_Bonded t = t\<lparr>tx_committed := both, tx_phase := Bonded\<rparr>"
| "reconcile_phase St_Committed St_CommitPending t = t"
| "reconcile_phase St_Committed St_Committed t = t\<lparr>tx_committed := both, tx_phase := Bonded\<rparr>"
| "reconcile_phase St_Committed St_Bonded t = t\<lparr>tx_committed := both, tx_phase := Bonded\<rparr>"
| "reconcile_phase St_Bonded St_Committed t = t\<lparr>tx_committed := both, tx_phase := Bonded\<rparr>"
| "reconcile_phase St_Bonded St_Bonded t = t\<lparr>tx_committed := both, tx_phase := Bonded\<rparr>"
| "reconcile_phase St_Aborted St_Aborted t = t"
| "reconcile_phase St_Aborted St_PreCommit t = t"
| "reconcile_phase loc remote t = t\<lparr>tx_phase := Uncertain\<rparr>"

definition reconcile_status :: "transaction \<Rightarrow> status_state \<Rightarrow> phase tx_outcome" where
  "reconcile_status t remote =
     (let t1 = reconcile_phase (tx_status t) remote t in (Inr (tx_phase t1), t1))"

definition apply_status_response :: "transaction \<Rightarrow> status_message \<Rightarrow> u64 \<Rightarrow> phase tx_outcome" where
  "apply_status_response t response n =
     (if sm_transaction response \<noteq> tx_id t \<or> sm_nonce response \<noteq> n \<or> sm_state response = None
      then (Inl WrongTransaction, t)
      else (case sm_state response of
              None \<Rightarrow> (Inl Incompatible, t)
            | Some st \<Rightarrow> reconcile_status t st))"

subsection \<open>Runs of one side\<close>

text \<open>Everything that can happen to a transaction of one side: a local fact, a message of the
  peer, or a status response to a query with the given nonce.\<close>

datatype tx_event =
    Local local_event
  | Remote message
  | Response status_message u64

primrec tx_step :: "transaction \<Rightarrow> tx_event \<Rightarrow> transaction" where
  "tx_step t (Local e) = snd (tx_local t e)"
| "tx_step t (Remote m) = snd (tx_remote t m)"
| "tx_step t (Response r n) = snd (apply_status_response t r n)"

definition tx_run :: "transaction \<Rightarrow> tx_event list \<Rightarrow> transaction" where
  "tx_run t es = foldl tx_step t es"

text \<open>What holds of a transaction in each phase it can reach from \<open>new\<close>.\<close>

definition tx_inv :: "transaction \<Rightarrow> bool" where
  "tx_inv t \<longleftrightarrow>
     (case tx_phase t of
        Negotiating \<Rightarrow> tx_confirmed t = neither \<and> tx_prepared t = neither \<and> tx_committed t = neither
      | OobPending \<Rightarrow> tx_capabilities t = both \<and> tx_confirmed t \<noteq> both
          \<and> tx_prepared t = neither \<and> tx_committed t = neither
      | Preparing \<Rightarrow> tx_capabilities t = both \<and> tx_confirmed t = both
          \<and> tx_prepared t \<noteq> both \<and> tx_committed t = neither
      | Prepared \<Rightarrow> tx_capabilities t = both \<and> tx_confirmed t = both
          \<and> tx_prepared t = both \<and> tx_committed t = neither
      | CommitPending \<Rightarrow> tx_capabilities t = both \<and> tx_confirmed t = both
          \<and> tx_prepared t = both \<and> tx_committed t = neither
      | Committed \<Rightarrow> tx_capabilities t = both \<and> tx_confirmed t = both
          \<and> tx_prepared t = both \<and> tx_committed t \<noteq> both
      | Bonded \<Rightarrow> tx_capabilities t = both \<and> tx_confirmed t = both
          \<and> tx_prepared t = both \<and> tx_committed t = both
      | Aborted x \<Rightarrow> True
      | Uncertain \<Rightarrow> True)"

definition post_commit :: "phase \<Rightarrow> bool" where
  "post_commit p \<longleftrightarrow> p = CommitPending \<or> p = Committed \<or> p = Bonded \<or> p = Uncertain"

subsection \<open>Codecs\<close>

lemma op_of_code_op_code [simp]: "op_of_code (op_code x) = Some x"
  by (cases x) (simp_all add: op_of_code_def)

lemma op_of_code_SomeD: "op_of_code b = Some x \<Longrightarrow> op_code x = b"
  by (auto simp: op_of_code_def split: if_splits)

lemma status_state_decode_code [simp]: "status_state_decode (status_code st) = Inr st"
  by (cases st) (simp_all add: status_state_decode_def)

lemma status_state_decode_InrD: "status_state_decode b = Inr st \<Longrightarrow> status_code st = b"
  by (auto simp: status_state_decode_def split: if_splits)

lemma status_code_nonzero [simp]: "status_code st \<noteq> 0"
  by (cases st) simp_all

definition message_typed :: "message \<Rightarrow> bool" where
  "message_typed m \<longleftrightarrow> length (msg_transaction m) = 16"

definition status_typed :: "status_message \<Rightarrow> bool" where
  "status_typed m \<longleftrightarrow> length (sm_transaction m) = 16"

lemma nth_0_append1 [simp]: "([x] @ ys) ! 0 = x"
  by simp

lemma length_message_encode:
  "message_typed m \<Longrightarrow> length (message_encode m) = MESSAGE_LEN"
  by (simp add: message_encode_def message_typed_def wire_consts)

lemma message_decode_encode:
  assumes "message_typed m"
  shows "message_decode (message_encode m) = Inr m"
proof -
  have len: "length (msg_transaction m) = 16"
    using assms by (simp add: message_typed_def)
  have "bslice 1 17 (message_encode m) = msg_transaction m"
    using bslice_mid [of "[TX_VERSION]" 1 "msg_transaction m" 17] len by (simp add: message_encode_def)
  moreover have "message_encode m ! 17 = op_code (msg_operation m)"
    using len by (simp add: message_encode_def nth_append)
  ultimately show ?thesis
    using length_message_encode [OF assms]
    by (simp add: message_decode_def) (simp add: message_encode_def)
qed

lemma message_decode_InrD:
  assumes "message_decode bs = Inr m"
  shows "message_typed m \<and> message_encode m = bs"
proof -
  from assms obtain x where len: "length bs = 18" and v: "bs ! 0 = 2"
    and x: "op_of_code (bs ! 17) = Some x"
    and m: "m = \<lparr>msg_transaction = bslice 1 17 bs, msg_operation = x\<rparr>"
    by (auto simp: message_decode_def wire_consts split: if_splits option.splits)
  have "bslice 0 1 bs @ bslice 1 17 bs @ bslice 17 18 bs = bs"
    using len by (simp add: bslice_join bslice_full)
  moreover have "bslice 0 1 bs = [2]" "bslice 17 18 bs = [bs ! 17]"
    using len v bslice_single [of 0 bs] bslice_single [of 17 bs] by (cases bs; simp)+
  ultimately show ?thesis
    using m op_of_code_SomeD [OF x] len
    by (simp add: message_encode_def message_typed_def wire_consts length_bslice)
qed

interpretation msg_codec: fixed_codec message_typed "\<lambda>m. Some (message_encode m)"
  "\<lambda>bs. result_ok (message_decode bs)" MESSAGE_LEN
  by unfold_locales
     (auto simp: message_decode_encode length_message_encode dest: message_decode_InrD)

lemma length_status_encode:
  "status_typed m \<Longrightarrow> length (status_encode m) = STATUS_MESSAGE_LEN"
  by (simp add: status_encode_def status_typed_def wire_consts)

lemma status_decode_fields:
  assumes "length tid = 16" and "length nb = 8"
  shows "status_decode ([2] @ tid @ nb @ [a, b]) =
    (if a = 12 \<and> b = 0 then Inr (status_query tid (u64_from_be nb))
     else if a = 12 \<or> (a = 13 \<and> b = 0) then Inl Incompatible
     else if a = 13 then
       result_bind (status_state_decode b) (\<lambda>st. Inr (status_response tid (u64_from_be nb) st))
     else Inl Incompatible)"
proof -
  define bs where "bs = [2] @ tid @ nb @ [a, b]"
  have "bslice 1 17 bs = tid"
    using bslice_mid [of "[2]" 1 tid 17] assms by (simp add: bs_def)
  moreover have "bslice 17 25 bs = nb"
    using bslice_mid [of "[2] @ tid" 17 nb 25 "[a, b]"] assms by (simp add: bs_def)
  moreover have "bs ! 25 = a" "bs ! 26 = b"
    using assms by (simp_all add: nth_append bs_def)
  moreover have "length bs = 27" "bs ! 0 = 2"
    using assms by (simp_all add: bs_def)
  ultimately have "status_decode bs =
    (if a = 12 \<and> b = 0 then Inr (status_query tid (u64_from_be nb))
     else if a = 12 \<or> (a = 13 \<and> b = 0) then Inl Incompatible
     else if a = 13 then
       result_bind (status_state_decode b) (\<lambda>st. Inr (status_response tid (u64_from_be nb) st))
     else Inl Incompatible)"
    unfolding status_decode_def wire_consts Let_def by simp
  then show ?thesis by (simp only: bs_def)
qed

lemma status_decode_encode:
  assumes "status_typed m"
  shows "status_decode (status_encode m) = Inr m"
  using assms status_decode_fields [of "sm_transaction m" "u64_to_be (sm_nonce m)"]
  by (cases "sm_state m")
     (simp_all add: status_encode_def status_typed_def wire_consts status_query_def status_response_def)

lemma status_decode_InrD:
  assumes "status_decode bs = Inr m"
  shows "status_typed m \<and> status_encode m = bs"
proof -
  from assms have len: "length bs = 27" and v: "bs ! 0 = 2"
    by (auto simp: status_decode_def wire_consts split: if_splits)
  define tid nb where "tid = bslice 1 17 bs" and "nb = bslice 17 25 bs"
  have lens: "length tid = 16" "length nb = 8"
    using len by (simp_all add: tid_def nb_def length_bslice)
  have "bslice 0 1 bs @ tid @ nb @ bslice 25 26 bs @ bslice 26 27 bs = bs"
    using len unfolding tid_def nb_def by (simp add: bslice_join bslice_full)
  moreover have "bslice 0 1 bs = [2]" "bslice 25 26 bs = [bs ! 25]" "bslice 26 27 bs = [bs ! 26]"
    using len v bslice_single [of 0 bs] bslice_single [of 25 bs] bslice_single [of 26 bs]
    by (cases bs; simp)+
  ultimately have bs: "bs = [2] @ tid @ nb @ [bs ! 25, bs ! 26]"
    by simp
  then have dec: "status_decode ([2] @ tid @ nb @ [bs ! 25, bs ! 26]) = Inr m"
    using assms by simp
  have enc: "[2] @ tid @ nb @ [a, b] = status_encode m \<and> status_typed m"
    if "status_decode ([2] @ tid @ nb @ [a, b]) = Inr m" for a b
    using that lens unfolding status_decode_fields [OF lens]
    by (auto simp: status_encode_def status_query_def status_response_def status_typed_def
        wire_consts u64_to_from_be result_bind_Inr_iff dest!: status_state_decode_InrD split: if_splits)
  show ?thesis
    using enc [OF dec] bs by simp
qed

interpretation sts_codec: fixed_codec status_typed "\<lambda>m. Some (status_encode m)"
  "\<lambda>bs. result_ok (status_decode bs)" STATUS_MESSAGE_LEN
  by unfold_locales
     (auto simp: status_decode_encode length_status_encode dest: status_decode_InrD)

subsection \<open>Invariants of one side\<close>

lemmas tx_op_defs =
  tx_confirm_def tx_prepare_def tx_record_committed_def tx_disconnect_def tx_abort_def
  Let_def flag_def set_flag_def is_aborted_def

lemma tx_local_inv: "tx_inv t \<Longrightarrow> tx_inv (snd (tx_local t e))"
  by (cases "tx_phase t"; cases e)
     (auto simp: tx_op_defs tx_inv_def split: if_splits)

lemma tx_remote_inv: "tx_inv t \<Longrightarrow> tx_inv (snd (tx_remote t m))"
  by (cases "tx_phase t"; cases "msg_operation m")
     (auto simp: tx_remote_def tx_op_defs tx_inv_def split: if_splits)

lemma reconcile_phase_inv:
  "tx_inv t \<Longrightarrow> tx_inv (reconcile_phase (tx_status t) st t)"
  by (cases "tx_phase t"; cases st) (auto simp: tx_status_def tx_inv_def)

lemma apply_status_response_state:
  "snd (apply_status_response t r n) = t \<or>
   (\<exists>st. sm_state r = Some st \<and> snd (apply_status_response t r n) = reconcile_phase (tx_status t) st t)"
  by (auto simp: apply_status_response_def reconcile_status_def Let_def split: option.splits)

lemma tx_response_inv: "tx_inv t \<Longrightarrow> tx_inv (snd (apply_status_response t r n))"
  using apply_status_response_state [of t r n] reconcile_phase_inv by metis

lemma tx_step_inv: "tx_inv t \<Longrightarrow> tx_inv (tx_step t e)"
  by (cases e) (simp_all add: tx_local_inv tx_remote_inv tx_response_inv)

interpretation tx_inv_kept: preserved tx_step tx_inv
  by unfold_locales (rule tx_step_inv)

lemma tx_new_inv: "tx_inv (tx_new i r)"
  by (simp add: tx_inv_def tx_new_def)

lemma tx_run_inv: "tx_inv (tx_run (tx_new i r) es)"
  unfolding tx_run_def by (rule tx_inv_kept.run_keeps [OF tx_new_inv])

text \<open>No event leaves the phases after the commit decision.\<close>

lemma tx_local_post_commit:
  "post_commit (tx_phase t) \<Longrightarrow> post_commit (tx_phase (snd (tx_local t e)))"
  by (cases e; cases "tx_phase t") (auto simp: post_commit_def tx_op_defs)

lemma tx_remote_post_commit:
  "post_commit (tx_phase t) \<Longrightarrow> post_commit (tx_phase (snd (tx_remote t m)))"
  by (cases "tx_phase t"; cases "msg_operation m")
     (auto simp: tx_remote_def tx_op_defs post_commit_def split: if_splits)

lemma reconcile_post_commit:
  "post_commit (tx_phase t) \<Longrightarrow> post_commit (tx_phase (reconcile_phase (tx_status t) st t))"
  by (cases "tx_phase t"; cases st) (auto simp: tx_status_def post_commit_def)

lemma tx_step_post_commit:
  "post_commit (tx_phase t) \<Longrightarrow> post_commit (tx_phase (tx_step t e))"
proof (cases e)
  case (Response r n)
  assume "post_commit (tx_phase t)"
  then show ?thesis
    using Response apply_status_response_state [of t r n] reconcile_post_commit [of t]
    by auto
qed (simp_all add: tx_local_post_commit tx_remote_post_commit)

interpretation commit_kept: preserved tx_step "\<lambda>t. post_commit (tx_phase t)"
  by unfold_locales (rule tx_step_post_commit)

text \<open>Identifier and role never change.\<close>

lemma reconcile_frame [simp]:
  "tx_id (reconcile_phase l st t) = tx_id t" "tx_role (reconcile_phase l st t) = tx_role t"
  by (cases l; cases st; simp)+

lemma tx_step_frame [simp]: "tx_id (tx_step t e) = tx_id t" "tx_role (tx_step t e) = tx_role t"
proof -
  have "tx_id (tx_step t e) = tx_id t \<and> tx_role (tx_step t e) = tx_role t"
  proof (cases e)
    case (Local l)
    then show ?thesis by (cases l) (auto simp: tx_op_defs)
  next
    case (Remote m)
    then show ?thesis by (cases "msg_operation m") (auto simp: tx_remote_def tx_op_defs)
  next
    case (Response r n)
    then show ?thesis using apply_status_response_state [of t r n] by auto
  qed
  then show "tx_id (tx_step t e) = tx_id t" "tx_role (tx_step t e) = tx_role t" by simp_all
qed

lemma tx_run_frame [simp]: "tx_id (tx_run t es) = tx_id t" "tx_role (tx_run t es) = tx_role t"
  by (induction es arbitrary: t) (simp_all add: tx_run_def)

lemma tx_run_snoc: "tx_run t (es @ [e]) = tx_step (tx_run t es) e"
  by (simp add: tx_run_def)

subsection \<open>What a run must contain\<close>

definition peer_says :: "bytes \<Rightarrow> operation \<Rightarrow> tx_event" where
  "peer_says i x = Remote \<lparr>msg_transaction = i, msg_operation = x\<rparr>"

text \<open>The commit decision: a local fact on the coordinator, a message on the participant.\<close>

definition decision :: "bytes \<Rightarrow> role \<Rightarrow> tx_event" where
  "decision i r = (case r of Coordinator \<Rightarrow> Local Ev_Commit | Participant \<Rightarrow> peer_says i Op_Commit)"

definition decided :: "phase \<Rightarrow> bool" where
  "decided p \<longleftrightarrow> p = CommitPending \<or> p = Committed \<or> p = Bonded"

lemma flags_from_events:
  "fst (tx_confirmed (tx_step t e)) \<Longrightarrow> fst (tx_confirmed t) \<or> e = Local Ev_Confirm"
  "snd (tx_confirmed (tx_step t e)) \<Longrightarrow> snd (tx_confirmed t) \<or> e = peer_says (tx_id t) Op_Confirm"
  "fst (tx_prepared (tx_step t e)) \<Longrightarrow> fst (tx_prepared t) \<or> e = Local Ev_Prepared"
  "snd (tx_prepared (tx_step t e)) \<Longrightarrow> snd (tx_prepared t) \<or> e = peer_says (tx_id t) Op_Prepared"
proof -
  have reconcile: "tx_confirmed (reconcile_phase l st t) = tx_confirmed t"
      "tx_prepared (reconcile_phase l st t) = tx_prepared t" for l st
    by (cases l; cases st; simp)+
  have "(fst (tx_confirmed (tx_step t e)) \<longrightarrow> fst (tx_confirmed t) \<or> e = Local Ev_Confirm) \<and>
    (snd (tx_confirmed (tx_step t e)) \<longrightarrow> snd (tx_confirmed t) \<or> e = peer_says (tx_id t) Op_Confirm) \<and>
    (fst (tx_prepared (tx_step t e)) \<longrightarrow> fst (tx_prepared t) \<or> e = Local Ev_Prepared) \<and>
    (snd (tx_prepared (tx_step t e)) \<longrightarrow> snd (tx_prepared t) \<or> e = peer_says (tx_id t) Op_Prepared)"
  proof (cases e)
    case (Local l)
    then show ?thesis by (cases l) (auto simp: tx_op_defs)
  next
    case (Remote m)
    then show ?thesis
      by (cases "msg_operation m") (auto simp: tx_remote_def tx_op_defs peer_says_def)
  next
    case (Response r n)
    then show ?thesis using apply_status_response_state [of t r n] reconcile by auto
  qed
  then show
    "fst (tx_confirmed (tx_step t e)) \<Longrightarrow> fst (tx_confirmed t) \<or> e = Local Ev_Confirm"
    "snd (tx_confirmed (tx_step t e)) \<Longrightarrow> snd (tx_confirmed t) \<or> e = peer_says (tx_id t) Op_Confirm"
    "fst (tx_prepared (tx_step t e)) \<Longrightarrow> fst (tx_prepared t) \<or> e = Local Ev_Prepared"
    "snd (tx_prepared (tx_step t e)) \<Longrightarrow> snd (tx_prepared t) \<or> e = peer_says (tx_id t) Op_Prepared"
    by blast+
qed

lemma run_flags:
  fixes i :: bytes and r :: role and es :: "tx_event list"
  defines "t \<equiv> tx_run (tx_new i r) es"
  shows "(fst (tx_confirmed t) \<longrightarrow> Local Ev_Confirm \<in> set es) \<and>
    (snd (tx_confirmed t) \<longrightarrow> peer_says i Op_Confirm \<in> set es) \<and>
    (fst (tx_prepared t) \<longrightarrow> Local Ev_Prepared \<in> set es) \<and>
    (snd (tx_prepared t) \<longrightarrow> peer_says i Op_Prepared \<in> set es)"
  unfolding t_def
proof (induction es rule: rev_induct)
  case Nil
  then show ?case by (simp add: tx_run_def tx_new_def)
next
  case (snoc e es)
  have "tx_id (tx_run (tx_new i r) es) = i" by (simp add: tx_new_def)
  with snoc flags_from_events [of "tx_run (tx_new i r) es" e] show ?case
    unfolding tx_run_snoc by auto
qed

lemma decided_step:
  assumes "decided (tx_phase (tx_step t e))"
  shows "decided (tx_phase t) \<or> (tx_phase t = Prepared \<and> e = decision (tx_id t) (tx_role t))"
proof (cases e)
  case (Local l)
  with assms show ?thesis
    by (cases l; cases "tx_phase t") (auto simp: tx_op_defs decided_def decision_def split: if_splits)
next
  case (Remote m)
  have m: "m = \<lparr>msg_transaction = msg_transaction m, msg_operation = msg_operation m\<rparr>" by simp
  from Remote assms show ?thesis
    by (cases "msg_operation m"; cases "tx_phase t"; cases "tx_role t")
       (auto simp: tx_remote_def tx_op_defs decided_def decision_def peer_says_def
             intro: m split: if_splits)
next
  case (Response r n)
  have "decided (tx_phase (reconcile_phase (tx_status t) st t)) \<Longrightarrow> decided (tx_phase t)" for st
    by (cases "tx_phase t"; cases st) (auto simp: tx_status_def decided_def)
  then show ?thesis using Response assms apply_status_response_state [of t r n] by fastforce
qed

lemma decided_run:
  "decided (tx_phase (tx_run (tx_new i r) es)) \<Longrightarrow>
   \<exists>es1 es2. es = es1 @ decision i r # es2 \<and> tx_phase (tx_run (tx_new i r) es1) = Prepared"
proof (induction es rule: rev_induct)
  case Nil
  then show ?case by (simp add: tx_run_def tx_new_def decided_def)
next
  case (snoc e es)
  have frame: "tx_id (tx_run (tx_new i r) es) = i" "tx_role (tx_run (tx_new i r) es) = r"
    by (simp_all add: tx_new_def)
  from snoc.prems consider "decided (tx_phase (tx_run (tx_new i r) es))"
    | "tx_phase (tx_run (tx_new i r) es) = Prepared" "e = decision i r"
    using decided_step [of "tx_run (tx_new i r) es" e] frame by (auto simp: tx_run_snoc)
  then show ?case
  proof cases
    case 1
    then obtain es1 es2 where "es = es1 @ decision i r # es2"
      "tx_phase (tx_run (tx_new i r) es1) = Prepared"
      using snoc.IH by blast
    then show ?thesis by (intro exI [of _ es1] exI [of _ "es2 @ [e]"]) simp
  next
    case 2
    then show ?thesis by (intro exI [of _ es] exI [of _ "[]"]) simp
  qed
qed

subsection \<open>Persistence\<close>

definition tx_typed :: "transaction \<Rightarrow> bool" where
  "tx_typed t \<longleftrightarrow> length (tx_id t) = 16"

lemma flag_byte_simps [simp]: "flag_byte b \<le> 1" "flag_byte b \<noteq> 0 \<longleftrightarrow> b"
  by (simp_all add: flag_byte_def)

lemma restore_flags_at:
  "restore_flags bs k = Inr fl \<longleftrightarrow> flags_bytes fl = [bs ! k, bs ! Suc k]"
proof -
  have bit: "b = 1" if "b \<le> 1" "b \<noteq> 0" for b :: byte
    using that by (simp add: word_le_nat_alt word_unat_eq_iff le_Suc_eq)
  show ?thesis
    by (cases fl) (auto simp: restore_flags_def flags_bytes_def flag_byte_def dest: bit)
qed

lemma decode_phase_code [simp]:
  "decode_phase (phase_code p) = (if is_aborted p then Inl Incompatible else Inr p)"
  by (cases p) (simp_all add: decode_phase_def is_aborted_def)

lemma decode_phase_InrD: "decode_phase c = Inr p \<Longrightarrow> phase_code p = c \<and> \<not> is_aborted p"
  by (auto simp: decode_phase_def is_aborted_def split: if_splits)

lemma bslice_pair: "Suc i < length xs \<Longrightarrow> j = i + 2 \<Longrightarrow> bslice i j xs = [xs ! i, xs ! Suc i]"
  using bslice_join [of i "Suc i" j xs] bslice_single [of i xs] bslice_single [of "Suc i" xs] by simp

lemma bslice_three: "2 < length xs \<Longrightarrow> bslice 0 3 xs = [xs ! 0, xs ! 1, xs ! 2]"
  using bslice_join [of 0 2 3 xs] bslice_pair [of 0 xs 2] bslice_single [of 2 xs]
  by (simp add: numeral_3_eq_3 numeral_2_eq_2)

lemma length_tx_serialize: "length (tx_serialize t) = 11 + length (tx_id t)"
  by (simp add: tx_serialize_def flags_bytes_def)

lemma tx_serialize_fields:
  assumes "tx_typed t"
  shows "tx_serialize t ! 0 = TX_VERSION"
    "tx_serialize t ! 1 = (case tx_role t of Coordinator \<Rightarrow> 0 | Participant \<Rightarrow> 1)"
    "tx_serialize t ! 2 = phase_code (tx_phase t)"
    "bslice 3 19 (tx_serialize t) = tx_id t"
    "restore_flags (tx_serialize t) 19 = Inr (tx_capabilities t)"
    "restore_flags (tx_serialize t) 21 = Inr (tx_confirmed t)"
    "restore_flags (tx_serialize t) 23 = Inr (tx_prepared t)"
    "restore_flags (tx_serialize t) 25 = Inr (tx_committed t)"
proof -
  have id: "length (tx_id t) = 16" using assms by (simp add: tx_typed_def)
  then show "bslice 3 19 (tx_serialize t) = tx_id t"
    by (simp add: tx_serialize_def bslice_def numeral_3_eq_3)
  show "tx_serialize t ! 0 = TX_VERSION"
    "tx_serialize t ! 1 = (case tx_role t of Coordinator \<Rightarrow> 0 | Participant \<Rightarrow> 1)"
    "tx_serialize t ! 2 = phase_code (tx_phase t)"
    by (simp_all add: tx_serialize_def)
  show "restore_flags (tx_serialize t) 19 = Inr (tx_capabilities t)"
    "restore_flags (tx_serialize t) 21 = Inr (tx_confirmed t)"
    "restore_flags (tx_serialize t) 23 = Inr (tx_prepared t)"
    "restore_flags (tx_serialize t) 25 = Inr (tx_committed t)"
    unfolding restore_flags_at using id
    by (simp_all add: tx_serialize_def flags_bytes_def nth_append)
qed

lemma tx_restore_serialize:
  assumes "tx_typed t"
  shows "tx_restore (tx_serialize t) =
    (if is_aborted (tx_phase t) then Inl Incompatible
     else result_bind (tx_validate t) (\<lambda>_. Inr t))"
proof -
  note fields = tx_serialize_fields [OF assms, unfolded One_nat_def]
  show ?thesis
    using assms fields
    by (cases t) (simp add: tx_restore_def length_tx_serialize tx_typed_def Let_def split: role.split)
qed

lemma tx_restore_InrD:
  assumes "tx_restore bs = Inr t"
  shows "tx_typed t" and "tx_validate t = Inr ()" and "\<not> is_aborted (tx_phase t)"
    and "bs = tx_serialize t"
proof -
  have len: "length bs = 27" and ver: "bs ! 0 = TX_VERSION"
    using assms by (auto simp: tx_restore_def split: if_splits)
  from assms len ver obtain r p caps conf prep comm where
    r: "bs ! 1 = (case r of Coordinator \<Rightarrow> 0 | Participant \<Rightarrow> 1)" and
    p: "decode_phase (bs ! 2) = Inr p" and
    fl: "restore_flags bs 19 = Inr caps" "restore_flags bs 21 = Inr conf"
        "restore_flags bs 23 = Inr prep" "restore_flags bs 25 = Inr comm" and
    t: "t = \<lparr>tx_id = bslice 3 19 bs, tx_role = r, tx_phase = p, tx_capabilities = caps,
             tx_confirmed = conf, tx_prepared = prep, tx_committed = comm\<rparr>" and
    v: "tx_validate t = Inr ()"
    by (auto simp: tx_restore_def Let_def result_bind_Inr_iff split: if_splits)
  show "tx_typed t" using len t by (simp add: tx_typed_def length_bslice)
  show "tx_validate t = Inr ()" by (rule v)
  show "\<not> is_aborted (tx_phase t)" using decode_phase_InrD [OF p] t by simp
  have "bs = bslice 0 3 bs @ bslice 3 19 bs @ bslice 19 21 bs @ bslice 21 23 bs @ bslice 23 25 bs
      @ bslice 25 27 bs"
    using len by (simp add: bslice_join bslice_full)
  also have "\<dots> = tx_serialize t"
    using fl decode_phase_InrD [OF p] len ver r
    by (simp add: tx_serialize_def t restore_flags_at bslice_pair bslice_three)
  finally show "bs = tx_serialize t" .
qed

subsection \<open>Properties\<close>

text \<open>A run of the protocol with every event in order, for either side.\<close>

definition happy_events :: "bytes \<Rightarrow> role \<Rightarrow> tx_event list" where
  "happy_events i r =
     [Local Ev_Capability, peer_says i Op_Capability, Local Ev_VerifiedExchange,
      Local Ev_Confirm, peer_says i Op_Confirm, Local Ev_Prepared, peer_says i Op_Prepared]
     @ (case r of
          Coordinator \<Rightarrow> [Local Ev_Commit, peer_says i Op_CommitAck]
        | Participant \<Rightarrow> [peer_says i Op_Commit, Local Ev_CommitAck])
     @ [Local Ev_Committed, peer_says i Op_Committed]"

lemma happy_events_bonded: "tx_phase (tx_run (tx_new i r) (happy_events i r)) = Bonded"
  by (cases r)
     (simp_all add: happy_events_def tx_run_def tx_new_def peer_says_def tx_remote_def tx_op_defs)

text \<open>C6: a transaction reaches the commit decision or anything after it only through the decision
  itself (the coordinator's own commit, the peer's Commit message on the participant), taken when
  both sides had already confirmed the pairing and both had already prepared, whatever else was
  received and in whatever order.\<close>

theorem commit_needs_both_confirmations:
  assumes "tx_phase (tx_run (tx_new i r) es) \<in> {CommitPending, Committed, Bonded}"
  shows "\<exists>es1 es2. es = es1 @ decision i r # es2 \<and>
    {Local Ev_Confirm, peer_says i Op_Confirm, Local Ev_Prepared, peer_says i Op_Prepared} \<subseteq> set es1"
proof -
  obtain es1 es2 where es: "es = es1 @ decision i r # es2"
    and ph: "tx_phase (tx_run (tx_new i r) es1) = Prepared"
    using assms decided_run [of i r es] by (auto simp: decided_def)
  have "tx_confirmed (tx_run (tx_new i r) es1) = both" "tx_prepared (tx_run (tx_new i r) es1) = both"
    using tx_run_inv [of i r es1] ph by (simp_all add: tx_inv_def)
  then show ?thesis using es run_flags [where i = i and r = r and es = es1] by auto
qed

theorem commit_needs_both_confirmations_witness:
  "\<exists>es1 es2. happy_events [] Participant = es1 @ decision [] Participant # es2 \<and>
    {Local Ev_Confirm, peer_says [] Op_Confirm, Local Ev_Prepared, peer_says [] Op_Prepared} \<subseteq> set es1"
  by (rule commit_needs_both_confirmations) (simp add: happy_events_bonded)

text \<open>C7: once a side has passed the commit decision, no continuation, abort requests, disconnects and
  contradicting status responses included, ever takes it to Aborted: it stays in CommitPending,
  Committed, Bonded or Uncertain.\<close>

theorem no_rollback_after_commit:
  assumes "post_commit (tx_phase (tx_run (tx_new i r) es))"
  shows "post_commit (tx_phase (tx_run (tx_new i r) (es @ es')))
    \<and> \<not> is_aborted (tx_phase (tx_run (tx_new i r) (es @ es')))"
proof -
  have "post_commit (tx_phase (tx_run (tx_run (tx_new i r) es) es'))"
    using assms commit_kept.run_keeps [of "tx_run (tx_new i r) es" es'] by (simp add: tx_run_def)
  then show ?thesis by (auto simp: tx_run_def post_commit_def is_aborted_def)
qed

theorem no_rollback_after_commit_witness:
  "post_commit (tx_phase (tx_run (tx_new [7] Coordinator)
      (happy_events [7] Coordinator @ [Local (Ev_Abort Op_Cancel), Local Ev_Disconnected])))
   \<and> \<not> is_aborted (tx_phase (tx_run (tx_new [7] Coordinator)
      (happy_events [7] Coordinator @ [Local (Ev_Abort Op_Cancel), Local Ev_Disconnected])))"
  by (rule no_rollback_after_commit) (simp add: happy_events_bonded post_commit_def)

text \<open>C30: \<open>restore\<close> accepts exactly the 27-byte serializations of well-typed transactions that are not
  aborted and pass \<open>validate\<close>; every other byte string, truncated or corrupted, is refused.\<close>

theorem tx_restore_exact:
  "tx_restore bs = Inr t \<longleftrightarrow>
     bs = tx_serialize t \<and> length (tx_id t) = 16 \<and> \<not> is_aborted (tx_phase t) \<and> tx_validate t = Inr ()"
  using tx_restore_InrD [of bs t] tx_restore_serialize [of t] by (auto simp: tx_typed_def)

text \<open>C31: what a crash keeps of a reachable transaction. Its serialization restores to the very same
  transaction, with two exceptions: an aborted one is Incompatible, and one that has announced its
  capability before hearing the peer's is refused by \<open>validate\<close>.\<close>

theorem reachable_restore:
  fixes i :: bytes and r :: role and es :: "tx_event list"
  assumes "length i = 16"
  shows "tx_restore (tx_serialize (tx_run (tx_new i r) es)) =
    (let t = tx_run (tx_new i r) es in
     if is_aborted (tx_phase t) then Inl Incompatible
     else if tx_phase t = Negotiating \<and> tx_capabilities t = (True, False) then Inl InvalidTransition
     else Inr t)"
proof -
  define t where "t = tx_run (tx_new i r) es"
  have "tx_typed t" using assms by (simp add: tx_typed_def t_def tx_new_def)
  moreover have "tx_inv t" unfolding t_def by (rule tx_run_inv)
  then have "tx_validate t = (if tx_phase t = Negotiating \<and> tx_capabilities t = (True, False)
      then Inl InvalidTransition else Inr ())"
    by (cases "tx_phase t"; cases "tx_capabilities t") (auto simp: tx_validate_def tx_inv_def)
  ultimately show ?thesis
    unfolding t_def [symmetric] Let_def by (simp add: tx_restore_serialize)
qed

theorem reachable_restore_witness:
  "tx_restore (tx_serialize (tx_run (tx_new (replicate 16 7) Coordinator) [Local Ev_Capability]))
   = Inl InvalidTransition"
  by (subst reachable_restore) (simp_all add: tx_run_def tx_new_def is_aborted_def set_flag_def)

text \<open>C32: a local event or peer message that is refused leaves the transaction as it was, and a message
  of another transaction or a status response with the wrong nonce is always refused.\<close>

theorem refused_changes_nothing:
  "(\<forall>err. fst (tx_local t e) = Inl err \<longrightarrow> snd (tx_local t e) = t) \<and>
   (\<forall>err. fst (tx_remote t m) = Inl err \<longrightarrow> snd (tx_remote t m) = t) \<and>
   (msg_transaction m \<noteq> tx_id t \<longrightarrow> tx_remote t m = (Inl WrongTransaction, t)) \<and>
   (sm_transaction s \<noteq> tx_id t \<or> sm_nonce s \<noteq> n \<longrightarrow>
      apply_status_response t s n = (Inl WrongTransaction, t))"
proof (intro conjI)
  show "\<forall>err. fst (tx_local t e) = Inl err \<longrightarrow> snd (tx_local t e) = t"
    by (cases e) (auto simp: tx_op_defs)
  show "\<forall>err. fst (tx_remote t m) = Inl err \<longrightarrow> snd (tx_remote t m) = t"
    by (cases "msg_operation m") (auto simp: tx_remote_def tx_op_defs)
qed (auto simp: tx_remote_def apply_status_response_def)

theorem refused_changes_nothing_witness:
  "tx_remote (tx_new [1] Participant) \<lparr>msg_transaction = [2], msg_operation = Op_Commit\<rparr>
     = (Inl WrongTransaction, tx_new [1] Participant)"
  using refused_changes_nothing [of "tx_new [1] Participant" Ev_Commit
      "\<lparr>msg_transaction = [2], msg_operation = Op_Commit\<rparr>"]
  by (simp add: tx_new_def)

text \<open>C33: \<open>Message::decode\<close> and \<open>StatusMessage::decode\<close> accept exactly the encodings of well-typed
  messages, so the two codecs are inverse to each other on all byte strings.\<close>

theorem pairing_messages_exact:
  "(message_decode bs = Inr m \<longleftrightarrow> message_typed m \<and> bs = message_encode m) \<and>
   (status_decode bs = Inr s \<longleftrightarrow> status_typed s \<and> bs = status_encode s)"
  using message_decode_InrD message_decode_encode status_decode_InrD status_decode_encode by blast

end
