(* ===== verification/Pair_Agreement.thy ===== *)
theory Pair_Agreement
  imports Pair_Transaction
begin

text \<open>
  The two ends of one pairing, each a \<open>Transaction\<close> of \<open>pair_transaction.rs\<close>, over the channel
  they share: the desktop is the coordinator (\<open>drive_pair_transaction\<close>), the phone the
  participant. A message that was sent once may be delivered any number of times, in any order,
  or never. A side may send every operation at any time, aborts included, except for the two that
  carry the decision: the desktop publishes Commit after its local commit, and the phone answers
  CommitAck after its local acknowledgement. Status answers report the phase their sender is in.
\<close>

record pair_sys =
  ps_host :: transaction
  ps_phone :: transaction
  ps_to_phone :: "operation list"
  ps_to_host :: "operation list"
  ps_host_says :: "status_state list"
  ps_phone_says :: "status_state list"

definition pair_start :: "bytes \<Rightarrow> pair_sys" where
  "pair_start i = \<lparr>ps_host = tx_new i Coordinator, ps_phone = tx_new i Participant,
     ps_to_phone = [], ps_to_host = [], ps_host_says = [], ps_phone_says = []\<rparr>"

datatype pair_act =
    Host_Local local_event
  | Phone_Local local_event
  | Host_Send operation
  | Phone_Send operation
  | To_Host operation
  | To_Phone operation
  | Host_Answers
  | Phone_Answers
  | Answer_To_Host status_state u64
  | Answer_To_Phone status_state u64

definition host_may_send :: "transaction \<Rightarrow> operation \<Rightarrow> bool" where
  "host_may_send t x \<longleftrightarrow> (x = Op_Commit \<longrightarrow> tx_phase t = CommitPending)"

definition phone_may_send :: "transaction \<Rightarrow> operation \<Rightarrow> bool" where
  "phone_may_send t x \<longleftrightarrow> (x = Op_CommitAck \<longrightarrow> tx_phase t = Committed)"

abbreviation deliver :: "transaction \<Rightarrow> operation \<Rightarrow> transaction" where
  "deliver t x \<equiv> tx_step t (peer_says (tx_id t) x)"

abbreviation answer :: "transaction \<Rightarrow> status_state \<Rightarrow> u64 \<Rightarrow> transaction" where
  "answer t st n \<equiv> tx_step t (Response (status_response (tx_id t) n st) n)"

primrec pair_do :: "pair_sys \<Rightarrow> pair_act \<Rightarrow> pair_sys" where
  "pair_do s (Host_Local e) = s\<lparr>ps_host := tx_step (ps_host s) (Local e)\<rparr>"
| "pair_do s (Phone_Local e) = s\<lparr>ps_phone := tx_step (ps_phone s) (Local e)\<rparr>"
| "pair_do s (Host_Send x) =
     (if host_may_send (ps_host s) x then s\<lparr>ps_to_phone := x # ps_to_phone s\<rparr> else s)"
| "pair_do s (Phone_Send x) =
     (if phone_may_send (ps_phone s) x then s\<lparr>ps_to_host := x # ps_to_host s\<rparr> else s)"
| "pair_do s (To_Host x) =
     (if x \<in> set (ps_to_host s) then s\<lparr>ps_host := deliver (ps_host s) x\<rparr> else s)"
| "pair_do s (To_Phone x) =
     (if x \<in> set (ps_to_phone s) then s\<lparr>ps_phone := deliver (ps_phone s) x\<rparr> else s)"
| "pair_do s Host_Answers = s\<lparr>ps_host_says := tx_status (ps_host s) # ps_host_says s\<rparr>"
| "pair_do s Phone_Answers = s\<lparr>ps_phone_says := tx_status (ps_phone s) # ps_phone_says s\<rparr>"
| "pair_do s (Answer_To_Host st n) =
     (if st \<in> set (ps_phone_says s) then s\<lparr>ps_host := answer (ps_host s) st n\<rparr> else s)"
| "pair_do s (Answer_To_Phone st n) =
     (if st \<in> set (ps_host_says s) then s\<lparr>ps_phone := answer (ps_phone s) st n\<rparr> else s)"

definition pair_run :: "bytes \<Rightarrow> pair_act list \<Rightarrow> pair_sys" where
  "pair_run i as = foldl pair_do (pair_start i) as"

subsection \<open>Agreement\<close>

definition settled :: "phase \<Rightarrow> bool" where
  "settled p \<longleftrightarrow> p = Committed \<or> p = Bonded"

definition agreement_inv :: "pair_sys \<Rightarrow> bool" where
  "agreement_inv s \<longleftrightarrow>
     tx_role (ps_host s) = Coordinator \<and> tx_role (ps_phone s) = Participant \<and>
     (Op_Commit \<in> set (ps_to_phone s) \<longrightarrow> post_commit (tx_phase (ps_host s))) \<and>
     (Op_CommitAck \<in> set (ps_to_host s) \<longrightarrow> post_commit (tx_phase (ps_phone s))) \<and>
     ({St_Committed, St_Bonded} \<inter> set (ps_phone_says s) \<noteq> {} \<longrightarrow> post_commit (tx_phase (ps_phone s))) \<and>
     (settled (tx_phase (ps_host s)) \<longrightarrow> post_commit (tx_phase (ps_phone s))) \<and>
     (decided (tx_phase (ps_phone s)) \<longrightarrow> post_commit (tx_phase (ps_host s)))"

text \<open>What makes one side settle: the peer's acknowledgement, or a status that says so.\<close>

lemma settled_cause:
  assumes "settled (tx_phase (tx_step t e))" and "tx_role t = Coordinator"
  shows "settled (tx_phase t) \<or> e = peer_says (tx_id t) Op_CommitAck \<or>
    (\<exists>r n. e = Response r n \<and> sm_state r \<in> {Some St_Committed, Some St_Bonded})"
proof (cases e)
  case (Local l)
  with assms show ?thesis
    by (cases l; cases "tx_phase t") (auto simp: tx_op_defs settled_def split: if_splits)
next
  case (Remote m)
  have m: "m = \<lparr>msg_transaction = msg_transaction m, msg_operation = msg_operation m\<rparr>" by simp
  from Remote assms show ?thesis
    by (cases "msg_operation m"; cases "tx_phase t")
       (auto simp: tx_remote_def tx_op_defs settled_def peer_says_def intro: m split: if_splits)
next
  case (Response r n)
  have "settled (tx_phase (reconcile_phase (tx_status t) st t)) \<Longrightarrow>
      settled (tx_phase t) \<or> st = St_Committed \<or> st = St_Bonded" for st
    by (cases "tx_phase t"; cases st) (auto simp: tx_status_def settled_def)
  then show ?thesis
    using Response assms(1) apply_status_response_state [of t r n] by fastforce
qed

lemma agreement_start: "agreement_inv (pair_start i)"
  by (simp add: agreement_inv_def pair_start_def tx_new_def settled_def decided_def)

lemma settled_status: "tx_status t = St_Committed \<or> tx_status t = St_Bonded \<Longrightarrow> post_commit (tx_phase t)"
  by (cases "tx_phase t") (simp_all add: tx_status_def post_commit_def)

lemma settled_decided: "settled p \<Longrightarrow> decided p" "decided p \<Longrightarrow> post_commit p"
  by (auto simp: settled_def decided_def post_commit_def)

lemma host_step_agrees:
  assumes I: "agreement_inv s"
    and cause: "e = peer_says (tx_id (ps_host s)) Op_CommitAck \<Longrightarrow> post_commit (tx_phase (ps_phone s))"
      "\<And>r n. e = Response r n \<Longrightarrow> sm_state r \<in> {Some St_Committed, Some St_Bonded} \<Longrightarrow>
        post_commit (tx_phase (ps_phone s))"
  shows "agreement_inv (s\<lparr>ps_host := tx_step (ps_host s) e\<rparr>)"
  using I settled_cause [of "ps_host s" e] cause
  unfolding agreement_inv_def by (auto intro: tx_step_post_commit)

lemma phone_step_agrees:
  assumes I: "agreement_inv s"
    and cause: "e = peer_says (tx_id (ps_phone s)) Op_Commit \<Longrightarrow> post_commit (tx_phase (ps_host s))"
  shows "agreement_inv (s\<lparr>ps_phone := tx_step (ps_phone s) e\<rparr>)"
  using I decided_step [of "ps_phone s" e] cause
  unfolding agreement_inv_def by (auto intro: tx_step_post_commit simp: decision_def)

lemma agreement_invD:
  assumes "agreement_inv s"
  shows "Op_Commit \<in> set (ps_to_phone s) \<Longrightarrow> post_commit (tx_phase (ps_host s))"
    and "Op_CommitAck \<in> set (ps_to_host s) \<Longrightarrow> post_commit (tx_phase (ps_phone s))"
    and "St_Committed \<in> set (ps_phone_says s) \<Longrightarrow> post_commit (tx_phase (ps_phone s))"
    and "St_Bonded \<in> set (ps_phone_says s) \<Longrightarrow> post_commit (tx_phase (ps_phone s))"
  using assms unfolding agreement_inv_def by blast+

lemma pair_do_agrees:
  assumes I: "agreement_inv s"
  shows "agreement_inv (pair_do s a)"
proof (cases a)
  case (Host_Send x)
  with I show ?thesis by (auto simp: agreement_inv_def host_may_send_def post_commit_def)
next
  case (Phone_Send x)
  with I show ?thesis by (auto simp: agreement_inv_def phone_may_send_def post_commit_def)
next
  case Phone_Answers
  with I show ?thesis using settled_status [of "ps_phone s"] by (auto simp: agreement_inv_def)
next
  case Host_Answers
  with I show ?thesis by (simp add: agreement_inv_def)
next
  case (Host_Local e)
  then show ?thesis using host_step_agrees [OF I, of "Local e"] by (simp add: peer_says_def)
next
  case (Phone_Local e)
  then show ?thesis using phone_step_agrees [OF I, of "Local e"] by (simp add: peer_says_def)
next
  case (To_Host x)
  then show ?thesis
    using I host_step_agrees [OF I, of "peer_says (tx_id (ps_host s)) x"] agreement_invD(2) [OF I]
    by (auto simp: peer_says_def)
next
  case (To_Phone x)
  then show ?thesis
    using I phone_step_agrees [OF I, of "peer_says (tx_id (ps_phone s)) x"] agreement_invD(1) [OF I]
    by (auto simp: peer_says_def)
next
  case (Answer_To_Host st n)
  then show ?thesis
    using I host_step_agrees [OF I, of "Response (status_response (tx_id (ps_host s)) n st) n"]
      agreement_invD(3,4) [OF I]
    by (auto simp: peer_says_def status_response_def)
next
  case (Answer_To_Phone st n)
  then show ?thesis
    using I phone_step_agrees [OF I, of "Response (status_response (tx_id (ps_phone s)) n st) n"]
    by (simp add: peer_says_def)
qed

interpretation agreement_kept: preserved pair_do agreement_inv
  by unfold_locales (rule pair_do_agrees)

lemma pair_run_agrees: "agreement_inv (pair_run i as)"
  unfolding pair_run_def by (rule agreement_kept.run_keeps [OF agreement_start])

text \<open>C5: the two ends never disagree about a finished pairing. However messages and status answers
  are lost, repeated, delayed or reordered, and whatever each side aborts or disconnects, if one
  side is Committed or Bonded then the other is past the commit decision and not Aborted.\<close>

theorem pair_agreement:
  assumes "tx_phase (ps_host (pair_run i as)) \<in> {Committed, Bonded} \<or>
    tx_phase (ps_phone (pair_run i as)) \<in> {Committed, Bonded}"
  shows "post_commit (tx_phase (ps_host (pair_run i as))) \<and> post_commit (tx_phase (ps_phone (pair_run i as)))
    \<and> \<not> is_aborted (tx_phase (ps_host (pair_run i as))) \<and> \<not> is_aborted (tx_phase (ps_phone (pair_run i as)))"
proof -
  let ?h = "tx_phase (ps_host (pair_run i as))" and ?p = "tx_phase (ps_phone (pair_run i as))"
  have "settled ?h \<or> settled ?p" using assms by (auto simp: settled_def)
  then have "post_commit ?h \<and> post_commit ?p"
    using pair_run_agrees [of i as] settled_decided unfolding agreement_inv_def by blast
  then show ?thesis by (auto simp: post_commit_def is_aborted_def)
qed

text \<open>The exchange as the two programs perform it when nothing goes wrong.\<close>

definition honest_exchange :: "pair_act list" where
  "honest_exchange =
     [Host_Send Op_Capability, To_Phone Op_Capability, Phone_Local Ev_Capability,
      Phone_Local Ev_VerifiedExchange, Phone_Send Op_Capability, To_Host Op_Capability,
      Host_Local Ev_Capability, Host_Local Ev_VerifiedExchange,
      Host_Local Ev_Confirm, Host_Send Op_Confirm, To_Phone Op_Confirm,
      Phone_Local Ev_Confirm, Phone_Send Op_Confirm, To_Host Op_Confirm,
      Host_Local Ev_Prepared, Phone_Local Ev_Prepared, Phone_Send Op_Prepared, To_Host Op_Prepared,
      Host_Send Op_Prepared, To_Phone Op_Prepared,
      Host_Local Ev_Commit, Host_Send Op_Commit, To_Phone Op_Commit,
      Phone_Local Ev_CommitAck, Phone_Send Op_CommitAck, To_Host Op_CommitAck,
      Host_Send Op_Committed, To_Phone Op_Committed, Phone_Local Ev_Committed,
      Phone_Send Op_Committed, To_Host Op_Committed, Host_Local Ev_Committed]"

lemma honest_exchange_bonds:
  "tx_phase (ps_host (pair_run i honest_exchange)) = Bonded"
  "tx_phase (ps_phone (pair_run i honest_exchange)) = Bonded"
  by (simp_all add: honest_exchange_def pair_run_def pair_start_def tx_new_def peer_says_def
      tx_remote_def tx_op_defs host_may_send_def phone_may_send_def)

theorem pair_agreement_witness:
  "post_commit (tx_phase (ps_host (pair_run [3] honest_exchange)))
    \<and> post_commit (tx_phase (ps_phone (pair_run [3] honest_exchange)))
    \<and> \<not> is_aborted (tx_phase (ps_host (pair_run [3] honest_exchange)))
    \<and> \<not> is_aborted (tx_phase (ps_phone (pair_run [3] honest_exchange)))"
  by (rule pair_agreement) (simp add: honest_exchange_bonds)

definition twice_delivered :: "pair_act list \<Rightarrow> pair_act list" where
  "twice_delivered as =
     concat (map (\<lambda>a. case a of To_Host x \<Rightarrow> [a, a] | To_Phone x \<Rightarrow> [a, a] | _ \<Rightarrow> [a]) as)"


end
