(* ===== verification/Crypto.thy ===== *)
theory Crypto
  imports Rust_Std
begin

section \<open>Cryptographic primitives as parameters\<close>

text \<open>
  BLAKE3, Ed25519, HKDF-SHA256 and the constant-time comparison come from third-party crates
  (\<open>blake3\<close>, \<open>ed25519-dalek\<close>, \<open>hkdf\<close>, \<open>subtle\<close>). The development never defines them: every
  definition that calls one takes a value of type \<^theory_text>\<open>crypto\<close> and applies the
  field. What the program relies on is the documented behaviour collected in
  \<open>crypto_laws\<close>; it says nothing about the absence of collisions or forgeries.
\<close>

record crypto =
  blake3_keyed_hash :: "bytes \<Rightarrow> bytes \<Rightarrow> bytes"
  blake3_hash :: "bytes \<Rightarrow> bytes"
  ct_eq :: "bytes \<Rightarrow> bytes \<Rightarrow> bool"
  ed_public :: "bytes \<Rightarrow> bytes"
  ed_sign :: "bytes \<Rightarrow> bytes \<Rightarrow> bytes"
  ed_verifying_key_ok :: "bytes \<Rightarrow> bool"
  ed_signature_ok :: "bytes \<Rightarrow> bool"
  ed_verify_strict :: "bytes \<Rightarrow> bytes \<Rightarrow> bytes \<Rightarrow> bool"
  hkdf_sha256 :: "bytes \<Rightarrow> bytes \<Rightarrow> nat \<Rightarrow> bytes option"

text \<open>The documented contracts: digest widths, equality of equal-length buffers, the width
  of a signature, that an honest signature verifies under the matching key, and that an
  HKDF expansion that succeeds fills the requested buffer.\<close>

definition crypto_laws :: "crypto \<Rightarrow> bool" where
  "crypto_laws cr \<longleftrightarrow>
     (\<forall>k m. length (blake3_keyed_hash cr k m) = 32) \<and>
     (\<forall>m. length (blake3_hash cr m) = 32) \<and>
     (\<forall>a b. length a = length b \<longrightarrow> ct_eq cr a b = (a = b)) \<and>
     (\<forall>sk m. length (ed_sign cr sk m) = 64) \<and>
     (\<forall>sk. length (ed_public cr sk) = 32) \<and>
     (\<forall>sk. ed_verifying_key_ok cr (ed_public cr sk)) \<and>
     (\<forall>sk m. ed_signature_ok cr (ed_sign cr sk m)) \<and>
     (\<forall>sk m. ed_verify_strict cr (ed_public cr sk) m (ed_sign cr sk m)) \<and>
     (\<forall>ikm info n out. hkdf_sha256 cr ikm info n = Some out \<longrightarrow> length out = n)"

lemma crypto_lawsD:
  assumes "crypto_laws cr"
  shows "length (blake3_keyed_hash cr k m) = 32"
    and "length (blake3_hash cr m) = 32"
    and "length a = length b \<Longrightarrow> ct_eq cr a b = (a = b)"
    and "length (ed_sign cr sk m) = 64"
    and "length (ed_public cr sk) = 32"
    and "ed_verifying_key_ok cr (ed_public cr sk)"
    and "ed_signature_ok cr (ed_sign cr sk m)"
    and "ed_verify_strict cr (ed_public cr sk) m (ed_sign cr sk m)"
    and "hkdf_sha256 cr ikm info n = Some out \<Longrightarrow> length out = n"
  using assms unfolding crypto_laws_def by blast+

text \<open>A concrete instance of the parameters, on which the laws can be evaluated: it pads or
  truncates its input to the width of the output and accepts exactly its own signatures.
  It only shows that the laws can hold together.\<close>

definition fit :: "nat \<Rightarrow> bytes \<Rightarrow> bytes" where
  "fit n bs = take n (bs @ replicate n 0)"

definition padding_crypto :: crypto where
  "padding_crypto =
     \<lparr>blake3_keyed_hash = (\<lambda>k m. fit 32 (take 8 k @ m)),
      blake3_hash = fit 32,
      ct_eq = (\<lambda>a b. a = b),
      ed_public = fit 32,
      ed_sign = (\<lambda>sk m. fit 32 sk @ fit 32 m),
      ed_verifying_key_ok = (\<lambda>pk. length pk = 32),
      ed_signature_ok = (\<lambda>s. length s = 64),
      ed_verify_strict = (\<lambda>pk m s. s = pk @ fit 32 m),
      hkdf_sha256 = (\<lambda>ikm info n. Some (fit n (drop 28 ikm)))\<rparr>"

lemma length_fit [simp]: "length (fit n bs) = n"
  by (simp add: fit_def)

lemma padding_crypto_laws: "crypto_laws padding_crypto"
  by (simp add: crypto_laws_def padding_crypto_def)

end
