(* ===== verification/Frame.thy ===== *)
theory Frame
  imports Crypto
begin

section \<open>The v1 unlock frame: \<open>frame.rs\<close>, \<open>mac.rs\<close> and \<open>sign.rs\<close> of syauth-core\<close>

text \<open>
  The frame that carries an unlock challenge: its layout, the encoder and the strict decoder,
  the MAC over everything but the trailing tag, and the signature over the same bytes.
\<close>

subsection \<open>Layout constants\<close>

definition SYAUTH_WIRE_VERSION_V1 :: byte where [wire_consts]: "SYAUTH_WIRE_VERSION_V1 = 1"
definition VERSION_LEN :: nat where [wire_consts]: "VERSION_LEN = 1"
definition NONCE_LEN :: nat where [wire_consts]: "NONCE_LEN = 16"
definition TAG_LEN :: nat where [wire_consts]: "TAG_LEN = 16"
definition VERSION_OFFSET :: nat where [wire_consts]: "VERSION_OFFSET = 0"
definition NONCE_OFFSET :: nat where [wire_consts]: "NONCE_OFFSET = VERSION_OFFSET + VERSION_LEN"
definition PAYLOAD_OFFSET :: nat where [wire_consts]: "PAYLOAD_OFFSET = NONCE_OFFSET + NONCE_LEN"
definition HEADER_LEN :: nat where [wire_consts]: "HEADER_LEN = VERSION_LEN + NONCE_LEN"
definition MIN_FRAME_LEN :: nat where [wire_consts]: "MIN_FRAME_LEN = HEADER_LEN + TAG_LEN"
definition MAX_PAYLOAD_LEN :: nat where [wire_consts]: "MAX_PAYLOAD_LEN = 4096"
definition MAX_FRAME_LEN :: nat where [wire_consts]: "MAX_FRAME_LEN = MIN_FRAME_LEN + MAX_PAYLOAD_LEN"
definition SIGNATURE_LEN :: nat where [wire_consts]: "SIGNATURE_LEN = 64"
definition BOND_KEY_BYTES :: nat where [wire_consts]: "BOND_KEY_BYTES = 32"

subsection \<open>Frames\<close>

record frame =
  fr_version :: byte
  fr_nonce :: bytes
  fr_payload :: bytes
  fr_tag :: bytes

datatype frame_error =
    TooShort nat nat
  | BadVersion byte
  | BadLength

text \<open>The array types \<open>[u8; NONCE_LEN]\<close> and \<open>[u8; TAG_LEN]\<close>.\<close>

definition frame_typed :: "frame \<Rightarrow> bool" where
  "frame_typed f \<longleftrightarrow> length (fr_nonce f) = NONCE_LEN \<and> length (fr_tag f) = TAG_LEN"

text \<open>\<open>encode\<close> appends to the caller's buffer; the model returns the result and the buffer.\<close>

definition frame_encode :: "frame \<Rightarrow> bytes \<Rightarrow> (frame_error, unit) result \<times> bytes" where
  "frame_encode f buf =
     (if MAX_PAYLOAD_LEN < length (fr_payload f) then (Inl BadLength, buf)
      else (Inr (), buf @ [fr_version f] @ fr_nonce f @ fr_payload f @ fr_tag f))"

definition frame_body_bytes :: "frame \<Rightarrow> (frame_error, bytes) result" where
  "frame_body_bytes f =
     (if MAX_PAYLOAD_LEN < length (fr_payload f) then Inl BadLength
      else Inr ([fr_version f] @ fr_nonce f @ fr_payload f))"

definition frame_decode :: "bytes \<Rightarrow> (frame_error, frame) result" where
  "frame_decode input =
     (if length input < MIN_FRAME_LEN then Inl (TooShort MIN_FRAME_LEN (length input))
      else
        let version = input ! VERSION_OFFSET in
        if version \<noteq> SYAUTH_WIRE_VERSION_V1 then Inl (BadVersion version)
        else
          let payload_len = length input - MIN_FRAME_LEN in
          if MAX_PAYLOAD_LEN < payload_len then Inl BadLength
          else
            let payload_end = PAYLOAD_OFFSET + payload_len in
            Inr \<lparr>fr_version = version,
                 fr_nonce = bslice NONCE_OFFSET (NONCE_OFFSET + NONCE_LEN) input,
                 fr_payload = bslice PAYLOAD_OFFSET payload_end input,
                 fr_tag = bslice payload_end (payload_end + TAG_LEN) input\<rparr>)"

subsection \<open>The MAC and the signature over the body\<close>

definition compute_tag :: "crypto \<Rightarrow> bytes \<Rightarrow> bytes \<Rightarrow> bytes" where
  "compute_tag cr bond_key frame_body = take TAG_LEN (blake3_keyed_hash cr bond_key frame_body)"

definition verify_tag :: "crypto \<Rightarrow> bytes \<Rightarrow> bytes \<Rightarrow> bytes \<Rightarrow> bool" where
  "verify_tag cr bond_key frame_body tag = ct_eq cr (compute_tag cr bond_key frame_body) tag"

datatype verify_error =
    SignatureError
  | BadEncoding frame_error

definition sign_frame :: "crypto \<Rightarrow> bytes \<Rightarrow> frame \<Rightarrow> (frame_error, bytes) result" where
  "sign_frame cr privkey f =
     result_bind (frame_body_bytes f) (\<lambda>body. Inr (ed_sign cr privkey body))"

definition verify_frame :: "crypto \<Rightarrow> bytes \<Rightarrow> frame \<Rightarrow> bytes \<Rightarrow> (verify_error, unit) result" where
  "verify_frame cr pubkey f sig =
     result_bind (result_map_err BadEncoding (frame_body_bytes f))
       (\<lambda>body. if ed_verify_strict cr pubkey body sig then Inr () else Inl SignatureError)"

subsection \<open>The codec\<close>

text \<open>The frames the decoder can produce, and the encoder as a function to bytes.\<close>

definition frame_v1 :: "frame \<Rightarrow> bool" where
  "frame_v1 f \<longleftrightarrow> frame_typed f \<and> fr_version f = SYAUTH_WIRE_VERSION_V1"

definition frame_enc :: "frame \<Rightarrow> bytes option" where
  "frame_enc f = (case frame_encode f [] of (r, bs) \<Rightarrow> if is_ok r then Some bs else None)"

lemma frame_enc_eq:
  "frame_enc f =
     (if length (fr_payload f) \<le> MAX_PAYLOAD_LEN
      then Some ([fr_version f] @ fr_nonce f @ fr_payload f @ fr_tag f) else None)"
  by (simp add: frame_enc_def frame_encode_def)

lemma frame_decode_layout:
  assumes "length nonce = 16" "length tag = 16" "length payload \<le> 4096"
  shows "frame_decode ([1] @ nonce @ payload @ tag) =
    Inr \<lparr>fr_version = 1, fr_nonce = nonce, fr_payload = payload, fr_tag = tag\<rparr>"
proof -
  let ?bs = "[1] @ nonce @ payload @ tag"
  have "bslice 1 17 ?bs = nonce"
    using bslice_mid [of "[1]" 1 nonce 17] assms by simp
  moreover have "bslice 17 (17 + length payload) ?bs = payload"
    using bslice_mid [of "[1] @ nonce" 17 payload "17 + length payload" tag] assms by simp
  moreover have "bslice (17 + length payload) (33 + length payload) ?bs = tag"
    using bslice_mid [of "[1] @ nonce @ payload" "17 + length payload" tag _ "[]"] assms by simp
  ultimately show ?thesis
    using assms by (simp add: frame_decode_def wire_consts)
qed

lemma frame_decode_split:
  assumes "frame_decode bs = Inr f"
  shows "bs = [fr_version f] @ fr_nonce f @ fr_payload f @ fr_tag f"
    and "length (fr_nonce f) = 16" and "length (fr_tag f) = 16"
    and "length (fr_payload f) \<le> 4096" and "fr_version f = 1"
proof -
  from assms have len: "33 \<le> length bs" "length bs - 33 \<le> 4096" and v: "bs ! 0 = 1"
    and f: "f = \<lparr>fr_version = bs ! 0, fr_nonce = bslice 1 17 bs,
        fr_payload = bslice 17 (17 + (length bs - 33)) bs,
        fr_tag = bslice (17 + (length bs - 33)) (17 + (length bs - 33) + 16) bs\<rparr>"
    by (auto simp: frame_decode_def wire_consts Let_def split: if_splits)
  have "bs = bslice 0 1 bs @ bslice 1 17 bs @ bslice 17 (17 + (length bs - 33)) bs
      @ bslice (17 + (length bs - 33)) (length bs) bs"
    using len by (simp add: bslice_join)
  moreover have "17 + (length bs - 33) + 16 = length bs"
    using len by simp
  moreover have "bslice 0 1 bs = [bs ! 0]"
    using len bslice_single [of 0 bs] by (cases bs) simp_all
  ultimately show "bs = [fr_version f] @ fr_nonce f @ fr_payload f @ fr_tag f"
    using f by simp
  show "length (fr_nonce f) = 16" "length (fr_tag f) = 16" "length (fr_payload f) \<le> 4096"
    "fr_version f = 1"
    using len f v by (simp_all add: length_bslice)
qed

interpretation frame_codec: codec frame_v1 frame_enc "\<lambda>bs. result_ok (frame_decode bs)"
proof unfold_locales
  fix f bs
  assume "frame_v1 f" "frame_enc f = Some bs"
  then have "frame_decode bs = Inr f"
    using frame_decode_layout [of "fr_nonce f" "fr_tag f" "fr_payload f"]
    by (auto simp: frame_v1_def frame_typed_def frame_enc_eq wire_consts split: if_splits)
  then show "result_ok (frame_decode bs) = Some f" by simp
next
  fix bs f
  assume "result_ok (frame_decode bs) = Some f"
  then show "frame_v1 f \<and> frame_enc f = Some bs"
    using frame_decode_split [of bs f]
    by (simp add: frame_v1_def frame_typed_def frame_enc_eq wire_consts)
qed

lemma frame_body_of_decoded:
  assumes "frame_decode bs = Inr f"
  shows "frame_body_bytes f = Inr (take (length bs - TAG_LEN) bs)"
proof -
  note s = frame_decode_split [OF assms]
  have "take (length bs - 16) bs = [fr_version f] @ fr_nonce f @ fr_payload f"
    by (subst (2) s(1), subst s(1)) (simp add: s(2,3) drop_Cons' take_Cons')
  with s(4) show ?thesis
    by (simp add: frame_body_bytes_def wire_consts)
qed

subsection \<open>Properties\<close>

text \<open>
  C28. The decoder accepts exactly the canonical encodings of the version-1 frames whose payload
  fits: \<open>Frame::decode(bs)\<close> returns \<open>f\<close> if and only if \<open>f\<close> has version 1 and \<open>Frame::encode\<close>
  of \<open>f\<close> into an empty buffer succeeds with exactly the bytes \<open>bs\<close>. So encode and decode are
  inverse, no two byte strings decode to one frame, and no input outside the image of the
  encoder is accepted.
\<close>

theorem frame_decode_exact:
  "frame_decode bs = Inr f \<longleftrightarrow>
     frame_typed f \<and> fr_version f = SYAUTH_WIRE_VERSION_V1 \<and> frame_encode f [] = (Inr (), bs)"
proof -
  have "frame_enc f = Some bs \<longleftrightarrow> frame_encode f [] = (Inr (), bs)"
    unfolding frame_enc_eq frame_encode_def
    by (cases "length (fr_payload f) \<le> MAX_PAYLOAD_LEN") simp_all
  then show ?thesis
    using frame_codec.dec_iff [of bs f] by (simp add: frame_v1_def)
qed

text \<open>
  C29. What the MAC authenticates is every received byte but the tag itself. If the wire bytes
  \<open>bs\<close> decode to \<open>f\<close> and the tag of \<open>f\<close> verifies over the body the receiver recomputes, then
  the last \<open>TAG_LEN\<close> bytes of \<open>bs\<close> are the truncated keyed hash of all the bytes before them.
\<close>

theorem frame_tag_covers_wire:
  assumes "crypto_laws cr"
    and "frame_decode bs = Inr f"
    and "frame_body_bytes f = Inr body"
    and "verify_tag cr key body (fr_tag f)"
  shows "drop (length bs - TAG_LEN) bs
     = take TAG_LEN (blake3_keyed_hash cr key (take (length bs - TAG_LEN) bs))"
proof -
  note s = frame_decode_split [OF assms(2)]
  have body: "body = take (length bs - TAG_LEN) bs"
    using frame_body_of_decoded [OF assms(2)] assms(3) by simp
  have "length (compute_tag cr key body) = length (fr_tag f)"
    using assms(1) s(3) by (simp add: compute_tag_def wire_consts crypto_lawsD)
  with assms(1,4) have "fr_tag f = compute_tag cr key body"
    by (simp add: verify_tag_def crypto_lawsD)
  moreover have "drop (length bs - 16) bs = fr_tag f"
    by (subst (2) s(1), subst s(1)) (simp add: s(2,3) drop_Cons' take_Cons')
  ultimately show ?thesis
    by (simp add: compute_tag_def wire_consts body)
qed

lemma frame_tag_covers_wire_witness:
  "drop (length ([1] @ replicate 16 7 @ [9] @ take 16 (fit 32 (take 8 [3] @ [1] @ replicate 16 7 @ [9]))) - TAG_LEN)
      ([1] @ replicate 16 7 @ [9] @ take 16 (fit 32 (take 8 [3] @ [1] @ replicate 16 7 @ [9])))
   = take TAG_LEN (blake3_keyed_hash padding_crypto [3]
       (take (length ([1] @ replicate 16 7 @ [9] @ take 16 (fit 32 (take 8 [3] @ [1] @ replicate 16 7 @ [9]))) - TAG_LEN)
         ([1] @ replicate 16 7 @ [9] @ take 16 (fit 32 (take 8 [3] @ [1] @ replicate 16 7 @ [9])))))"
proof (rule frame_tag_covers_wire [OF padding_crypto_laws, where body = "[1] @ replicate 16 7 @ [9]"
      and f = "\<lparr>fr_version = 1, fr_nonce = replicate 16 7, fr_payload = [9],
        fr_tag = take 16 (fit 32 (take 8 [3] @ [1] @ replicate 16 7 @ [9]))\<rparr>"])
  show "frame_decode ([1] @ replicate 16 7 @ [9] @ take 16 (fit 32 (take 8 [3] @ [1] @ replicate 16 7 @ [9]))) =
    Inr \<lparr>fr_version = 1, fr_nonce = replicate 16 7, fr_payload = [9],
        fr_tag = take 16 (fit 32 (take 8 [3] @ [1] @ replicate 16 7 @ [9]))\<rparr>"
    by (rule frame_decode_layout) simp_all
  show "frame_body_bytes \<lparr>fr_version = 1, fr_nonce = replicate 16 7, fr_payload = [9],
        fr_tag = take 16 (fit 32 (take 8 [3] @ [1] @ replicate 16 7 @ [9]))\<rparr>
      = Inr ([1] @ replicate 16 7 @ [9])"
    by (simp add: frame_body_bytes_def wire_consts)
  show "verify_tag padding_crypto [3] ([1] @ replicate 16 7 @ [9])
      (fr_tag \<lparr>fr_version = 1, fr_nonce = replicate 16 7, fr_payload = [9],
        fr_tag = take 16 (fit 32 (take 8 [3] @ [1] @ replicate 16 7 @ [9]))\<rparr>)"
    by (simp add: verify_tag_def compute_tag_def padding_crypto_def wire_consts)
qed

text \<open>
  A frame signed by the phone's key verifies under the matching public key, and the two
  operations fail together: for every frame, either the body can be built, \<open>sign_frame\<close> returns
  a signature and \<open>verify_frame\<close> accepts it, or the payload is oversized and both report the
  encoding error before any cryptography runs.
\<close>

lemma sign_verify_frame:
  assumes "crypto_laws cr"
  shows "(length (fr_payload f) \<le> MAX_PAYLOAD_LEN \<and>
            (\<exists>sig. sign_frame cr sk f = Inr sig \<and> length sig = SIGNATURE_LEN \<and>
                verify_frame cr (ed_public cr sk) f sig = Inr ())) \<or>
         (MAX_PAYLOAD_LEN < length (fr_payload f) \<and> sign_frame cr sk f = Inl BadLength \<and>
            (\<forall>pk sig. verify_frame cr pk f sig = Inl (BadEncoding BadLength)))"
  using assms
  by (cases "length (fr_payload f) \<le> MAX_PAYLOAD_LEN")
     (auto simp: sign_frame_def verify_frame_def frame_body_bytes_def crypto_lawsD SIGNATURE_LEN_def)

lemma sign_verify_frame_witness:
  "\<exists>sig. sign_frame padding_crypto [5] \<lparr>fr_version = 1, fr_nonce = replicate 16 7, fr_payload = [], fr_tag = replicate 16 0\<rparr> = Inr sig
     \<and> verify_frame padding_crypto (ed_public padding_crypto [5])
         \<lparr>fr_version = 1, fr_nonce = replicate 16 7, fr_payload = [], fr_tag = replicate 16 0\<rparr> sig = Inr ()"
  using sign_verify_frame [OF padding_crypto_laws, of
      "\<lparr>fr_version = 1, fr_nonce = replicate 16 7, fr_payload = [], fr_tag = replicate 16 0\<rparr>" "[5]"]
  by (auto simp: MAX_PAYLOAD_LEN_def)

end
