(* ===== verification/Transport_Link.thy ===== *)
theory Transport_Link
  imports Frame Pair_Transaction
begin

unbundle bit_operations_syntax

section \<open>The Bluetooth link\<close>

text \<open>
  \<open>syauth-transport/src/error.rs\<close> and \<open>bluez.rs\<close>, with the code shown for the out-of-band
  comparison (\<open>syauth-cli/src/oob.rs\<close>): key derivations both ends share, fragment reassembly, the
  guard of the unlock path, and the GATT exchanges of pairing. The BlueZ daemon is a parameter: a
  device is the record of what its calls return, and reads may depend on the writes made so far.
\<close>

datatype transport_error =
    T_Timeout
  | T_Unreachable
  | T_Closed
  | T_BadFrame frame_error
  | T_WrongVersion byte
  | T_Replay
  | T_NotPaired
  | T_AdapterMissing string
  | T_IncompleteReassembly
  | T_Backend string

subsection \<open>Derivations shared by the two ends\<close>

definition HKDF_INFO_SESSION_V1 :: bytes where "HKDF_INFO_SESSION_V1 = string_bytes ''syauth-session-v1''"
definition SESSION_UUID_BYTES :: nat where [wire_consts]: "SESSION_UUID_BYTES = 16"
definition HKDF_INFO_OOB_V1 :: bytes where "HKDF_INFO_OOB_V1 = string_bytes ''syauth-oob-v1''"
definition OOB_CODE_DIGITS :: nat where [wire_consts]: "OOB_CODE_DIGITS = 8"
definition OOB_CODE_SPACE :: u32 where "OOB_CODE_SPACE = 100000000"
definition OOB_HKDF_BYTES :: nat where [wire_consts]: "OOB_HKDF_BYTES = 4"

text \<open>\<open>i64::to_be_bytes\<close> is the two's complement representation.\<close>

definition session_uuid_for :: "crypto \<Rightarrow> bytes \<Rightarrow> i64 \<Rightarrow> bytes" where
  "session_uuid_for cr bond_key minute =
     (case hkdf_sha256 cr bond_key (HKDF_INFO_SESSION_V1 @ u64_to_be minute) SESSION_UUID_BYTES of
        Some out \<Rightarrow> out
      | None \<Rightarrow> replicate SESSION_UUID_BYTES 0)"

definition cli_oob_code_for_bond :: "crypto \<Rightarrow> bytes \<Rightarrow> string" where
  "cli_oob_code_for_bond cr bond_key =
     (let out = (case hkdf_sha256 cr bond_key HKDF_INFO_OOB_V1 OOB_HKDF_BYTES of
                   Some out \<Rightarrow> out
                 | None \<Rightarrow> replicate OOB_HKDF_BYTES 0)
      in pad_left OOB_CODE_DIGITS (dec_string (unat (u32_from_be out mod OOB_CODE_SPACE))))"

subsection \<open>Fragments\<close>

definition MAX_BLE_MTU :: nat where [wire_consts]: "MAX_BLE_MTU = 247"
definition FRAGMENT_HEADER_LEN :: nat where [wire_consts]: "FRAGMENT_HEADER_LEN = 1"
definition FRAGMENT_MORE_BIT :: byte where [wire_consts]: "FRAGMENT_MORE_BIT = 0x80"
definition FRAGMENT_PAYLOAD_MAX :: nat where
  [wire_consts]: "FRAGMENT_PAYLOAD_MAX = MAX_BLE_MTU - FRAGMENT_HEADER_LEN"

fun reassemble_from :: "nat \<Rightarrow> nat \<Rightarrow> bytes list \<Rightarrow> bytes \<Rightarrow> (transport_error, bytes) result" where
  "reassemble_from last_idx idx [] out = Inr out"
| "reassemble_from last_idx idx (seg # segs) out =
     (if length seg < FRAGMENT_HEADER_LEN then Inl T_IncompleteReassembly
      else
        let more = (seg ! 0) AND FRAGMENT_MORE_BIT \<noteq> 0; is_last = (idx = last_idx) in
        if is_last \<and> more then Inl T_IncompleteReassembly
        else if \<not> is_last \<and> \<not> more then Inl T_IncompleteReassembly
        else reassemble_from last_idx (Suc idx) segs (out @ drop FRAGMENT_HEADER_LEN seg))"

definition reassemble :: "bytes list \<Rightarrow> (transport_error, bytes) result" where
  "reassemble segments =
     (if segments = [] then Inl T_IncompleteReassembly
      else reassemble_from (length segments - 1) 0 segments [])"

subsection \<open>The peer and its guard\<close>

datatype pairing_state =
    PS_Bonded string
  | PS_NotPaired

record bluez_peer =
  bz_adapter_id :: string
  bz_bond_key :: bytes
  bz_pairing_state :: pairing_state
  bz_restart_count :: u64

datatype bluer_error_kind =
    Bluer_NotFound
  | Bluer_Other

definition map_adapter_open_error :: "string \<Rightarrow> bluer_error_kind \<times> string \<Rightarrow> transport_error" where
  "map_adapter_open_error adapter_id err =
     (case fst err of Bluer_NotFound \<Rightarrow> T_AdapterMissing adapter_id | Bluer_Other \<Rightarrow> T_Backend (snd err))"

text \<open>\<open>bluer::Session::new\<close> and \<open>session.adapter\<close>, in that order; \<open>bluez_new\<close> opens them for a
  bonded peer only, so it takes the two outcomes as arguments.\<close>

type_synonym bluer_error = "bluer_error_kind \<times> string"

definition probe_adapter ::
    "(bluer_error, unit) result \<Rightarrow> (bluer_error, unit) result \<Rightarrow> string \<Rightarrow> (transport_error, unit) result" where
  "probe_adapter session adapter adapter_id =
     result_bind (result_map_err (map_adapter_open_error adapter_id) session) (\<lambda>_.
       result_map_err (map_adapter_open_error adapter_id) adapter)"

definition bluez_new ::
    "(bluer_error, unit) result \<Rightarrow> (bluer_error, unit) result \<Rightarrow> string \<Rightarrow> bytes \<Rightarrow> pairing_state \<Rightarrow>
     (transport_error, bluez_peer) result" where
  "bluez_new session adapter adapter_id bond_key st =
     result_bind (case st of PS_Bonded pid \<Rightarrow> probe_adapter session adapter adapter_id | PS_NotPaired \<Rightarrow> Inr ()) (\<lambda>_.
       Inr \<lparr>bz_adapter_id = adapter_id, bz_bond_key = bond_key, bz_pairing_state = st, bz_restart_count = 0\<rparr>)"

definition bluez_new_sync :: "string \<Rightarrow> bytes \<Rightarrow> pairing_state \<Rightarrow> bluez_peer" where
  "bluez_new_sync adapter_id bond_key st =
     \<lparr>bz_adapter_id = adapter_id, bz_bond_key = bond_key, bz_pairing_state = st, bz_restart_count = 0\<rparr>"

definition current_session_uuid :: "crypto \<Rightarrow> bluez_peer \<Rightarrow> i64 \<Rightarrow> bytes" where
  "current_session_uuid cr peer minute = session_uuid_for cr (bz_bond_key peer) minute"

definition bluez_restart :: "bluez_peer \<Rightarrow> bluez_peer" where
  "bluez_restart peer = peer\<lparr>bz_restart_count := bz_restart_count peer + 1\<rparr>"

fun suspend_resume_loop :: "bool \<Rightarrow> bluez_peer \<Rightarrow> bool list \<Rightarrow> bluez_peer" where
  "suspend_resume_loop last_was_true peer [] = peer"
| "suspend_resume_loop last_was_true peer (event # events) =
     suspend_resume_loop event (if last_was_true \<and> \<not> event then bluez_restart peer else peer) events"

definition run_suspend_resume_loop :: "bluez_peer \<Rightarrow> bool list \<Rightarrow> bluez_peer" where
  "run_suspend_resume_loop peer events = suspend_resume_loop False peer events"

text \<open>Durations in nanoseconds.\<close>

definition MIN_SCAN_WINDOW :: nat where "MIN_SCAN_WINDOW = 1000000000"
definition DEFAULT_SCAN_WINDOW :: nat where "DEFAULT_SCAN_WINDOW = 8000000000"

definition scan_window_for :: "nat \<Rightarrow> nat" where
  "scan_window_for budget = max MIN_SCAN_WINDOW (min (budget div 2) DEFAULT_SCAN_WINDOW)"

text \<open>A session: what the challenge write returns, and the next notification within the deadline.\<close>

datatype notify_event =
    N_Bytes bytes
  | N_End
  | N_Elapsed

definition session_send_frame :: "(bytes \<Rightarrow> (string, unit) result) \<Rightarrow> frame \<Rightarrow> (transport_error, bytes) result" where
  "session_send_frame gatt_write f =
     (case frame_encode f [] of (r, buf) \<Rightarrow>
        result_bind (result_map_err T_BadFrame r) (\<lambda>_.
        result_bind (result_map_err (\<lambda>e. T_Backend (''challenge.write: '' @ e)) (gatt_write buf)) (\<lambda>_. Inr buf)))"

definition session_recv_frame :: "notify_event \<Rightarrow> (transport_error, frame) result" where
  "session_recv_frame ev =
     (case ev of
        N_Bytes b \<Rightarrow> result_map_err T_BadFrame (frame_decode b)
      | N_End \<Rightarrow> Inl T_Closed
      | N_Elapsed \<Rightarrow> Inl T_Timeout)"

subsection \<open>GATT exchanges of pairing\<close>

type_synonym uuid = "128 word"

definition SYAUTH_GATT_SERVICE_UUID :: uuid where "SYAUTH_GATT_SERVICE_UUID = 0x5a4e8e3c1c4c4a179c81d518a55a0001"
definition SYAUTH_CHALLENGE_CHAR_UUID :: uuid where "SYAUTH_CHALLENGE_CHAR_UUID = 0x5a4e8e3c1c4c4a179c81d518a55a0002"
definition SYAUTH_RESPONSE_CHAR_UUID :: uuid where "SYAUTH_RESPONSE_CHAR_UUID = 0x5a4e8e3c1c4c4a179c81d518a55a0003"
definition SYAUTH_PAIR_SERVICE_UUID :: uuid where "SYAUTH_PAIR_SERVICE_UUID = 0x5a4e8e3c1c4c4a179c81d518a55a0101"
definition SYAUTH_PAIR_HOST_PUBKEY_CHAR_UUID :: uuid where
  "SYAUTH_PAIR_HOST_PUBKEY_CHAR_UUID = 0x5a4e8e3c1c4c4a179c81d518a55a0102"
definition SYAUTH_PAIR_PHONE_PUBKEY_CHAR_UUID :: uuid where
  "SYAUTH_PAIR_PHONE_PUBKEY_CHAR_UUID = 0x5a4e8e3c1c4c4a179c81d518a55a0103"
definition SYAUTH_PAIR_HOST_NAME_V1_CHAR_UUID :: uuid where
  "SYAUTH_PAIR_HOST_NAME_V1_CHAR_UUID = 0x5a4e8e3c1c4c4a179c81d518a55a0104"
definition SYAUTH_PAIR_V2_CONTROL_CHAR_UUID :: uuid where
  "SYAUTH_PAIR_V2_CONTROL_CHAR_UUID = 0x5a4e8e3c1c4c4a179c81d518a55a0105"
definition SYAUTH_PAIR_V2_STATUS_CHAR_UUID :: uuid where
  "SYAUTH_PAIR_V2_STATUS_CHAR_UUID = 0x5a4e8e3c1c4c4a179c81d518a55a0106"
definition PAIR_PUBKEY_LEN :: nat where [wire_consts]: "PAIR_PUBKEY_LEN = 32"

record gatt_char =
  gc_id :: nat
  gc_uuid :: "(string, uuid) result"

record gatt_service =
  gs_uuid :: "(string, uuid) result"
  gs_chars :: "(string, gatt_char list) result"

record gatt_device =
  gd_connect :: "(string, unit) result"
  gd_services :: "(string, gatt_service list) result"
  gd_write :: "nat \<Rightarrow> bytes \<Rightarrow> (string, unit) result"
  gd_read :: "(nat \<times> bytes) list \<Rightarrow> nat \<Rightarrow> (string, bytes) result"

definition backend :: "string \<Rightarrow> (string, 'a) result \<Rightarrow> (transport_error, 'a) result" where
  "backend what r = result_map_err (\<lambda>e. T_Backend (what @ e)) r"

text \<open>The two characteristics of a service, the last of each uuid.\<close>

fun pick_chars ::
    "uuid \<Rightarrow> uuid \<Rightarrow> gatt_char list \<Rightarrow> nat option \<times> nat option \<Rightarrow> (transport_error, nat option \<times> nat option) result" where
  "pick_chars a b [] acc = Inr acc"
| "pick_chars a b (ch # chs) acc =
     result_bind (backend ''characteristic.uuid: '' (gc_uuid ch)) (\<lambda>u.
       pick_chars a b chs
         (if u = a then (Some (gc_id ch), snd acc) else if u = b then (fst acc, Some (gc_id ch)) else acc))"

text \<open>\<open>stop\<close>: whether the loop breaks after the first matching service.\<close>

fun find_chars ::
    "bool \<Rightarrow> uuid \<Rightarrow> uuid \<Rightarrow> uuid \<Rightarrow> gatt_service list \<Rightarrow> nat option \<times> nat option \<Rightarrow>
     (transport_error, nat option \<times> nat option) result" where
  "find_chars stop svc a b [] acc = Inr acc"
| "find_chars stop svc a b (g # gs) acc =
     result_bind (backend ''service.uuid: '' (gs_uuid g)) (\<lambda>u.
       if u \<noteq> svc then find_chars stop svc a b gs acc
       else result_bind (backend ''service.characteristics: '' (gs_chars g)) (\<lambda>chs.
            result_bind (pick_chars a b chs acc) (\<lambda>acc'.
              if stop then Inr acc' else find_chars stop svc a b gs acc')))"

definition discover :: "bool \<Rightarrow> gatt_device \<Rightarrow> uuid \<Rightarrow> uuid \<Rightarrow> uuid \<Rightarrow> (transport_error, nat option \<times> nat option) result" where
  "discover stop d svc a b =
     result_bind (backend ''device.connect: '' (gd_connect d)) (\<lambda>_.
     result_bind (backend ''device.services: '' (gd_services d)) (\<lambda>gs. find_chars stop svc a b gs (None, None)))"

definition connect_pair_service :: "gatt_device \<Rightarrow> bytes \<Rightarrow> (transport_error, bytes) result" where
  "connect_pair_service d host_pubkey =
     result_bind (discover True d SYAUTH_PAIR_SERVICE_UUID SYAUTH_PAIR_HOST_PUBKEY_CHAR_UUID
         SYAUTH_PAIR_PHONE_PUBKEY_CHAR_UUID) (\<lambda>(host, phone).
     result_bind (ok_or T_Unreachable host) (\<lambda>host_char.
     result_bind (ok_or T_Unreachable phone) (\<lambda>phone_char.
     result_bind (backend ''host-pubkey.write: '' (gd_write d host_char host_pubkey)) (\<lambda>_.
     result_bind (backend ''phone-pubkey.read: '' (gd_read d [(host_char, host_pubkey)] phone_char)) (\<lambda>bs.
       if length bs \<noteq> PAIR_PUBKEY_LEN then Inl (T_BadFrame (TooShort PAIR_PUBKEY_LEN (length bs)))
       else Inr bs)))))"

definition query_pair_status :: "gatt_device \<Rightarrow> status_message \<Rightarrow> (transport_error, status_message) result" where
  "query_pair_status d query =
     result_bind (discover False d SYAUTH_PAIR_SERVICE_UUID SYAUTH_PAIR_V2_CONTROL_CHAR_UUID
         SYAUTH_PAIR_V2_STATUS_CHAR_UUID) (\<lambda>(control, status).
     result_bind (ok_or T_Unreachable control) (\<lambda>control_char.
     result_bind (ok_or T_Unreachable status) (\<lambda>status_char.
     result_bind (backend ''status query write: '' (gd_write d control_char (status_encode query))) (\<lambda>_.
     result_bind (backend ''status response read: '' (gd_read d [(control_char, status_encode query)] status_char)) (\<lambda>bs.
       if length bs \<noteq> STATUS_MESSAGE_LEN
       then Inl (T_BadFrame (TooShort STATUS_MESSAGE_LEN (length bs)))
       else result_map_err (\<lambda>_. T_BadFrame (TooShort STATUS_MESSAGE_LEN (length bs))) (status_decode bs))))))"

subsection \<open>The unlock path\<close>

text \<open>\<open>find_syauth_device\<close>: the devices already known, then the \<open>DeviceAdded\<close> events that arrive
  within the scan window; a device that cannot be opened or does not advertise the service is skipped.
  The end of the stream and the end of the window both give \<open>Unreachable\<close>.\<close>

datatype adapter_event =
    DeviceAdded nat
  | OtherEvent

record bluez_radio =
  rd_session :: "(bluer_error, unit) result"
  rd_adapter :: "string \<Rightarrow> (bluer_error, unit) result"
  rd_set_powered :: "(string, unit) result"
  rd_set_filter :: "(string, unit) result"
  rd_discover :: "(string, unit) result"
  rd_known :: "(string, nat list) result"
  rd_events :: "nat \<Rightarrow> adapter_event list"
  rd_device :: "nat \<Rightarrow> gatt_device option"
  rd_uuids :: "nat \<Rightarrow> (string, uuid list option) result"
  rd_notify :: "nat \<Rightarrow> nat \<Rightarrow> (string, unit) result"

definition device_advertises_syauth :: "(string, uuid list option) result \<Rightarrow> bool" where
  "device_advertises_syauth r =
     (case r of Inl e \<Rightarrow> False | Inr uo \<Rightarrow> (case uo of None \<Rightarrow> False | Some us \<Rightarrow> SYAUTH_GATT_SERVICE_UUID \<in> set us))"

fun first_syauth :: "bluez_radio \<Rightarrow> nat list \<Rightarrow> (nat \<times> gatt_device) option" where
  "first_syauth rd [] = None"
| "first_syauth rd (addr # addrs) =
     (case rd_device rd addr of
        None \<Rightarrow> first_syauth rd addrs
      | Some d \<Rightarrow> if device_advertises_syauth (rd_uuids rd addr) then Some (addr, d) else first_syauth rd addrs)"

fun added_devices :: "adapter_event list \<Rightarrow> nat list" where
  "added_devices [] = []"
| "added_devices (DeviceAdded addr # evs) = addr # added_devices evs"
| "added_devices (OtherEvent # evs) = added_devices evs"

definition find_syauth_device :: "bluez_radio \<Rightarrow> nat \<Rightarrow> (transport_error, nat \<times> gatt_device) result" where
  "find_syauth_device rd window =
     result_bind (backend ''device_addresses: '' (rd_known rd)) (\<lambda>known.
       case first_syauth rd known of
         Some d \<Rightarrow> Inr d
       | None \<Rightarrow> ok_or T_Unreachable (first_syauth rd (added_devices (rd_events rd window))))"

text \<open>A session is the device with the two characteristics it found.\<close>

record bluez_session =
  bs_addr :: nat
  bs_challenge_char :: nat
  bs_response_char :: nat

definition connect_inner :: "bluez_radio \<Rightarrow> bluez_peer \<Rightarrow> nat \<Rightarrow> (transport_error, bluez_session) result" where
  "connect_inner rd peer peer_timeout =
     result_bind (probe_adapter (rd_session rd) (rd_adapter rd (bz_adapter_id peer)) (bz_adapter_id peer)) (\<lambda>_.
     result_bind (backend ''adapter set_powered: '' (rd_set_powered rd)) (\<lambda>_.
     result_bind (backend ''set_discovery_filter: '' (rd_set_filter rd)) (\<lambda>_.
     result_bind (backend ''discover_devices: '' (rd_discover rd)) (\<lambda>_.
     result_bind (find_syauth_device rd (scan_window_for peer_timeout)) (\<lambda>(addr, d).
     result_bind (discover True d SYAUTH_GATT_SERVICE_UUID SYAUTH_CHALLENGE_CHAR_UUID
         SYAUTH_RESPONSE_CHAR_UUID) (\<lambda>(challenge, response).
     result_bind (ok_or (T_Backend ''syauth challenge characteristic not exposed by peer'') challenge) (\<lambda>c.
     result_bind (ok_or (T_Backend ''syauth response characteristic not exposed by peer'') response) (\<lambda>r.
     result_bind (backend ''response.notify subscribe: '' (rd_notify rd addr r)) (\<lambda>_.
       Inr \<lparr>bs_addr = addr, bs_challenge_char = c, bs_response_char = r\<rparr>)))))))))"

text \<open>The match on the pairing state is the first statement: only a bonded peer reaches the radio.\<close>

definition bluez_connect :: "bluez_radio \<Rightarrow> bluez_peer \<Rightarrow> nat \<Rightarrow> (transport_error, bluez_session) result" where
  "bluez_connect rd peer peer_timeout =
     (case bz_pairing_state peer of
        PS_NotPaired \<Rightarrow> Inl T_NotPaired
      | PS_Bonded pid \<Rightarrow> connect_inner rd peer peer_timeout)"

subsection \<open>Lemmas\<close>

definition more_bit :: "bytes \<Rightarrow> bool" where
  "more_bit s \<longleftrightarrow> hd s AND FRAGMENT_MORE_BIT \<noteq> 0"

lemma reassemble_from_iff:
  "idx + length segs = Suc last_idx \<Longrightarrow> segs \<noteq> [] \<Longrightarrow>
   reassemble_from last_idx idx segs acc = Inr out \<longleftrightarrow>
     list_all (\<lambda>s. s \<noteq> []) segs \<and> map more_bit segs = replicate (length segs - 1) True @ [False] \<and>
     out = acc @ concat (map tl segs)"
proof (induction segs arbitrary: idx acc)
  case Nil
  then show ?case by simp
next
  case (Cons s segs)
  show ?case
  proof (cases segs)
    case Nil
    with Cons.prems show ?thesis
      by (cases s) (auto simp: more_bit_def FRAGMENT_HEADER_LEN_def Let_def)
  next
    case (Cons s' ss)
    with Cons.prems have "idx \<noteq> last_idx" "Suc idx + length segs = Suc last_idx" "segs \<noteq> []"
      by auto
    with Cons.IH [of "Suc idx" "acc @ tl s"] Cons show ?thesis
      by (cases s) (auto simp: more_bit_def FRAGMENT_HEADER_LEN_def Let_def)
  qed
qed

lemma suspend_resume_loop_eq:
  "suspend_resume_loop b peer events =
     peer\<lparr>bz_restart_count := bz_restart_count peer +
       word_of_nat (length (filter (\<lambda>(x, y). x \<and> \<not> y) (zip (b # events) events)))\<rparr>"
  by (induction events arbitrary: b peer) (auto simp: bluez_restart_def algebra_simps)

lemma backend_simps [simp]: "backend what (Inr x) = Inr x" "backend what (Inl e) = Inl (T_Backend (what @ e))"
  by (simp_all add: backend_def)

lemma backend_Inr_iff [simp]: "backend what r = Inr x \<longleftrightarrow> r = Inr x"
  by (cases r) (simp_all add: backend_def)

text \<open>A characteristic that discovery returns is one of a service of the requested uuid.\<close>

definition offered :: "gatt_service list \<Rightarrow> uuid \<Rightarrow> uuid \<Rightarrow> nat \<Rightarrow> bool" where
  "offered gs svc u i \<longleftrightarrow>
     (\<exists>g \<in> set gs. gs_uuid g = Inr svc \<and>
        (\<exists>chs. gs_chars g = Inr chs \<and> (\<exists>c \<in> set chs. gc_uuid c = Inr u \<and> gc_id c = i)))"

lemma pick_chars_first:
  "pick_chars a b chs acc = Inr r \<Longrightarrow> fst r = Some i \<Longrightarrow>
   fst acc = Some i \<or> (\<exists>c \<in> set chs. gc_uuid c = Inr a \<and> gc_id c = i)"
proof (induction chs arbitrary: acc)
  case (Cons c chs)
  then obtain u where u: "gc_uuid c = Inr u"
    by (auto simp: result_bind_Inr_iff)
  have "pick_chars a b chs (if u = a then (Some (gc_id c), snd acc) else if u = b then (fst acc, Some (gc_id c)) else acc) = Inr r"
    using Cons.prems(1) u by simp
  from Cons.IH [OF this Cons.prems(2)] u show ?case
    by (auto split: if_splits)
qed simp

lemma pick_chars_second:
  "pick_chars a b chs acc = Inr r \<Longrightarrow> snd r = Some i \<Longrightarrow>
   snd acc = Some i \<or> (\<exists>c \<in> set chs. gc_uuid c = Inr b \<and> gc_id c = i)"
proof (induction chs arbitrary: acc)
  case (Cons c chs)
  then obtain u where u: "gc_uuid c = Inr u"
    by (auto simp: result_bind_Inr_iff)
  have "pick_chars a b chs (if u = a then (Some (gc_id c), snd acc) else if u = b then (fst acc, Some (gc_id c)) else acc) = Inr r"
    using Cons.prems(1) u by simp
  from Cons.IH [OF this Cons.prems(2)] u show ?case
    by (auto split: if_splits)
qed simp

lemma offered_Cons: "offered gs svc u i \<Longrightarrow> offered (g # gs) svc u i"
  by (auto simp: offered_def)

lemma find_chars_offered:
  assumes "find_chars stop svc a b gs acc = Inr (x, y)"
  shows "(x = Some i \<longrightarrow> fst acc = Some i \<or> offered gs svc a i) \<and>
         (y = Some j \<longrightarrow> snd acc = Some j \<or> offered gs svc b j)"
  using assms
proof (induction gs arbitrary: acc)
  case Nil
  then show ?case by auto
next
  case (Cons g gs)
  then obtain u where u: "gs_uuid g = Inr u"
    by (auto simp: result_bind_Inr_iff)
  show ?case
  proof (cases "u = svc")
    case False
    with u Cons.prems have "find_chars stop svc a b gs acc = Inr (x, y)" by simp
    from Cons.IH [OF this] show ?thesis by (auto intro: offered_Cons)
  next
    case True
    with u Cons.prems obtain chs acc' where g: "gs_chars g = Inr chs" "pick_chars a b chs acc = Inr acc'"
      "(if stop then Inr acc' else find_chars stop svc a b gs acc') = Inr (x, y)"
      by (auto simp: result_bind_Inr_iff)
    have pick: "(fst acc' = Some i \<longrightarrow> fst acc = Some i \<or> offered (g # gs) svc a i) \<and>
                (snd acc' = Some j \<longrightarrow> snd acc = Some j \<or> offered (g # gs) svc b j)"
      using pick_chars_first [OF g(2), of i] pick_chars_second [OF g(2), of j] g(1) u True
      unfolding offered_def by auto
    show ?thesis
      using pick g(3) Cons.IH [of acc'] by (cases stop) (auto intro: offered_Cons)
  qed
qed

lemma discover_offered:
  assumes "discover stop d svc a b = Inr (Some i, Some j)"
  shows "\<exists>gs. gd_services d = Inr gs \<and> offered gs svc a i \<and> offered gs svc b j"
  using assms find_chars_offered [of stop svc a b _ "(None, None)" "Some i" "Some j" i j]
  by (auto simp: discover_def result_bind_Inr_iff)

lemma first_syauth_SomeD:
  "first_syauth rd addrs = Some (addr, d) \<Longrightarrow>
   addr \<in> set addrs \<and> rd_device rd addr = Some d \<and> device_advertises_syauth (rd_uuids rd addr)"
  by (induction addrs) (auto split: option.splits if_splits)

lemma find_syauth_device_InrD:
  "find_syauth_device rd w = Inr (addr, d) \<Longrightarrow>
   rd_device rd addr = Some d \<and> device_advertises_syauth (rd_uuids rd addr)"
  by (auto simp: find_syauth_device_def result_bind_Inr_iff split: option.splits dest: first_syauth_SomeD)

subsection \<open>Properties\<close>

text \<open>Reassembly succeeds on exactly the well-formed segment lists (at least one segment, none
  empty, the more bit on every segment but the last) and returns the segments' payloads in order.\<close>

lemma reassemble_exact:
  "reassemble segs = Inr out \<longleftrightarrow>
     segs \<noteq> [] \<and> list_all (\<lambda>s. s \<noteq> []) segs \<and>
     map (\<lambda>s. hd s AND 0x80 \<noteq> 0) segs = replicate (length segs - 1) True @ [False] \<and>
     out = concat (map tl segs)"
proof (cases "segs = []")
  case True
  then show ?thesis by (simp add: reassemble_def)
next
  case False
  have "more_bit = (\<lambda>s. hd s AND 0x80 \<noteq> 0)"
    by (simp add: fun_eq_iff more_bit_def FRAGMENT_MORE_BIT_def)
  with False show ?thesis
    using reassemble_from_iff [of 0 segs "length segs - 1" "[]" out] by (simp add: reassemble_def)
qed

text \<open>An unlock session is opened for a bonded peer only, with a device the adapter can open that
  advertises the unlock service, and on the challenge and response characteristics of that service.\<close>

lemma unlock_session_guard:
  assumes "bluez_connect rd peer t = Inr s"
  shows "\<exists>pid d gs. bz_pairing_state peer = PS_Bonded pid \<and>
     rd_device rd (bs_addr s) = Some d \<and> device_advertises_syauth (rd_uuids rd (bs_addr s)) \<and>
     gd_services d = Inr gs \<and>
     offered gs SYAUTH_GATT_SERVICE_UUID SYAUTH_CHALLENGE_CHAR_UUID (bs_challenge_char s) \<and>
     offered gs SYAUTH_GATT_SERVICE_UUID SYAUTH_RESPONSE_CHAR_UUID (bs_response_char s)"
proof -
  obtain pid where pid: "bz_pairing_state peer = PS_Bonded pid"
    using assms by (cases "bz_pairing_state peer") (auto simp: bluez_connect_def)
  obtain addr d c r where
    dev: "find_syauth_device rd (scan_window_for t) = Inr (addr, d)" and
    chars: "discover True d SYAUTH_GATT_SERVICE_UUID SYAUTH_CHALLENGE_CHAR_UUID
        SYAUTH_RESPONSE_CHAR_UUID = Inr (Some c, Some r)" and
    s: "s = \<lparr>bs_addr = addr, bs_challenge_char = c, bs_response_char = r\<rparr>"
    using assms pid by (auto simp: bluez_connect_def connect_inner_def result_bind_Inr_iff)
  from pid find_syauth_device_InrD [OF dev] discover_offered [OF chars] s show ?thesis
    by auto
qed

definition sample_radio :: bluez_radio where
  "sample_radio =
     \<lparr>rd_session = Inr (), rd_adapter = (\<lambda>_. Inr ()), rd_set_powered = Inr (), rd_set_filter = Inr (),
      rd_discover = Inr (), rd_known = Inr [1], rd_events = (\<lambda>_. [OtherEvent, DeviceAdded 2]),
      rd_device = (\<lambda>_. Some \<lparr>gd_connect = Inr (),
         gd_services = Inr [\<lparr>gs_uuid = Inr SYAUTH_GATT_SERVICE_UUID,
           gs_chars = Inr [\<lparr>gc_id = 7, gc_uuid = Inr SYAUTH_CHALLENGE_CHAR_UUID\<rparr>,
                           \<lparr>gc_id = 8, gc_uuid = Inr SYAUTH_RESPONSE_CHAR_UUID\<rparr>]\<rparr>],
         gd_write = (\<lambda>_ _. Inr ()), gd_read = (\<lambda>_ _. Inr [])\<rparr>),
      rd_uuids = (\<lambda>a. Inr (if a = 2 then Some [SYAUTH_GATT_SERVICE_UUID] else None)),
      rd_notify = (\<lambda>_ _. Inr ())\<rparr>"

lemma unlock_session_guard_witness:
  "\<exists>s. bluez_connect sample_radio (bluez_new_sync ''hci0'' [] (PS_Bonded ''p'')) 5 = Inr s \<and>
     bs_addr s = 2 \<and> device_advertises_syauth (rd_uuids sample_radio (bs_addr s))"
proof -
  let ?s = "\<lparr>bs_addr = 2, bs_challenge_char = 7, bs_response_char = 8\<rparr>"
  have "bluez_connect sample_radio (bluez_new_sync ''hci0'' [] (PS_Bonded ''p'')) 5 = Inr ?s"
    by (simp add: bluez_connect_def bluez_new_sync_def connect_inner_def probe_adapter_def sample_radio_def
        find_syauth_device_def discover_def device_advertises_syauth_def SYAUTH_CHALLENGE_CHAR_UUID_def
        SYAUTH_RESPONSE_CHAR_UUID_def)
  with unlock_session_guard [OF this] show ?thesis by auto
qed

text \<open>The suspend/resume loop restarts the transport exactly once per true-to-false edge of the
  event stream, counting modulo 2 ^ 64 as the atomic counter does, and changes nothing else.\<close>

lemma restarts_count_resumes:
  "run_suspend_resume_loop peer events =
     peer\<lparr>bz_restart_count := bz_restart_count peer +
       word_of_nat (length (filter (\<lambda>(x, y). x \<and> \<not> y) (zip events (tl events))))\<rparr>"
  by (cases events) (auto simp: run_suspend_resume_loop_def suspend_resume_loop_eq)

text \<open>The out-of-band code shown on the desktop is always eight characters long and reads as the
  first four bytes of the derivation modulo 10 ^ 8.\<close>

lemma oob_code_eight_digits:
  "length (cli_oob_code_for_bond cr k) = 8 \<and> dec_value (cli_oob_code_for_bond cr k) < 10 ^ 8 \<and>
   (hkdf_sha256 cr k HKDF_INFO_OOB_V1 4 = Some out \<longrightarrow>
      dec_value (cli_oob_code_for_bond cr k) = unat (u32_from_be out) mod 10 ^ 8)"
proof -
  have m: "unat (w mod OOB_CODE_SPACE) = unat w mod 10 ^ 8" for w :: u32
    by (simp add: OOB_CODE_SPACE_def unat_mod_distrib)
  have "length (dec_string (unat (w mod OOB_CODE_SPACE))) \<le> 8" for w :: u32
    by (rule length_dec_string) (simp_all add: m)
  then show ?thesis
    by (simp add: cli_oob_code_for_bond_def Let_def OOB_CODE_DIGITS_def OOB_HKDF_BYTES_def
        length_pad_left dec_value_pad dec_value_string m)
qed

lemma oob_code_eight_digits_witness:
  "dec_value (cli_oob_code_for_bond padding_crypto (replicate 32 1)) = 16843009"
proof -
  have h: "hkdf_sha256 padding_crypto (replicate 32 1) HKDF_INFO_OOB_V1 4 = Some [1, 1, 1, 1]"
    by code_simp
  have v: "unat (u32_from_be [1, 1, 1, 1]) mod 10 ^ 8 = (16843009 :: nat)"
    by (simp add: u32_from_be_def be_nat_def)
  have "dec_value (cli_oob_code_for_bond padding_crypto (replicate 32 1)) = unat (u32_from_be [1, 1, 1, 1]) mod 10 ^ 8"
    using oob_code_eight_digits [of padding_crypto "replicate 32 1" "[1, 1, 1, 1]"] h by blast
  then show ?thesis by (simp only: v)
qed

end
