(* ===== verification/File_System.thy ===== *)
theory File_System
  imports Rust_Std "HOL-Library.Sublist"
begin

unbundle bit_operations_syntax

section \<open>The file system under faults\<close>

text \<open>
  The calls of \<open>std::fs\<close> (and of the temporary files of the \<open>tempfile\<close> crate) that the bond store
  and the pairing recovery use, over a map from paths to nodes. The state carries a script of
  faults: each call consumes one entry, and a faulty call fails, possibly after a
  part of its effect; after a crash every later call fails without effect, as if the process had
  been killed there. A statement about every initial state is thus a statement about every
  schedule of I/O errors and every crash point. Programs are state transformers with a result,
  and properties of them are triples \<open>hoare P m Q E\<close>.
\<close>

subsection \<open>Paths\<close>

type_synonym path = "string list"

text \<open>\<open>Path::components\<close>: empty and \<open>.\<close> components vanish; joining an absolute path replaces.\<close>

definition components :: "string \<Rightarrow> path" where
  "components s = filter (\<lambda>w. w \<noteq> [] \<and> w \<noteq> ''.'') (split_on CHR ''/'' s)"

definition path_join :: "path \<Rightarrow> string \<Rightarrow> path" where
  "path_join p s = (case s of c # _ \<Rightarrow> if c = CHR ''/'' then components s else p @ components s | [] \<Rightarrow> p)"

definition plain_name :: "string \<Rightarrow> bool" where
  "plain_name s \<longleftrightarrow> s \<noteq> [] \<and> s \<noteq> ''.'' \<and> s \<noteq> ''..'' \<and> CHR ''/'' \<notin> set s"

lemma path_join_plain [simp]: "plain_name s \<Longrightarrow> path_join p s = p @ [s]"
  by (auto simp: path_join_def plain_name_def components_def split_on_none split: list.splits)

definition path_parent :: "path \<Rightarrow> path option" where
  "path_parent p = (if p = [] then None else Some (butlast p))"

text \<open>\<open>Path::with_extension\<close>: the last component loses what follows its last dot, unless that dot
  is its first character, and gains the new extension.\<close>

definition file_stem :: "string \<Rightarrow> string" where
  "file_stem n =
     (let k = length n - Suc (length (takeWhile (\<lambda>c. c \<noteq> CHR ''.'') (rev n)))
      in if n = ''..'' \<or> CHR ''.'' \<notin> set n \<or> k = 0 then n else take k n)"

definition with_extension :: "path \<Rightarrow> string \<Rightarrow> path" where
  "with_extension p ext = (if p = [] then p else butlast p @ [file_stem (last p) @ ''.'' @ ext])"

lemma file_stem_dot:
  assumes "a \<noteq> []" and "CHR ''.'' \<notin> set b" and "a @ ''.'' @ b \<noteq> ''..''"
  shows "file_stem (a @ ''.'' @ b) = a"
proof -
  have "takeWhile (\<lambda>c. c \<noteq> CHR ''.'') (rev (a @ ''.'' @ b)) = rev b"
    using assms(2) by (simp add: takeWhile_append)
  then show ?thesis using assms(1,3) by (simp add: file_stem_def Let_def)
qed

subsection \<open>Nodes, faults and programs\<close>

datatype io_error =
    Io_NotFound
  | Io_NotADirectory
  | Io_IsADirectory
  | Io_AlreadyExists
  | Io_InvalidInput
  | Io_InvalidData
  | Io_Other

datatype node =
    File bytes u32
  | Dir u32

type_synonym nodes = "path \<Rightarrow> node option"

text \<open>A fault is an error such as a full or failing disk, never a false \<open>NotFound\<close>, and says how far
  the call got (0 is nowhere).\<close>

datatype fault =
    Fault nat
  | Crash nat

record fs =
  fs_nodes :: nodes
  fs_faults :: "fault option list"
  fs_down :: bool
  fs_umask :: u32
  fs_random :: "string list"

type_synonym ('e, 'a) prog = "(fs, 'e, 'a) stm"
type_synonym 'a io = "(io_error, 'a) prog"

definition io_call :: "(nat \<Rightarrow> fs \<Rightarrow> fs) \<Rightarrow> 'a io \<Rightarrow> 'a io" where
  "io_call partial act s =
     (if fs_down s then (Inl Io_Other, s)
      else case fs_faults s of
        [] \<Rightarrow> act s
      | f # fl \<Rightarrow>
          let s1 = s\<lparr>fs_faults := fl\<rparr> in
          (case f of
             None \<Rightarrow> act s1
           | Some (Fault n) \<Rightarrow> (Inl Io_Other, partial n s1)
           | Some (Crash n) \<Rightarrow> (Inl Io_Other, (partial n s1)\<lparr>fs_down := True\<rparr>)))"

abbreviation no_effect :: "nat \<Rightarrow> fs \<Rightarrow> fs" where
  "no_effect n s \<equiv> s"

subsection \<open>The calls\<close>

definition is_dir :: "nodes \<Rightarrow> path \<Rightarrow> bool" where
  "is_dir N p \<longleftrightarrow> p = [] \<or> (case N p of Some (Dir m) \<Rightarrow> True | _ \<Rightarrow> False)"

definition is_file :: "nodes \<Rightarrow> path \<Rightarrow> bool" where
  "is_file N p \<longleftrightarrow> (case N p of Some (File c m) \<Rightarrow> True | _ \<Rightarrow> False)"

text \<open>Modes in octal: 0x180 is 0600, 0x1B6 is 0666, 0x1C0 is 0700, 0x1FF is 0777.\<close>

text \<open>Why a path without a node cannot be opened.\<close>

definition absent_error :: "nodes \<Rightarrow> path \<Rightarrow> io_error" where
  "absent_error N p = (if is_file N (butlast p) then Io_NotADirectory else Io_NotFound)"

definition set_node :: "path \<Rightarrow> node option \<Rightarrow> fs \<Rightarrow> fs" where
  "set_node p v s = s\<lparr>fs_nodes := (fs_nodes s)(p := v)\<rparr>"

definition fs_read :: "path \<Rightarrow> bytes io" where
  "fs_read p = io_call no_effect (\<lambda>s.
     case fs_nodes s p of
       Some (File c m) \<Rightarrow> (Inr c, s)
     | Some (Dir m) \<Rightarrow> (Inl Io_IsADirectory, s)
     | None \<Rightarrow> (Inl (absent_error (fs_nodes s) p), s))"

definition fs_read_to_string :: "path \<Rightarrow> string io" where
  "fs_read_to_string p = io_bind (fs_read p) (\<lambda>c. io_lift (ok_or Io_InvalidData (from_utf8 c)))"

definition file_mode_at :: "fs \<Rightarrow> path \<Rightarrow> u32" where
  "file_mode_at s p = (case fs_nodes s p of Some (File c m) \<Rightarrow> m | _ \<Rightarrow> 0x1B6 AND NOT (fs_umask s))"

definition creatable :: "nodes \<Rightarrow> path \<Rightarrow> bool" where
  "creatable N p \<longleftrightarrow> p \<noteq> [] \<and> is_dir N (butlast p) \<and> \<not> is_dir N p"

text \<open>\<open>fs::write\<close>: open for writing with truncation, then write; a fault may leave a prefix.\<close>

definition fs_write :: "path \<Rightarrow> bytes \<Rightarrow> unit io" where
  "fs_write p c = io_call
     (\<lambda>n s. if n = 0 \<or> \<not> creatable (fs_nodes s) p then s
            else set_node p (Some (File (take (n - 1) c) (file_mode_at s p))) s)
     (\<lambda>s. if creatable (fs_nodes s) p
          then (Inr (), set_node p (Some (File c (file_mode_at s p))) s)
          else (Inl (if is_dir (fs_nodes s) p then Io_IsADirectory else absent_error (fs_nodes s) p), s))"

definition with_mode :: "u32 \<Rightarrow> node \<Rightarrow> node" where
  "with_mode m v = (case v of File c _ \<Rightarrow> File c m | Dir _ \<Rightarrow> Dir m)"

definition fs_set_permissions :: "path \<Rightarrow> u32 \<Rightarrow> unit io" where
  "fs_set_permissions p m = io_call no_effect (\<lambda>s.
     case fs_nodes s p of
       Some v \<Rightarrow> (Inr (), set_node p (Some (with_mode m v)) s)
     | None \<Rightarrow> (Inl (absent_error (fs_nodes s) p), s))"

text \<open>\<open>fs::rename\<close> of a file replaces a file at the target atomically. The program renames files
  only; a directory as the source is refused.\<close>

definition fs_rename :: "path \<Rightarrow> path \<Rightarrow> unit io" where
  "fs_rename p q = io_call no_effect (\<lambda>s.
     case fs_nodes s p of
       Some (File c m) \<Rightarrow>
         if creatable (fs_nodes s) q
         then (Inr (), set_node q (Some (File c m)) (set_node p None s))
         else (Inl (if is_dir (fs_nodes s) q then Io_IsADirectory else absent_error (fs_nodes s) q), s)
     | Some (Dir m) \<Rightarrow> (Inl Io_Other, s)
     | None \<Rightarrow> (Inl (absent_error (fs_nodes s) p), s))"

definition fs_remove_file :: "path \<Rightarrow> unit io" where
  "fs_remove_file p = io_call no_effect (\<lambda>s.
     case fs_nodes s p of
       Some (File c m) \<Rightarrow> (Inr (), set_node p None s)
     | Some (Dir m) \<Rightarrow> (Inl Io_IsADirectory, s)
     | None \<Rightarrow> (Inl (absent_error (fs_nodes s) p), s))"

definition fs_metadata :: "path \<Rightarrow> node io" where
  "fs_metadata p = io_call no_effect (\<lambda>s.
     case fs_nodes s p of
       Some v \<Rightarrow> (Inr v, s)
     | None \<Rightarrow> (Inl (absent_error (fs_nodes s) p), s))"

text \<open>\<open>Path::exists\<close>: an error counts as absent.\<close>

definition fs_exists :: "path \<Rightarrow> ('e, bool) prog" where
  "fs_exists p = (\<lambda>s. case fs_metadata p s of (r, s') \<Rightarrow> (Inr (is_ok r), s'))"

definition fs_sync :: "unit io" where
  "fs_sync = io_call no_effect (\<lambda>s. (Inr (), s))"

definition fs_mkdir :: "path \<Rightarrow> unit io" where
  "fs_mkdir p = io_call no_effect (\<lambda>s.
     if p = [] \<or> fs_nodes s p \<noteq> None then (Inl Io_AlreadyExists, s)
     else if is_dir (fs_nodes s) (butlast p)
     then (Inr (), set_node p (Some (Dir (0x1FF AND NOT (fs_umask s)))) s)
     else (Inl (absent_error (fs_nodes s) p), s))"

text \<open>\<open>fs::create_dir_all\<close>: make the directory; if its parent is missing, make that first; an error
  is forgiven when the directory is there.\<close>

function fs_create_dir_all :: "path \<Rightarrow> unit io" where
  "fs_create_dir_all p s =
     (if p = [] then (Inr (), s)
      else case fs_mkdir p s of
        (Inr u, s1) \<Rightarrow> (Inr u, s1)
      | (Inl e, s1) \<Rightarrow>
          if e = Io_NotFound then
            (case fs_create_dir_all (butlast p) s1 of
               (Inl e2, s2) \<Rightarrow> (Inl e2, s2)
             | (Inr u, s2) \<Rightarrow>
                 (case fs_mkdir p s2 of
                    (Inr u, s3) \<Rightarrow> (Inr u, s3)
                  | (Inl e3, s3) \<Rightarrow>
                      if is_dir (fs_nodes s3) p then (Inr (), s3) else (Inl e3, s3)))
          else if is_dir (fs_nodes s1) p then (Inr (), s1)
          else (Inl e, s1))"
  by pat_completeness auto
termination by (relation "measure (\<lambda>(p, s). length p)") auto

declare fs_create_dir_all.simps [simp del]

text \<open>\<open>tempfile::NamedTempFile::new_in\<close>: a new file of mode 0600 named \<open>.tmp\<close> followed by random
  characters; a name in use is retried with the next ones.\<close>

definition temp_name :: "string \<Rightarrow> string" where
  "temp_name r = ''.tmp'' @ r"

definition fs_temp_in :: "path \<Rightarrow> path io" where
  "fs_temp_in d = io_call no_effect (\<lambda>s.
     case dropWhile (\<lambda>r. fs_nodes s (d @ [temp_name r]) \<noteq> None) (fs_random s) of
       [] \<Rightarrow> (Inl Io_AlreadyExists, s)
     | r # rs \<Rightarrow>
         if is_dir (fs_nodes s) d
         then (Inr (d @ [temp_name r]),
               set_node (d @ [temp_name r]) (Some (File [] 0x180)) (s\<lparr>fs_random := rs\<rparr>))
         else (Inl (absent_error (fs_nodes s) (d @ [temp_name r])), s))"

subsection \<open>Triples\<close>

definition hoare ::
    "(nodes \<Rightarrow> bool) \<Rightarrow> ('e, 'a) prog \<Rightarrow> ('a \<Rightarrow> nodes \<Rightarrow> bool) \<Rightarrow> ('e \<Rightarrow> nodes \<Rightarrow> bool) \<Rightarrow> bool" where
  "hoare P m Q E \<longleftrightarrow> (\<forall>s. P (fs_nodes s) \<longrightarrow>
     (case m s of (Inr x, s') \<Rightarrow> Q x (fs_nodes s') | (Inl e, s') \<Rightarrow> E e (fs_nodes s')))"

abbreviation keeps :: "(nodes \<Rightarrow> bool) \<Rightarrow> ('e, 'a) prog \<Rightarrow> bool" where
  "keeps P m \<equiv> hoare P m (\<lambda>_. P) (\<lambda>_. P)"

lemma hoareI:
  assumes "\<And>s x s'. P (fs_nodes s) \<Longrightarrow> m s = (Inr x, s') \<Longrightarrow> Q x (fs_nodes s')"
    and "\<And>s e s'. P (fs_nodes s) \<Longrightarrow> m s = (Inl e, s') \<Longrightarrow> E e (fs_nodes s')"
  shows "hoare P m Q E"
  using assms unfolding hoare_def by (auto split: prod.splits sum.splits)

lemma hoare_ok: "hoare P m Q E \<Longrightarrow> P (fs_nodes s) \<Longrightarrow> m s = (Inr x, s') \<Longrightarrow> Q x (fs_nodes s')"
  by (auto simp: hoare_def)

lemma hoare_error: "hoare P m Q E \<Longrightarrow> P (fs_nodes s) \<Longrightarrow> m s = (Inl e, s') \<Longrightarrow> E e (fs_nodes s')"
  by (auto simp: hoare_def)

lemma hoare_any:
  assumes "hoare P m (\<lambda>_. R) (\<lambda>_. R)" and "P (fs_nodes s)"
  shows "R (fs_nodes (snd (m s)))"
proof (cases "m s")
  case (Pair r s')
  then show ?thesis using assms hoare_ok [of P m] hoare_error [of P m] by (cases r) auto
qed

lemma hoare_weaken:
  assumes "hoare P m Q E" and "\<And>N. P' N \<Longrightarrow> P N" and "\<And>x N. Q x N \<Longrightarrow> Q' x N"
    and "\<And>e N. E e N \<Longrightarrow> E' e N"
  shows "hoare P' m Q' E'"
  by (rule hoareI) (auto intro: assms(2-4) hoare_ok [OF assms(1)] hoare_error [OF assms(1)])

lemma hoare_conj:
  assumes "hoare P m Q E" and "hoare P' m Q' E'"
  shows "hoare (\<lambda>N. P N \<and> P' N) m (\<lambda>x N. Q x N \<and> Q' x N) (\<lambda>e N. E e N \<and> E' e N)"
  by (rule hoareI) (auto intro: hoare_ok [OF assms(1)] hoare_error [OF assms(1)]
      hoare_ok [OF assms(2)] hoare_error [OF assms(2)])

lemma hoare_false: "(\<And>N. \<not> P N) \<Longrightarrow> hoare P m Q E"
  by (simp add: hoare_def)

lemma hoare_pure: "(C \<Longrightarrow> hoare P m Q E) \<Longrightarrow> hoare (\<lambda>N. P N \<and> C) m Q E"
  by (cases C) (simp_all add: hoare_false)

lemma hoare_pure_post: "hoare P m Q E \<Longrightarrow> hoare (\<lambda>N. P N \<and> C) m (\<lambda>x N. Q x N \<and> C) E"
  by (cases C) (simp_all add: hoare_false)

named_theorems hoare_rules

lemma hoare_return [hoare_rules]: "(\<And>N. P N \<Longrightarrow> Q x N) \<Longrightarrow> hoare P (io_return x) Q E"
  by (simp add: hoare_def io_return_def)

lemma hoare_fail [hoare_rules]: "(\<And>N. P N \<Longrightarrow> E e N) \<Longrightarrow> hoare P (io_fail e) Q E"
  by (simp add: hoare_def io_fail_def)

lemma hoare_lift [hoare_rules]:
  "(\<And>x N. r = Inr x \<Longrightarrow> P N \<Longrightarrow> Q x N) \<Longrightarrow> (\<And>e N. P N \<Longrightarrow> E e N) \<Longrightarrow> hoare P (io_lift r) Q E"
  by (cases r) (simp_all add: hoare_def io_lift_def)

lemma hoare_bind:
  assumes "hoare P m R E" and "\<And>x. hoare (R x) (f x) Q E"
  shows "hoare P (io_bind m f) Q E"
proof (rule hoareI)
  fix s x s' assume P: "P (fs_nodes s)" and run: "io_bind m f s = (Inr x, s')"
  then obtain y t where "m s = (Inr y, t)" "f y t = (Inr x, s')"
    by (auto simp: io_bind_def split: prod.splits sum.splits)
  then show "Q x (fs_nodes s')" using P hoare_ok [OF assms(1)] hoare_ok [OF assms(2)] by blast
next
  fix s e s' assume P: "P (fs_nodes s)" and run: "io_bind m f s = (Inl e, s')"
  then consider "m s = (Inl e, s')" | y t where "m s = (Inr y, t)" "f y t = (Inl e, s')"
    by (auto simp: io_bind_def split: prod.splits sum.splits)
  then show "E e (fs_nodes s')"
    using P hoare_ok [OF assms(1)] hoare_error [OF assms(1)] hoare_error [OF assms(2)] by cases blast+
qed

lemma hoare_map_err: "hoare P (io_map_err g m) Q E \<longleftrightarrow> hoare P m Q (\<lambda>e. E (g e))"
proof
  assume h: "hoare P (io_map_err g m) Q E"
  show "hoare P m Q (\<lambda>e. E (g e))"
    by (rule hoareI) (auto intro: hoare_ok [OF h] hoare_error [OF h] simp: io_map_err_def)
next
  assume h: "hoare P m Q (\<lambda>e. E (g e))"
  show "hoare P (io_map_err g m) Q E"
    by (rule hoareI)
       (auto intro: hoare_ok [OF h] hoare_error [OF h] simp: io_map_err_def split: prod.splits sum.splits)
qed

lemma hoare_try:
  assumes h: "hoare P m (\<lambda>x. Q (Inr x)) (\<lambda>e. Q (Inl e))"
  shows "hoare P (io_try m) Q E"
proof (rule hoareI)
  fix s x s' assume P: "P (fs_nodes s)" and "io_try m s = (Inr x, s')"
  then have "m s = (x, s')" by (simp add: io_try_def split: prod.splits)
  then show "Q x (fs_nodes s')"
    using P hoare_ok [OF h] hoare_error [OF h] by (cases x) blast+
qed (simp add: io_try_def split: prod.splits)

lemma hoare_ignore:
  assumes "hoare P m (\<lambda>_. Q ()) (\<lambda>_. Q ())"
  shows "hoare P (io_ignore m) Q E"
  by (rule hoareI) (auto simp: io_ignore_def intro: hoare_any [OF assms])

lemma hoare_on_error:
  assumes m: "hoare P m Q (\<lambda>_. R)" and h: "hoare R h (\<lambda>_. E) (\<lambda>_. E)"
  shows "hoare P (io_on_error m h) Q (\<lambda>_. E)"
  by (rule hoareI)
     (auto simp: io_on_error_def intro: hoare_ok [OF m] hoare_any [OF h] hoare_error [OF m]
           split: prod.splits sum.splits)

text \<open>Every call: it fails somewhere on the way, or acts.\<close>

lemma hoare_call:
  assumes "\<And>n s. P (fs_nodes s) \<Longrightarrow> E Io_Other (fs_nodes (partial n s))"
    and "\<And>s x s'. P (fs_nodes s) \<Longrightarrow> act s = (Inr x, s') \<Longrightarrow> Q x (fs_nodes s')"
    and "\<And>s e s'. P (fs_nodes s) \<Longrightarrow> act s = (Inl e, s') \<Longrightarrow> E e (fs_nodes s')"
    and "\<And>N. P N \<Longrightarrow> E Io_Other N"
  shows "hoare P (io_call partial act) Q E"
  unfolding hoare_def
proof (intro allI impI)
  fix s :: fs assume P: "P (fs_nodes s)"
  have acts: "case act s' of (Inl e, t) \<Rightarrow> E e (fs_nodes t) | (Inr x, t) \<Rightarrow> Q x (fs_nodes t)"
    if "fs_nodes s' = fs_nodes s" for s'
    using P that assms(2,3) [of s'] by (auto split: prod.splits sum.splits)
  show "case io_call partial act s of (Inl e, t) \<Rightarrow> E e (fs_nodes t) | (Inr x, t) \<Rightarrow> Q x (fs_nodes t)"
    using P acts [of s] acts [of "s\<lparr>fs_faults := tl (fs_faults s)\<rparr>"] assms(1,4)
    by (auto simp: io_call_def Let_def split: list.splits option.splits fault.splits)
qed

lemma hoare_read [hoare_rules]:
  assumes "\<And>N c m. P N \<Longrightarrow> N p = Some (File c m) \<Longrightarrow> Q c N"
    and "\<And>N e. P N \<Longrightarrow> (e = Io_NotFound \<longrightarrow> N p = None) \<Longrightarrow> E e N"
  shows "hoare P (fs_read p) Q E"
  unfolding fs_read_def
  by (rule hoare_call) (auto intro: assms split: option.splits node.splits)

lemma hoare_read_to_string [hoare_rules]:
  assumes "\<And>N c m. P N \<Longrightarrow> N p = Some (File (string_bytes c) m) \<Longrightarrow> string_ok c \<Longrightarrow> Q c N"
    and "\<And>N e. P N \<Longrightarrow> (e = Io_NotFound \<longrightarrow> N p = None) \<Longrightarrow> E e N"
  shows "hoare P (fs_read_to_string p) Q E"
  unfolding fs_read_to_string_def
proof (rule hoare_bind [where R = "\<lambda>c N. P N \<and> (\<exists>m. N p = Some (File c m))"])
  show "hoare P (fs_read p) (\<lambda>c N. P N \<and> (\<exists>m. N p = Some (File c m))) E"
    by (rule hoare_read) (auto intro: assms(2))
  fix c
  show "hoare (\<lambda>N. P N \<and> (\<exists>m. N p = Some (File c m))) (io_lift (ok_or Io_InvalidData (from_utf8 c))) Q E"
    using assms from_utf8_SomeD [of c]
    by (cases "from_utf8 c") (auto simp: ok_or_def hoare_def io_lift_def)
qed

lemma hoare_write [hoare_rules]:
  assumes "\<And>N m. P N \<Longrightarrow> (\<And>c' m'. N p = Some (File c' m') \<Longrightarrow> m = m') \<Longrightarrow> Q () (N(p \<mapsto> File c m))"
    and "\<And>N n m. P N \<Longrightarrow> E Io_Other (N(p \<mapsto> File (take n c) m))" and "\<And>N e. P N \<Longrightarrow> E e N"
  shows "hoare P (fs_write p c) Q E"
  unfolding fs_write_def
  by (rule hoare_call)
     (auto intro!: assms(1) intro: assms(2,3) simp: set_node_def file_mode_at_def
           split: if_splits option.splits node.splits)

lemma hoare_set_permissions [hoare_rules]:
  assumes "\<And>N v. P N \<Longrightarrow> N p = Some v \<Longrightarrow> Q () (N(p \<mapsto> with_mode m v))" and "\<And>N e. P N \<Longrightarrow> E e N"
  shows "hoare P (fs_set_permissions p m) Q E"
  unfolding fs_set_permissions_def
  by (rule hoare_call) (auto intro: assms simp: set_node_def split: option.splits)

lemma hoare_rename [hoare_rules]:
  assumes "\<And>N c m. P N \<Longrightarrow> N p = Some (File c m) \<Longrightarrow> Q () (N(p := None, q \<mapsto> File c m))"
    and "\<And>N e. P N \<Longrightarrow> E e N"
  shows "hoare P (fs_rename p q) Q E"
  unfolding fs_rename_def
  by (rule hoare_call) (auto intro: assms simp: set_node_def split: option.splits node.splits if_splits)

lemma hoare_remove_file [hoare_rules]:
  assumes "\<And>N c m. P N \<Longrightarrow> N p = Some (File c m) \<Longrightarrow> Q () (N(p := None))" and "\<And>N e. P N \<Longrightarrow> E e N"
  shows "hoare P (fs_remove_file p) Q E"
  unfolding fs_remove_file_def
  by (rule hoare_call) (auto intro: assms simp: set_node_def split: option.splits node.splits)

lemma hoare_metadata [hoare_rules]:
  assumes "\<And>N v. P N \<Longrightarrow> N p = Some v \<Longrightarrow> Q v N"
    and "\<And>N e. P N \<Longrightarrow> (e = Io_NotFound \<longrightarrow> N p = None) \<Longrightarrow> E e N"
  shows "hoare P (fs_metadata p) Q E"
  unfolding fs_metadata_def
  by (rule hoare_call) (auto intro: assms split: option.splits)

lemma hoare_exists [hoare_rules]:
  assumes "\<And>N v. P N \<Longrightarrow> N p = Some v \<Longrightarrow> Q True N" and "\<And>N. P N \<Longrightarrow> Q False N"
  shows "hoare P (fs_exists p) Q E"
proof -
  have h: "hoare P (fs_metadata p) (\<lambda>_. Q True) (\<lambda>_. Q False)"
    by (rule hoare_metadata) (auto intro: assms)
  show ?thesis
  proof (rule hoareI)
    fix s x s' assume P: "P (fs_nodes s)" and "fs_exists p s = (Inr x, s')"
    then obtain r where r: "fs_metadata p s = (r, s')" "x = is_ok r"
      by (auto simp: fs_exists_def split: prod.splits)
    then show "Q x (fs_nodes s')"
      using hoare_ok [OF h P] hoare_error [OF h P] by (cases r) auto
  qed (simp add: fs_exists_def split: prod.splits)
qed

lemma hoare_sync [hoare_rules]:
  "(\<And>N. P N \<Longrightarrow> Q () N) \<Longrightarrow> (\<And>N e. P N \<Longrightarrow> E e N) \<Longrightarrow> hoare P fs_sync Q E"
  unfolding fs_sync_def by (rule hoare_call) auto

lemma hoare_mkdir [hoare_rules]:
  assumes "\<And>N m. P N \<Longrightarrow> N p = None \<Longrightarrow> p \<noteq> [] \<Longrightarrow> Q () (N(p \<mapsto> Dir m))" and "\<And>N e. P N \<Longrightarrow> E e N"
  shows "hoare P (fs_mkdir p) Q E"
  unfolding fs_mkdir_def
  by (rule hoare_call) (auto intro: assms simp: set_node_def split: if_splits)

lemma hoare_temp_in [hoare_rules]:
  assumes "\<And>N r. P N \<Longrightarrow> N (d @ [temp_name r]) = None \<Longrightarrow>
      Q (d @ [temp_name r]) (N(d @ [temp_name r] \<mapsto> File [] 0x180))"
    and "\<And>N e. P N \<Longrightarrow> E e N"
  shows "hoare P (fs_temp_in d) Q E"
  unfolding fs_temp_in_def
proof (rule hoare_call)
  fix s x s'
  assume P: "P (fs_nodes s)" and act: "(case dropWhile (\<lambda>r. fs_nodes s (d @ [temp_name r]) \<noteq> None) (fs_random s) of
      [] \<Rightarrow> (Inl Io_AlreadyExists, s)
    | r # rs \<Rightarrow>
        if is_dir (fs_nodes s) d
        then (Inr (d @ [temp_name r]),
              set_node (d @ [temp_name r]) (Some (File [] 0x180)) (s\<lparr>fs_random := rs\<rparr>))
        else (Inl (absent_error (fs_nodes s) (d @ [temp_name r])), s)) = (Inr x, s')"
  then obtain r rs where dw: "dropWhile (\<lambda>r. fs_nodes s (d @ [temp_name r]) \<noteq> None) (fs_random s) = r # rs"
    and x: "x = d @ [temp_name r]"
    and s': "s' = set_node (d @ [temp_name r]) (Some (File [] 0x180)) (s\<lparr>fs_random := rs\<rparr>)"
    by (auto split: list.splits if_splits)
  from dw have "fs_nodes s (d @ [temp_name r]) = None"
    using hd_dropWhile [of "\<lambda>r. fs_nodes s (d @ [temp_name r]) \<noteq> None" "fs_random s"] by simp
  with P show "Q x (fs_nodes s')" by (simp add: x s' set_node_def assms(1))
qed (auto intro: assms split: list.splits if_splits)

text \<open>A property that new directories on the way to \<open>p\<close> cannot disturb.\<close>

lemma keeps_create_dir_all:
  assumes "\<And>N q m. P N \<Longrightarrow> N q = None \<Longrightarrow> prefix q p \<Longrightarrow> q \<noteq> [] \<Longrightarrow> P (N(q \<mapsto> Dir m))"
  shows "keeps P (fs_create_dir_all p)"
proof -
  have mk: "P (fs_nodes t)" if "P (fs_nodes s)" "prefix q p" "fs_mkdir q s = (r, t)" for q s r t
  proof -
    have "keeps P (fs_mkdir q)" using that(2) by (intro hoare_mkdir) (auto intro: assms)
    then show ?thesis using hoare_any [of P "fs_mkdir q" P s] that by simp
  qed
  have "P (fs_nodes t)" if "P (fs_nodes s)" "prefix q p" "fs_create_dir_all q s = (r, t)" for q s r t
    using that
  proof (induction q s arbitrary: r t rule: fs_create_dir_all.induct)
    case (1 q s)
    obtain r1 s1 where m1: "fs_mkdir q s = (r1, s1)" by force
    have P1: "P (fs_nodes s1)" by (rule mk [OF 1(2,3) m1])
    show ?case
    proof (cases "q = [] \<or> r1 \<noteq> Inl Io_NotFound")
      case True
      then show ?thesis using 1(2,4) m1 P1
        by (auto simp: fs_create_dir_all.simps [of q s] split: sum.splits if_splits)
    next
      case False
      obtain r2 s2 where m2: "fs_create_dir_all (butlast q) s1 = (r2, s2)" by force
      have pre: "prefix (butlast q) p"
        using 1(3) prefixeq_butlast [of q] by (rule prefix_order.trans [rotated])
      have P2: "P (fs_nodes s2)" using 1(1) [OF _ m1 [symmetric]] False P1 pre m2 by auto
      obtain r3 s3 where m3: "fs_mkdir q s2 = (r3, s3)" by force
      have P3: "P (fs_nodes s3)" by (rule mk [OF P2 1(3) m3])
      show ?thesis using 1(4) False m1 m2 m3 P2 P3
        by (auto simp: fs_create_dir_all.simps [of q s] split: sum.splits if_splits)
    qed
  qed
  note k = this [OF _ prefix_order.refl]
  show ?thesis by (rule hoareI) (rule k, assumption+)+
qed

subsection \<open>Frames\<close>

text \<open>A predicate that no change at the paths \<open>W\<close> disturbs; programs that only write there keep it.\<close>

definition frame_on :: "(path \<Rightarrow> bool) \<Rightarrow> (nodes \<Rightarrow> bool) \<Rightarrow> bool" where
  "frame_on W P \<longleftrightarrow> (\<forall>N q v. W q \<longrightarrow> P N \<longrightarrow> P (N(q := v)))"

lemma frame_onD: "frame_on W P \<Longrightarrow> W q \<Longrightarrow> P N \<Longrightarrow> P (N(q := v))"
  by (simp add: frame_on_def)

named_theorems keeps_rules

lemma keeps_basic [keeps_rules]:
  "keeps P (io_return x)" "keeps P (io_fail e)" "keeps P (io_lift r)"
  by (auto intro: hoare_rules)

lemma keeps_bind [keeps_rules]: "keeps P m \<Longrightarrow> (\<And>x. keeps P (f x)) \<Longrightarrow> keeps P (io_bind m f)"
  by (rule hoare_bind)

lemma keeps_wrap [keeps_rules]:
  "keeps P m \<Longrightarrow> keeps P (io_map_err g m)" "keeps P m \<Longrightarrow> keeps P (io_try m)"
  "keeps P m \<Longrightarrow> keeps P (io_ignore m)" "keeps P m \<Longrightarrow> keeps P h \<Longrightarrow> keeps P (io_on_error m h)"
  by (simp_all add: hoare_map_err hoare_try hoare_ignore hoare_on_error)

lemma keeps_reads [keeps_rules]:
  "keeps P (fs_read p)" "keeps P (fs_read_to_string p)" "keeps P (fs_metadata p)"
  "keeps P (fs_exists p)" "keeps P fs_sync"
  by (auto intro: hoare_rules)

lemma keeps_writes:
  assumes "frame_on W P" and "W p"
  shows "keeps P (fs_write p c)" and "keeps P (fs_set_permissions p m)" and "keeps P (fs_remove_file p)"
  using frame_onD [OF assms] by (auto intro!: hoare_rules)

lemma keeps_rename: "frame_on W P \<Longrightarrow> W p \<Longrightarrow> W q \<Longrightarrow> keeps P (fs_rename p q)"
  by (rule hoare_rename) (auto intro: frame_onD)

lemma keeps_create_dirs:
  "frame_on W P \<Longrightarrow> (\<And>q. q \<noteq> [] \<Longrightarrow> prefix q p \<Longrightarrow> W q) \<Longrightarrow> keeps P (fs_create_dir_all p)"
  by (rule keeps_create_dir_all) (auto intro: frame_onD)

subsection \<open>Undisturbed execution\<close>

definition calm :: "fs \<Rightarrow> bool" where
  "calm s \<longleftrightarrow> \<not> fs_down s \<and> fs_faults s = []"

lemma io_call_calm [simp]: "calm s \<Longrightarrow> io_call partial act s = act s"
  by (simp add: io_call_def calm_def)

lemma calm_set_node [simp]: "calm (set_node p v s) = calm s"
  by (simp add: calm_def set_node_def)

lemma fs_read_to_string_calm:
  "calm s \<Longrightarrow> fs_nodes s p = Some (File c m) \<Longrightarrow> from_utf8 c = Some raw \<Longrightarrow>
   fs_read_to_string p s = (Inr raw, s)"
  by (simp add: fs_read_to_string_def fs_read_def io_bind_def io_lift_def ok_or_def)


lemma io_bind_map_err_ok: "m s = (Inr x, s1) \<Longrightarrow> io_bind (io_map_err g m) f s = f x s1"
  by (simp add: io_bind_def io_map_err_def)

subsection \<open>Triples over a known state\<close>

lemma known_read:
  assumes "\<And>e. E (g e) N0"
    and "\<And>c m. N0 p = Some (File (string_bytes c) m) \<Longrightarrow> hoare (\<lambda>N. N = N0) (f c) Q E"
  shows "hoare (\<lambda>N. N = N0) (io_bind (io_map_err g (fs_read_to_string p)) f) Q E"
proof (rule hoare_bind)
  show "hoare (\<lambda>N. N = N0) (io_map_err g (fs_read_to_string p))
      (\<lambda>c N. N = N0 \<and> (\<exists>m. N0 p = Some (File (string_bytes c) m))) E"
    unfolding hoare_map_err by (rule hoare_read_to_string) (auto intro: assms(1))
  show "hoare (\<lambda>N. N = N0 \<and> (\<exists>m. N0 p = Some (File (string_bytes c) m))) (f c) Q E" for c
    by (rule hoare_pure) (auto intro: assms(2))
qed

lemma known_lift:
  assumes "\<And>e. r = Inl e \<Longrightarrow> E e N0" and "\<And>x. r = Inr x \<Longrightarrow> hoare (\<lambda>N. N = N0) (f x) Q E"
  shows "hoare (\<lambda>N. N = N0) (io_bind (io_lift r) f) Q E"
proof (cases r)
  case (Inl e)
  then show ?thesis using assms(1) by (auto simp: hoare_def io_bind_def io_lift_def)
next
  case (Inr x)
  then show ?thesis using assms(2) by (simp add: io_bind_def io_lift_def hoare_def)
qed

lemma hoare_if: "(b \<Longrightarrow> hoare P x Q E) \<Longrightarrow> (\<not> b \<Longrightarrow> hoare P y Q E) \<Longrightarrow> hoare P (if b then x else y) Q E"
  by simp

end
