(* ===== verification/Rpc.thy ===== *)
theory Rpc
  imports Rust_Std
begin

section \<open>Framing between the PAM module and the daemon\<close>

text \<open>
  \<open>syauth-presenced/src/rpc.rs\<close>: the requests and responses, and the length-prefixed frames that carry
  them. The CBOR codec (crate \<open>ciborium\<close>) is a parameter. A reader is the bytes it will still deliver;
  \<open>read_exact\<close> of more than that is an I/O error that has consumed them. A writer is the outcome of
  \<open>write_all\<close> on a buffer and of \<open>flush\<close>.
\<close>

definition RPC_MAX_FRAME_LEN :: nat where "RPC_MAX_FRAME_LEN = 64 * 1024"
definition LENGTH_PREFIX_BYTES :: nat where "LENGTH_PREFIX_BYTES = 4"

datatype request =
    Req_Challenge string bytes
  | Req_Reload
  | Req_Status

record peer_status =
  ps_peer_id :: string
  ps_last_challenge_ms_ago :: "u64 option"
  ps_last_connect_ms_ago :: "u64 option"
  ps_current_session_uuid :: bytes
  ps_in_flight_challenges :: u32

text \<open>A \<open>SystemTime\<close> is its distance from the epoch in nanoseconds, negative before it.\<close>

type_synonym system_time = int

datatype response =
    Resp_Challenge bool "bytes option" string
  | Resp_Reload bool
  | Resp_Status "peer_status list" system_time

datatype rpc_error =
    Rpc_Io string
  | Rpc_Decode string
  | Rpc_Encode string
  | Rpc_TooLarge u32 nat

record 'a cbor =
  cbor_into :: "'a \<Rightarrow> (string, bytes) result"
  cbor_from :: "bytes \<Rightarrow> (string, 'a) result"

text \<open>What the program relies on: the codec reads back what it wrote.\<close>

definition cbor_laws :: "'a cbor \<Rightarrow> bool" where
  "cbor_laws c \<longleftrightarrow> (\<forall>v p. cbor_into c v = Inr p \<longrightarrow> cbor_from c p = Inr v)"

definition len_u32 :: "nat \<Rightarrow> u32" where
  "len_u32 n = (case u32_try_from n of Some w \<Rightarrow> w | None \<Rightarrow> - 1)"

definition encode_frame :: "'a cbor \<Rightarrow> 'a \<Rightarrow> (rpc_error, bytes) result" where
  "encode_frame c v =
     result_bind (result_map_err Rpc_Encode (cbor_into c v)) (\<lambda>payload.
       if length payload > RPC_MAX_FRAME_LEN then Inl (Rpc_TooLarge (len_u32 (length payload)) RPC_MAX_FRAME_LEN)
       else result_bind (ok_or (Rpc_TooLarge (- 1) RPC_MAX_FRAME_LEN) (u32_try_from (length payload))) (\<lambda>len.
         Inr (u32_to_be len @ payload)))"

definition decode_frame :: "'a cbor \<Rightarrow> bytes \<Rightarrow> (rpc_error, 'a) result" where
  "decode_frame c bs =
     (if length bs > RPC_MAX_FRAME_LEN then Inl (Rpc_TooLarge (len_u32 (length bs)) RPC_MAX_FRAME_LEN)
      else result_map_err Rpc_Decode (cbor_from c bs))"

definition read_exact :: "nat \<Rightarrow> bytes \<Rightarrow> (rpc_error, bytes) result \<times> bytes" where
  "read_exact n bs = (if length bs < n then (Inl (Rpc_Io ''failed to fill whole buffer''), []) else (Inr (take n bs), drop n bs))"

text \<open>The result and what is left unread.\<close>

definition read_frame :: "'a cbor \<Rightarrow> bytes \<Rightarrow> (rpc_error, 'a) result \<times> bytes" where
  "read_frame c bs =
     (case read_exact LENGTH_PREFIX_BYTES bs of
        (Inl e, rest) \<Rightarrow> (Inl e, rest)
      | (Inr len_buf, rest) \<Rightarrow>
          let announced = u32_from_be len_buf in
          if unat announced > RPC_MAX_FRAME_LEN then (Inl (Rpc_TooLarge announced RPC_MAX_FRAME_LEN), rest)
          else case read_exact (unat announced) rest of
                 (Inl e, rest') \<Rightarrow> (Inl e, rest')
               | (Inr payload, rest') \<Rightarrow> (decode_frame c payload, rest'))"

definition read_frame_blocking :: "'a cbor \<Rightarrow> bytes \<Rightarrow> (rpc_error, 'a) result \<times> bytes" where
  "read_frame_blocking c bs =
     (case read_exact LENGTH_PREFIX_BYTES bs of
        (Inl e, rest) \<Rightarrow> (Inl e, rest)
      | (Inr len_buf, rest) \<Rightarrow>
          let announced = u32_from_be len_buf in
          if unat announced > RPC_MAX_FRAME_LEN then (Inl (Rpc_TooLarge announced RPC_MAX_FRAME_LEN), rest)
          else case read_exact (unat announced) rest of
                 (Inl e, rest') \<Rightarrow> (Inl e, rest')
               | (Inr payload, rest') \<Rightarrow> (decode_frame c payload, rest'))"

record rpc_writer =
  rw_write_all :: "bytes \<Rightarrow> (string, unit) result"
  rw_flush :: "(string, unit) result"

text \<open>The buffer the peer sees is the second component.\<close>

definition write_frame :: "'a cbor \<Rightarrow> rpc_writer \<Rightarrow> 'a \<Rightarrow> (rpc_error, unit) result \<times> bytes" where
  "write_frame c w v =
     (case encode_frame c v of
        Inl e \<Rightarrow> (Inl e, [])
      | Inr framed \<Rightarrow>
          (case rw_write_all w framed of
             Inl e \<Rightarrow> (Inl (Rpc_Io e), [])
           | Inr u \<Rightarrow> (result_map_err Rpc_Io (rw_flush w), framed)))"

definition write_frame_blocking :: "'a cbor \<Rightarrow> rpc_writer \<Rightarrow> 'a \<Rightarrow> (rpc_error, unit) result \<times> bytes" where
  "write_frame_blocking c w v =
     (case encode_frame c v of
        Inl e \<Rightarrow> (Inl e, [])
      | Inr framed \<Rightarrow>
          (case rw_write_all w framed of
             Inl e \<Rightarrow> (Inl (Rpc_Io e), [])
           | Inr u \<Rightarrow> (result_map_err Rpc_Io (rw_flush w), framed)))"

text \<open>Whole seconds since the epoch, and back.\<close>

definition NANOS_PER_SEC :: int where "NANOS_PER_SEC = 1000000000"

definition epoch_seconds_serialize :: "system_time \<Rightarrow> int" where
  "epoch_seconds_serialize t = (if t < 0 then 0 else t div NANOS_PER_SEC)"

definition epoch_seconds_deserialize :: "int \<Rightarrow> system_time" where
  "epoch_seconds_deserialize secs = secs * NANOS_PER_SEC"

subsection \<open>Lemmas\<close>

lemma read_frame_blocking_eq: "read_frame_blocking = read_frame"
  by (simp add: fun_eq_iff read_frame_blocking_def read_frame_def)

lemma write_frame_blocking_eq: "write_frame_blocking = write_frame"
  by (simp add: fun_eq_iff write_frame_blocking_def write_frame_def)

lemma encode_frame_InrD:
  assumes "encode_frame c v = Inr framed"
  shows "\<exists>payload len. cbor_into c v = Inr payload \<and> length payload \<le> RPC_MAX_FRAME_LEN \<and>
    unat len = length payload \<and> framed = u32_to_be len @ payload"
proof -
  from assms obtain payload len where "cbor_into c v = Inr payload" "length payload \<le> RPC_MAX_FRAME_LEN"
    "u32_try_from (length payload) = Some len" "framed = u32_to_be len @ payload"
    by (auto simp: encode_frame_def result_bind_Inr_iff split: if_splits)
  then show ?thesis using unat_u32_try_from by blast
qed

lemma read_exact_append: "length a = n \<Longrightarrow> read_exact n (a @ rest) = (Inr a, rest)"
  by (simp add: read_exact_def)

lemma read_frame_encoded:
  assumes "cbor_laws c" "encode_frame c v = Inr framed"
  shows "read_frame c (framed @ rest) = (Inr v, rest)"
proof -
  obtain payload len where p: "cbor_into c v = Inr payload" "length payload \<le> RPC_MAX_FRAME_LEN"
    "unat len = length payload" "framed = u32_to_be len @ payload"
    using encode_frame_InrD [OF assms(2)] by blast
  have "cbor_from c payload = Inr v" using assms(1) p(1) by (simp add: cbor_laws_def)
  then have "decode_frame c payload = Inr v" using p(2) by (simp add: decode_frame_def)
  then show ?thesis
    using p by (simp add: read_frame_def LENGTH_PREFIX_BYTES_def read_exact_append)
qed

subsection \<open>Properties\<close>


definition byte_cbor :: "byte cbor" where
  "byte_cbor = \<lparr>cbor_into = (\<lambda>b. Inr [b]), cbor_from = (\<lambda>bs. case bs of [b] \<Rightarrow> Inr b | _ \<Rightarrow> Inl ''eof'')\<rparr>"

definition open_writer :: rpc_writer where
  "open_writer = \<lparr>rw_write_all = (\<lambda>_. Inr ()), rw_flush = Inr ()\<rparr>"


text \<open>Whatever a peer sends, reading one frame consumes at most the length prefix and 64 KiB of
  payload, or everything when the stream ends early; a length above the cap is refused before
  any payload byte is taken.\<close>

lemma rpc_read_bounded:
  "case read_frame c bs of (r, rest) \<Rightarrow>
     (\<exists>k. rest = drop k bs \<and> (k \<le> LENGTH_PREFIX_BYTES + RPC_MAX_FRAME_LEN \<or> rest = [])) \<and>
     (4 \<le> length bs \<and> unat (u32_from_be (take 4 bs)) > RPC_MAX_FRAME_LEN \<longrightarrow>
        r = Inl (Rpc_TooLarge (u32_from_be (take 4 bs)) RPC_MAX_FRAME_LEN) \<and> rest = drop 4 bs)"
proof (cases "length bs < 4")
  case True
  then show ?thesis
    by (auto simp: read_frame_def read_exact_def LENGTH_PREFIX_BYTES_def intro!: exI [of _ "length bs"])
next
  case False
  let ?n = "unat (u32_from_be (take 4 bs))"
  show ?thesis
  proof (cases "?n > RPC_MAX_FRAME_LEN")
    case True
    with False show ?thesis
      by (auto simp: read_frame_def read_exact_def LENGTH_PREFIX_BYTES_def Let_def intro!: exI [of _ 4])
  next
    case small: False
    show ?thesis
    proof (cases "length (drop 4 bs) < ?n")
      case True
      with False small show ?thesis
        by (auto simp: read_frame_def read_exact_def LENGTH_PREFIX_BYTES_def Let_def intro!: exI [of _ "length bs"])
    next
      case whole: False
      have "drop ?n (drop 4 bs) = drop (4 + ?n) bs" by (simp add: add.commute)
      with False small whole show ?thesis
        by (auto simp: read_frame_def read_exact_def LENGTH_PREFIX_BYTES_def Let_def intro!: exI [of _ "4 + ?n"])
    qed
  qed
qed

lemma rpc_read_bounded_witness:
  "read_frame byte_cbor [0, 1, 0, 1, 7] = (Inl (Rpc_TooLarge 65537 RPC_MAX_FRAME_LEN), [7])"
proof -
  have n: "u32_from_be (take 4 [0, 1, 0, 1, 7]) = 65537"
    by (simp add: u32_from_be_def be_nat_def)
  show ?thesis
    using rpc_read_bounded [where c = byte_cbor and bs = "[0, 1, 0, 1, 7]"] n
    by (cases "read_frame byte_cbor [0, 1, 0, 1, 7]") (simp add: RPC_MAX_FRAME_LEN_def)
qed

end
