(* ===== verification/Pairing_Broker.thy ===== *)
theory Pairing_Broker
  imports Transport_Link File_System Rpc
begin

section \<open>The confirmation broker: \<open>pairing.rs\<close> of syauth-transport\<close>

text \<open>
  The local channel on which the daemon asks the desktop user to confirm a pairing: the three
  messages and their codecs, the framing of the socket, and the broker that asks an in-process
  session or, without one, the socket client. What happens concurrently with a request is a list of
  broker calls (\<open>broker_call\<close>); the end of the list is the end of the waiting time. What the socket
  does is a record of outcomes (\<open>socket_env\<close>).
\<close>

subsection \<open>Messages\<close>

definition PAIR_CONFIRMATION_SOCKET :: string where "PAIR_CONFIRMATION_SOCKET = ''pair-confirm.sock''"
definition PAIR_SESSION_SOCKET :: string where "PAIR_SESSION_SOCKET = ''pair-session.sock''"
definition PAIR_CONFIRMATION_MAGIC :: bytes where [wire_consts]: "PAIR_CONFIRMATION_MAGIC = string_bytes ''SYPC''"
definition PAIR_OOB_MAGIC :: bytes where [wire_consts]: "PAIR_OOB_MAGIC = string_bytes ''SYPO''"
definition PAIR_BONDED_MAGIC :: bytes where [wire_consts]: "PAIR_BONDED_MAGIC = string_bytes ''SYPN''"
definition MAX_PEER_BYTES :: nat where [wire_consts]: "MAX_PEER_BYTES = 256"
definition MAX_FRAME_BYTES :: nat where [wire_consts]: "MAX_FRAME_BYTES = 4096"

record pairing_request =
  pr_id :: u64
  pr_peer :: string
  pr_passkey :: u32

definition pairing_request_encode :: "pairing_request \<Rightarrow> bytes option" where
  "pairing_request_encode r =
     (let peer = string_bytes (pr_peer r) in
      Option.bind (u16_try_from (length peer)) (\<lambda>len.
        if length peer > MAX_PEER_BYTES then None
        else Some (PAIR_CONFIRMATION_MAGIC @ u64_to_be (pr_id r) @ u32_to_be (pr_passkey r) @ u16_to_be len @ peer)))"

definition pairing_request_decode :: "bytes \<Rightarrow> pairing_request option" where
  "pairing_request_decode bs =
     (if length bs < 18 \<or> take 4 bs \<noteq> PAIR_CONFIRMATION_MAGIC then None
      else
        let peer_len = unat (u16_from_be (bslice 16 18 bs)) in
        if peer_len > MAX_PEER_BYTES \<or> length bs \<noteq> 18 + peer_len then None
        else Option.bind (from_utf8 (drop 18 bs)) (\<lambda>peer.
          Some \<lparr>pr_id = u64_from_be (bslice 4 12 bs), pr_peer = peer, pr_passkey = u32_from_be (bslice 12 16 bs)\<rparr>))"

record oob_request =
  or_id :: u64
  or_peer :: string
  or_host_pubkey :: bytes
  or_phone_pubkey :: bytes

definition oob_request_encode :: "oob_request \<Rightarrow> bytes option" where
  "oob_request_encode r =
     (let peer = string_bytes (or_peer r) in
      Option.bind (u16_try_from (length peer)) (\<lambda>peer_len.
        if length peer > MAX_PEER_BYTES then None
        else Some (PAIR_OOB_MAGIC @ u64_to_be (or_id r) @ u16_to_be peer_len @ peer @ or_host_pubkey r @ or_phone_pubkey r)))"

definition oob_request_decode :: "bytes \<Rightarrow> oob_request option" where
  "oob_request_decode bs =
     (if length bs < 14 \<or> take 4 bs \<noteq> PAIR_OOB_MAGIC then None
      else
        let id = u64_from_be (bslice 4 12 bs); peer_len = unat (u16_from_be (bslice 12 14 bs)) in
        if peer_len > MAX_PEER_BYTES \<or> length bs \<noteq> 14 + peer_len + 2 * PAIR_PUBKEY_LEN then None
        else Option.bind (from_utf8 (bslice 14 (14 + peer_len) bs)) (\<lambda>peer.
          Some \<lparr>or_id = id, or_peer = peer,
            or_host_pubkey = bslice (14 + peer_len) (14 + peer_len + PAIR_PUBKEY_LEN) bs,
            or_phone_pubkey = drop (14 + peer_len + PAIR_PUBKEY_LEN) bs\<rparr>))"

record bonded_notice =
  bn_peer :: string

definition bonded_notice_encode :: "bonded_notice \<Rightarrow> bytes option" where
  "bonded_notice_encode n =
     (let peer = string_bytes (bn_peer n) in
      Option.bind (u16_try_from (length peer)) (\<lambda>peer_len.
        if length peer > MAX_PEER_BYTES then None else Some (PAIR_BONDED_MAGIC @ u16_to_be peer_len @ peer)))"

definition bonded_notice_decode :: "bytes \<Rightarrow> bonded_notice option" where
  "bonded_notice_decode bs =
     (if length bs < 6 \<or> take 4 bs \<noteq> PAIR_BONDED_MAGIC then None
      else
        let peer_len = unat (u16_from_be (bslice 4 6 bs)) in
        if peer_len > MAX_PEER_BYTES \<or> length bs \<noteq> 6 + peer_len then None
        else Option.bind (from_utf8 (drop 6 bs)) (\<lambda>peer. Some \<lparr>bn_peer = peer\<rparr>))"

datatype gui_event =
    Gui_Lesc pairing_request
  | Gui_Oob oob_request
  | Gui_Bonded bonded_notice

definition broker_frame :: "bytes \<Rightarrow> bytes option" where
  "broker_frame payload =
     Option.bind (u32_try_from (length payload)) (\<lambda>len.
       if length payload > MAX_FRAME_BYTES then None else Some (u32_to_be len @ payload))"

text \<open>The stream is the bytes the peer will send before it closes; the second component is what is left.\<close>

definition broker_read_frame :: "bytes \<Rightarrow> bytes option \<times> bytes" where
  "broker_read_frame stream =
     (case read_exact 4 stream of
        (Inl e, rest) \<Rightarrow> (None, rest)
      | (Inr header, rest) \<Rightarrow>
          let len = unat (u32_from_be header) in
          if len > MAX_FRAME_BYTES then (None, rest)
          else (case read_exact len rest of
                  (Inl e, rest') \<Rightarrow> (None, rest')
                | (Inr payload, rest') \<Rightarrow> (Some payload, rest')))"

text \<open>The argument is the value of \<open>XDG_RUNTIME_DIR\<close>.\<close>

definition runtime_socket :: "string option \<Rightarrow> string \<Rightarrow> path option" where
  "runtime_socket xdg name =
     (case xdg of
        None \<Rightarrow> None
      | Some v \<Rightarrow> if v = [] then None else Some (path_join (path_join (components v) ''syauth'') name))"

definition pairing_confirmation_socket :: "string option \<Rightarrow> path option" where
  "pairing_confirmation_socket xdg = runtime_socket xdg PAIR_CONFIRMATION_SOCKET"

definition pairing_session_socket :: "string option \<Rightarrow> path option" where
  "pairing_session_socket xdg = runtime_socket xdg PAIR_SESSION_SOCKET"

subsection \<open>The broker\<close>

text \<open>\<open>br_pending\<close> holds the keys of the map of pending requests; the sender stored under a key is
  the one its request waits on.\<close>

record broker =
  br_gui :: bool
  br_pending :: "u64 list"
  br_next_id :: u64
  br_socket_active :: bool

definition broker_new :: broker where
  "broker_new = \<lparr>br_gui = False, br_pending = [], br_next_id = 0, br_socket_active = False\<rparr>"

text \<open>\<open>Inl ()\<close> is \<open>GuiAlreadyConnected\<close>.\<close>

definition register_gui :: "broker \<Rightarrow> (unit, unit) result \<times> broker" where
  "register_gui br = (if br_gui br then (Inl (), br) else (Inr (), br\<lparr>br_gui := True\<rparr>))"

definition unregister_gui :: "broker \<Rightarrow> broker" where
  "unregister_gui br = br\<lparr>br_gui := False, br_pending := []\<rparr>"

definition respond :: "broker \<Rightarrow> u64 \<Rightarrow> bool \<Rightarrow> bool \<times> broker" where
  "respond br i accepted =
     (if i \<in> set (br_pending br) then (True, br\<lparr>br_pending := removeAll i (br_pending br)\<rparr>) else (False, br))"

text \<open>The locked prefix of \<open>request_via_gui\<close>: no session, a request already pending, or the fresh key.\<close>

datatype opened = No_Session | Busy | Opened u64

definition open_request :: "broker \<Rightarrow> opened \<times> broker" where
  "open_request br =
     (if \<not> br_gui br then (No_Session, br)
      else if br_pending br \<noteq> [] then (Busy, br)
      else (Opened (br_next_id br),
            br\<lparr>br_pending := br_next_id br # br_pending br, br_next_id := br_next_id br + 1\<rparr>))"

text \<open>The calls another task can make on the broker; \<open>Expire\<close> is the removal of a request whose
  waiting time is over.\<close>

datatype broker_call =
    Respond u64 bool
  | Unregister_Gui
  | Register_Gui
  | Open_Request
  | Expire u64

primrec broker_step :: "broker \<Rightarrow> broker_call \<Rightarrow> broker" where
  "broker_step br (Respond i b) = snd (respond br i b)"
| "broker_step br Unregister_Gui = unregister_gui br"
| "broker_step br Register_Gui = snd (register_gui br)"
| "broker_step br Open_Request = snd (open_request br)"
| "broker_step br (Expire i) = br\<lparr>br_pending := removeAll i (br_pending br)\<rparr>"

text \<open>What a call sends on the channel of request \<open>i\<close>, if anything.\<close>

primrec resolves :: "u64 \<Rightarrow> broker \<Rightarrow> broker_call \<Rightarrow> bool option" where
  "resolves i br (Respond j b) = (if j = i \<and> i \<in> set (br_pending br) then Some b else None)"
| "resolves i br Unregister_Gui = (if i \<in> set (br_pending br) then Some False else None)"
| "resolves i br Register_Gui = None"
| "resolves i br Open_Request = None"
| "resolves i br (Expire j) = (if j = i \<and> i \<in> set (br_pending br) then Some False else None)"

fun await_decision :: "u64 \<Rightarrow> broker \<Rightarrow> broker_call list \<Rightarrow> bool \<times> broker" where
  "await_decision i br [] = (False, broker_step br (Expire i))"
| "await_decision i br (c # cs) =
     (case resolves i br c of
        Some accepted \<Rightarrow> (accepted, broker_step br c)
      | None \<Rightarrow> await_decision i (broker_step br c) cs)"

definition with_id :: "u64 \<Rightarrow> gui_event \<Rightarrow> gui_event" where
  "with_id i ev =
     (case ev of
        Gui_Lesc r \<Rightarrow> Gui_Lesc (r\<lparr>pr_id := i\<rparr>)
      | Gui_Oob r \<Rightarrow> Gui_Oob (r\<lparr>or_id := i\<rparr>)
      | Gui_Bonded n \<Rightarrow> Gui_Bonded n)"

text \<open>The session: whether it takes the event from its channel, and the broker calls made until the
  deadline, given the event.\<close>

record gui_env =
  ge_send_ok :: bool
  ge_calls :: "gui_event \<Rightarrow> broker_call list"

definition request_via_gui :: "broker \<Rightarrow> gui_event \<Rightarrow> gui_env \<Rightarrow> bool option \<times> broker" where
  "request_via_gui br ev g =
     (case open_request br of
        (No_Session, br1) \<Rightarrow> (None, br1)
      | (Busy, br1) \<Rightarrow> (Some False, br1)
      | (Opened i, br1) \<Rightarrow>
          let ev1 = with_id i ev in
          if \<not> ge_send_ok g then (Some False, unregister_gui br1)
          else (case await_decision i br1 (ge_calls g ev1) of (accepted, br2) \<Rightarrow> (Some accepted, br2)))"

record socket_env =
  se_runtime_dir :: "string option"
  se_connect_ok :: "path \<Rightarrow> bool"
  se_write_ok :: "bytes \<Rightarrow> bool"
  se_response :: "bytes \<Rightarrow> byte option"

definition socket_conversation :: "socket_env \<Rightarrow> bytes \<Rightarrow> bool \<Rightarrow> bool" where
  "socket_conversation se payload expect_response =
     (case pairing_confirmation_socket (se_runtime_dir se) of
        None \<Rightarrow> False
      | Some p \<Rightarrow>
          if \<not> se_connect_ok se p then False
          else (case broker_frame payload of
                  None \<Rightarrow> False
                | Some framed \<Rightarrow>
                    if \<not> se_write_ok se framed then False
                    else if \<not> expect_response then True
                    else se_response se framed = Some 1))"

definition broker_exchange :: "broker \<Rightarrow> socket_env \<Rightarrow> bytes \<Rightarrow> bool \<Rightarrow> bool \<times> broker" where
  "broker_exchange br se payload expect_response =
     (if br_socket_active br then (False, br)
      else
        let br1 = br\<lparr>br_socket_active := True\<rparr>; r = socket_conversation se payload expect_response in
        (r, br1\<lparr>br_socket_active := False\<rparr>))"

definition request_confirmation :: "broker \<Rightarrow> gui_env \<Rightarrow> socket_env \<Rightarrow> string \<Rightarrow> u32 \<Rightarrow> bool \<times> broker" where
  "request_confirmation br g se peer passkey =
     (let r = \<lparr>pr_id = 0, pr_peer = peer, pr_passkey = passkey\<rparr> in
      case request_via_gui br (Gui_Lesc r) g of
        (Some accepted, br1) \<Rightarrow> (accepted, br1)
      | (None, br1) \<Rightarrow>
          (case pairing_request_encode r of
             None \<Rightarrow> (False, br1)
           | Some payload \<Rightarrow> broker_exchange br1 se payload True))"

definition request_oob_confirmation ::
    "broker \<Rightarrow> gui_env \<Rightarrow> socket_env \<Rightarrow> string \<Rightarrow> bytes \<Rightarrow> bytes \<Rightarrow> bool \<times> broker" where
  "request_oob_confirmation br g se peer host_pubkey phone_pubkey =
     (let r = \<lparr>or_id = 0, or_peer = peer, or_host_pubkey = host_pubkey, or_phone_pubkey = phone_pubkey\<rparr> in
      case request_via_gui br (Gui_Oob r) g of
        (Some accepted, br1) \<Rightarrow> (accepted, br1)
      | (None, br1) \<Rightarrow>
          (case oob_request_encode r of
             None \<Rightarrow> (False, br1)
           | Some payload \<Rightarrow> broker_exchange br1 se payload True))"

text \<open>The first component is the payload the notice puts on the socket.\<close>

definition notify_bonded :: "broker \<Rightarrow> socket_env \<Rightarrow> string \<Rightarrow> bytes option \<times> broker" where
  "notify_bonded br se peer =
     (case bonded_notice_encode \<lparr>bn_peer = peer\<rparr> of
        None \<Rightarrow> (None, br)
      | Some payload \<Rightarrow>
          (case broker_exchange br se payload False of (sent, br1) \<Rightarrow> (if sent then Some payload else None, br1)))"

subsection \<open>The codecs\<close>

definition peer_ok :: "string \<Rightarrow> bool" where
  "peer_ok s \<longleftrightarrow> string_ok s \<and> length s \<le> MAX_PEER_BYTES"

lemma length_magic [simp, layout_simps]:
  "length PAIR_CONFIRMATION_MAGIC = 4" "length PAIR_OOB_MAGIC = 4" "length PAIR_BONDED_MAGIC = 4"
  by (simp_all add: wire_consts)

lemma u16_try_from_unat [simp]: "u16_try_from (unat (w :: u16)) = Some w"
  using unsigned_less [of w] by (simp add: u16_try_from_def)

lemma u16_peer_len:
  assumes "length s \<le> MAX_PEER_BYTES"
  shows "u16_try_from (length s) = Some (word_of_nat (length s))"
    and "unat (word_of_nat (length s) :: u16) = length s"
proof -
  have "length s < 2 ^ 16" using assms by (simp add: wire_consts)
  then show t: "u16_try_from (length s) = Some (word_of_nat (length s))" by (simp add: u16_try_from_def)
  show "unat (word_of_nat (length s) :: u16) = length s" by (rule unat_u16_try_from [OF t])
qed

lemma peer_field:
  assumes "from_utf8 p = Some s" "length p = unat (u16_from_be f)" "length f = 2" "\<not> unat (u16_from_be f) > MAX_PEER_BYTES"
  shows "peer_ok s \<and> string_bytes s = p \<and> u16_try_from (length s) = Some (u16_from_be f)"
proof -
  have s: "string_ok s" "string_bytes s = p" using from_utf8_SomeD [OF assms(1)] by simp_all
  then have l: "length s = unat (u16_from_be f)" using assms(2) by (metis length_string_bytes)
  then have "length s \<le> MAX_PEER_BYTES" using assms(4) by simp
  then show ?thesis using s l by (simp add: peer_ok_def)
qed

lemma pairing_request_encode_eq:
  "peer_ok (pr_peer r) \<Longrightarrow> pairing_request_encode r =
     Some (PAIR_CONFIRMATION_MAGIC @ u64_to_be (pr_id r) @ u32_to_be (pr_passkey r) @
       u16_to_be (word_of_nat (length (pr_peer r))) @ string_bytes (pr_peer r))"
  by (simp add: pairing_request_encode_def peer_ok_def u16_peer_len)

lemma pairing_request_decode_encode:
  assumes "string_ok (pr_peer r)" "pairing_request_encode r = Some bs"
  shows "pairing_request_decode bs = Some r"
proof -
  have ok: "peer_ok (pr_peer r)"
    using assms by (auto simp: pairing_request_encode_def peer_ok_def Let_def bind_eq_Some_conv split: if_splits)
  define tail where "tail = string_bytes (pr_peer r)"
  have bs: "bs = PAIR_CONFIRMATION_MAGIC @ u64_to_be (pr_id r) @ u32_to_be (pr_passkey r) @
      u16_to_be (word_of_nat (length (pr_peer r))) @ tail"
    using assms(2) pairing_request_encode_eq [OF ok] by (simp add: tail_def)
  have "bslice 4 12 bs = u64_to_be (pr_id r)" "take 4 bs = PAIR_CONFIRMATION_MAGIC" "drop 18 bs = tail"
    "bslice 12 16 bs = u32_to_be (pr_passkey r)"
    "bslice 16 18 bs = u16_to_be (word_of_nat (length (pr_peer r)))" "length bs = 18 + length tail"
    by (simp_all add: bs bslice_def)
  then show ?thesis
    using ok by (simp add: pairing_request_decode_def peer_ok_def u16_peer_len tail_def)
qed

lemma pairing_request_decode_SomeD:
  assumes "pairing_request_decode bs = Some r"
  shows "string_ok (pr_peer r) \<and> pairing_request_encode r = Some bs"
proof -
  let ?f = "bslice 16 18 bs"
  have d: "18 \<le> length bs" "take 4 bs = PAIR_CONFIRMATION_MAGIC" "\<not> unat (u16_from_be ?f) > MAX_PEER_BYTES"
    "length bs = 18 + unat (u16_from_be ?f)" "from_utf8 (drop 18 bs) = Some (pr_peer r)"
    "pr_id r = u64_from_be (bslice 4 12 bs)" "pr_passkey r = u32_from_be (bslice 12 16 bs)"
    using assms by (auto simp: pairing_request_decode_def Let_def bind_eq_Some_conv split: if_splits)
  have l: "length ?f = 2" "length (bslice 4 12 bs) = 8" "length (bslice 12 16 bs) = 4"
    using d(1) by (simp_all add: bslice_def)
  have p: "peer_ok (pr_peer r) \<and> string_bytes (pr_peer r) = drop 18 bs \<and>
      u16_try_from (length (pr_peer r)) = Some (u16_from_be ?f)"
    by (rule peer_field [OF d(5) _ l(1) d(3)]) (use d(4) in simp)
  have "take 4 bs @ bslice 4 12 bs @ bslice 12 16 bs @ bslice 16 18 bs @ drop 18 bs = bs"
    using d(1) by (simp add: bslice_split flip: bslice_0)
  then show ?thesis
    using p d l by (simp add: pairing_request_encode_def peer_ok_def u64_to_from_be u32_to_from_be u16_to_from_be)
qed

interpretation lesc_codec: codec "\<lambda>r. string_ok (pr_peer r)" pairing_request_encode pairing_request_decode
  by unfold_locales (fact pairing_request_decode_encode, fact pairing_request_decode_SomeD)

definition oob_ok :: "oob_request \<Rightarrow> bool" where
  "oob_ok r \<longleftrightarrow> string_ok (or_peer r) \<and> length (or_host_pubkey r) = PAIR_PUBKEY_LEN \<and>
     length (or_phone_pubkey r) = PAIR_PUBKEY_LEN"

lemma oob_request_decode_encode:
  assumes "oob_ok r" "oob_request_encode r = Some bs"
  shows "oob_request_decode bs = Some r"
proof -
  have ok: "peer_ok (or_peer r)"
    using assms by (auto simp: oob_request_encode_def oob_ok_def peer_ok_def Let_def bind_eq_Some_conv split: if_splits)
  define p where "p = string_bytes (or_peer r)"
  define n where "n = length p"
  have n: "n = length (or_peer r)" by (simp add: n_def p_def)
  have bs: "bs = PAIR_OOB_MAGIC @ u64_to_be (or_id r) @ u16_to_be (word_of_nat n) @ p @ or_host_pubkey r @ or_phone_pubkey r"
    using assms(2) ok by (simp add: oob_request_encode_def p_def n peer_ok_def u16_peer_len)
  have keys: "length (or_host_pubkey r) = 32" "length (or_phone_pubkey r) = 32"
    using assms(1) by (simp_all add: oob_ok_def wire_consts)
  have "bslice 4 12 bs = u64_to_be (or_id r)" "take 4 bs = PAIR_OOB_MAGIC"
    "bslice 12 14 bs = u16_to_be (word_of_nat n)" "bslice 14 (14 + n) bs = p"
    "bslice (14 + n) (14 + n + 32) bs = or_host_pubkey r" "drop (14 + n + 32) bs = or_phone_pubkey r"
    "length bs = 14 + n + 2 * 32"
    using keys by (simp_all add: bs bslice_def n_def)
  then show ?thesis
    using ok u16_peer_len [of "or_peer r"]
    by (simp add: oob_request_decode_def peer_ok_def n [symmetric] p_def PAIR_PUBKEY_LEN_def)
qed

lemma oob_request_decode_SomeD:
  assumes "oob_request_decode bs = Some r"
  shows "oob_ok r \<and> oob_request_encode r = Some bs"
proof -
  let ?f = "bslice 12 14 bs"
  define n where "n = unat (u16_from_be ?f)"
  have d: "14 \<le> length bs" "take 4 bs = PAIR_OOB_MAGIC" "\<not> n > MAX_PEER_BYTES" "length bs = 14 + n + 64"
    "from_utf8 (bslice 14 (14 + n) bs) = Some (or_peer r)" "or_id r = u64_from_be (bslice 4 12 bs)"
    "or_host_pubkey r = bslice (14 + n) (14 + n + 32) bs" "or_phone_pubkey r = drop (14 + n + 32) bs"
    using assms by (auto simp: oob_request_decode_def Let_def bind_eq_Some_conv n_def PAIR_PUBKEY_LEN_def split: if_splits)
  have l: "length ?f = 2" "length (bslice 4 12 bs) = 8" "length (bslice 14 (14 + n) bs) = n"
    using d(1,4) by (simp_all add: bslice_def)
  have p: "peer_ok (or_peer r) \<and> string_bytes (or_peer r) = bslice 14 (14 + n) bs \<and>
      u16_try_from (length (or_peer r)) = Some (u16_from_be ?f)"
    by (rule peer_field [OF d(5) _ l(1)]) (use d(3) l(3) n_def in simp_all)
  have "take 4 bs @ bslice 4 12 bs @ bslice 12 14 bs @ bslice 14 (14 + n) bs @ bslice (14 + n) (14 + n + 32) bs @
      drop (14 + n + 32) bs = bs"
    using d(4) by (simp add: bslice_split del: add.assoc flip: bslice_0)
  moreover have "length (or_host_pubkey r) = 32" "length (or_phone_pubkey r) = 32"
    using d(4) by (simp_all add: d(7,8) bslice_def)
  moreover have "u16_try_from n = Some (u16_from_be ?f)" by (simp add: n_def)
  ultimately show ?thesis
    using p d l by (simp add: oob_request_encode_def oob_ok_def peer_ok_def u64_to_from_be u16_to_from_be PAIR_PUBKEY_LEN_def)
qed

interpretation oob_codec: codec oob_ok oob_request_encode oob_request_decode
  by unfold_locales (fact oob_request_decode_encode, fact oob_request_decode_SomeD)

lemma bonded_notice_decode_encode:
  assumes "string_ok (bn_peer r)" "bonded_notice_encode r = Some bs"
  shows "bonded_notice_decode bs = Some r"
proof -
  have ok: "peer_ok (bn_peer r)"
    using assms by (auto simp: bonded_notice_encode_def peer_ok_def Let_def bind_eq_Some_conv split: if_splits)
  define tail where "tail = string_bytes (bn_peer r)"
  have bs: "bs = PAIR_BONDED_MAGIC @ u16_to_be (word_of_nat (length (bn_peer r))) @ tail"
    using assms(2) ok by (simp add: bonded_notice_encode_def tail_def peer_ok_def u16_peer_len)
  have "take 4 bs = PAIR_BONDED_MAGIC" "drop 6 bs = tail" "length bs = 6 + length tail"
    "bslice 4 6 bs = u16_to_be (word_of_nat (length (bn_peer r)))"
    by (simp_all add: bs bslice_def)
  then show ?thesis
    using ok by (simp add: bonded_notice_decode_def peer_ok_def u16_peer_len tail_def)
qed

lemma bonded_notice_decode_SomeD:
  assumes "bonded_notice_decode bs = Some r"
  shows "string_ok (bn_peer r) \<and> bonded_notice_encode r = Some bs"
proof -
  let ?f = "bslice 4 6 bs"
  have d: "6 \<le> length bs" "take 4 bs = PAIR_BONDED_MAGIC" "\<not> unat (u16_from_be ?f) > MAX_PEER_BYTES"
    "length bs = 6 + unat (u16_from_be ?f)" "from_utf8 (drop 6 bs) = Some (bn_peer r)"
    using assms by (auto simp: bonded_notice_decode_def Let_def bind_eq_Some_conv split: if_splits)
  have l: "length ?f = 2" using d(1) by (simp add: bslice_def)
  have p: "peer_ok (bn_peer r) \<and> string_bytes (bn_peer r) = drop 6 bs \<and>
      u16_try_from (length (bn_peer r)) = Some (u16_from_be ?f)"
    by (rule peer_field [OF d(5) _ l d(3)]) (use d(4) in simp)
  have "take 4 bs @ bslice 4 6 bs @ drop 6 bs = bs"
    using d(1) by (simp add: bslice_split flip: bslice_0)
  then show ?thesis
    using p d l by (simp add: bonded_notice_encode_def peer_ok_def u16_to_from_be)
qed

interpretation bonded_codec: codec "\<lambda>r. string_ok (bn_peer r)" bonded_notice_encode bonded_notice_decode
  by unfold_locales (fact bonded_notice_decode_encode, fact bonded_notice_decode_SomeD)

lemma broker_read_framed:
  assumes "broker_frame payload = Some framed"
  shows "broker_read_frame (framed @ rest) = (Some payload, rest)"
proof -
  from assms obtain len where "u32_try_from (length payload) = Some len" "length payload \<le> MAX_FRAME_BYTES"
    "framed = u32_to_be len @ payload"
    by (auto simp: broker_frame_def bind_eq_Some_conv split: if_splits)
  moreover from this(1) have "unat len = length payload" by (rule unat_u32_try_from)
  ultimately show ?thesis by (simp add: broker_read_frame_def read_exact_append)
qed

subsection \<open>Decisions\<close>

definition one_pending :: "broker \<Rightarrow> bool" where
  "one_pending br \<longleftrightarrow> br_pending br = [] \<or> br_gui br \<and> br_pending br = [br_next_id br - 1]"

lemma broker_step_one_pending: "one_pending br \<Longrightarrow> one_pending (broker_step br c)"
  by (cases c) (auto simp: one_pending_def respond_def unregister_gui_def register_gui_def open_request_def)

interpretation broker_kept: preserved broker_step one_pending
  by unfold_locales (rule broker_step_one_pending)

text \<open>The first call that settles request \<open>i\<close>.\<close>

definition verdict :: "u64 \<Rightarrow> broker_call list \<Rightarrow> broker_call option" where
  "verdict i cs = find (\<lambda>c. c \<in> {Respond i True, Respond i False, Unregister_Gui, Expire i}) cs"

lemma await_decision_exact:
  assumes "br_gui br" "br_pending br = [i]"
  shows "(fst (await_decision i br cs) \<longleftrightarrow> verdict i cs = Some (Respond i True)) \<and>
    br_pending (snd (await_decision i br cs)) = [] \<and>
    br_socket_active (snd (await_decision i br cs)) = br_socket_active br"
  using assms
proof (induction cs arbitrary: br)
  case Nil
  then show ?case by (simp add: verdict_def)
next
  case (Cons c cs)
  show ?case
  proof (cases "resolves i br c")
    case None
    then have "broker_step br c = br" and "c \<notin> {Respond i True, Respond i False, Unregister_Gui, Expire i}"
      using Cons.prems by (cases c; auto simp: respond_def register_gui_def open_request_def split: if_splits)+
    with None Cons show ?thesis by (simp add: verdict_def)
  next
    case (Some b)
    then have "br_pending (broker_step br c) = []" "br_socket_active (broker_step br c) = br_socket_active br"
      "c \<in> {Respond i True, Respond i False, Unregister_Gui, Expire i}" "b \<longleftrightarrow> c = Respond i True"
      using Cons.prems by (cases c; auto simp: respond_def unregister_gui_def split: if_splits)+
    with Some show ?thesis by (simp add: verdict_def)
  qed
qed

lemma request_via_gui_exact:
  "fst (request_via_gui br ev g) =
     (if \<not> br_gui br then None
      else Some (br_pending br = [] \<and> ge_send_ok g \<and>
        verdict (br_next_id br) (ge_calls g (with_id (br_next_id br) ev)) = Some (Respond (br_next_id br) True)))"
  "br_pending (snd (request_via_gui br ev g)) = br_pending br"
  "br_socket_active (snd (request_via_gui br ev g)) = br_socket_active br"
proof -
  let ?i = "br_next_id br"
  let ?br = "br\<lparr>br_pending := [?i], br_next_id := ?i + 1\<rparr>"
  have a: "br_gui br \<Longrightarrow>
    (fst (await_decision ?i ?br cs) \<longleftrightarrow> verdict ?i cs = Some (Respond ?i True)) \<and>
    br_pending (snd (await_decision ?i ?br cs)) = [] \<and>
    br_socket_active (snd (await_decision ?i ?br cs)) = br_socket_active br" for cs
    using await_decision_exact [of ?br ?i cs] by simp
  note d = request_via_gui_def open_request_def Let_def case_prod_beta unregister_gui_def
  show "fst (request_via_gui br ev g) =
     (if \<not> br_gui br then None
      else Some (br_pending br = [] \<and> ge_send_ok g \<and>
        verdict ?i (ge_calls g (with_id ?i ev)) = Some (Respond ?i True)))"
    using a by (simp add: d)
  show "br_pending (snd (request_via_gui br ev g)) = br_pending br" using a by (simp add: d)
  show "br_socket_active (snd (request_via_gui br ev g)) = br_socket_active br" using a by (simp add: d)
qed

lemma broker_exchange_exact:
  "fst (broker_exchange br se payload e) \<longleftrightarrow> \<not> br_socket_active br \<and> socket_conversation se payload e"
  "br_pending (snd (broker_exchange br se payload e)) = br_pending br"
  "br_socket_active (snd (broker_exchange br se payload e)) = br_socket_active br"
  by (auto simp: broker_exchange_def Let_def)

lemma socket_accepts_iff:
  "socket_conversation se payload True \<longleftrightarrow>
     (\<exists>p framed. pairing_confirmation_socket (se_runtime_dir se) = Some p \<and> se_connect_ok se p \<and>
        broker_frame payload = Some framed \<and> se_write_ok se framed \<and> se_response se framed = Some 1)"
  by (auto simp: socket_conversation_def split: option.splits)

lemma oob_decision_lemma:
  "case request_oob_confirmation br g se peer host phone of (accepted, br') \<Rightarrow>
     (accepted \<longleftrightarrow>
       (if br_gui br
        then br_pending br = [] \<and> ge_send_ok g \<and>
          verdict (br_next_id br) (ge_calls g (Gui_Oob \<lparr>or_id = br_next_id br, or_peer = peer,
            or_host_pubkey = host, or_phone_pubkey = phone\<rparr>)) = Some (Respond (br_next_id br) True)
        else \<not> br_socket_active br \<and>
          (\<exists>p payload framed.
             oob_request_encode \<lparr>or_id = 0, or_peer = peer, or_host_pubkey = host, or_phone_pubkey = phone\<rparr> = Some payload \<and>
             pairing_confirmation_socket (se_runtime_dir se) = Some p \<and> se_connect_ok se p \<and>
             broker_frame payload = Some framed \<and> se_write_ok se framed \<and> se_response se framed = Some 1))) \<and>
     br_pending br' = br_pending br \<and> br_socket_active br' = br_socket_active br"
proof -
  let ?ev = "Gui_Oob \<lparr>or_id = 0, or_peer = peer, or_host_pubkey = host, or_phone_pubkey = phone\<rparr>"
  note g = request_via_gui_exact [of br ?ev g]
  have "snd (request_via_gui br ?ev g) = br" if "\<not> br_gui br"
    using that by (simp add: request_via_gui_def open_request_def)
  with g show ?thesis
    by (cases "request_via_gui br ?ev g")
       (auto simp: request_oob_confirmation_def Let_def with_id_def case_prod_beta broker_exchange_exact socket_accepts_iff
         split: option.splits if_splits)
qed

subsection \<open>Properties\<close>

text \<open>The broker's messages. Each of the three decoders accepts exactly the encodings of its
  messages, and a framed payload is read back with what followed it left in the stream.\<close>

lemma broker_messages_exact:
  "(pairing_request_decode bs = Some r \<longleftrightarrow> string_ok (pr_peer r) \<and> pairing_request_encode r = Some bs) \<and>
   (oob_request_decode bs = Some q \<longleftrightarrow> oob_ok q \<and> oob_request_encode q = Some bs) \<and>
   (bonded_notice_decode bs = Some n \<longleftrightarrow> string_ok (bn_peer n) \<and> bonded_notice_encode n = Some bs) \<and>
   (case broker_frame bs of
      None \<Rightarrow> length bs > MAX_FRAME_BYTES
    | Some framed \<Rightarrow> broker_read_frame (framed @ rest) = (Some bs, rest))"
proof -
  have "length bs > MAX_FRAME_BYTES" if "broker_frame bs = None"
    using that by (auto simp: broker_frame_def u32_try_from_def wire_consts split: if_splits)
  then show ?thesis
    by (auto simp: lesc_codec.dec_iff oob_codec.dec_iff bonded_codec.dec_iff broker_read_framed
        simp del: not_less split: option.split)
qed

text \<open>C10: the trust decision is the user's. The broker accepts a pairing exactly when the registered
  session, asked about this request alone, answers it with yes before anything else settles it, or,
  without a session, when the socket client answers the framed request with the byte 1. Every other
  course (no user interface, a second request, a lost session, a timeout, a foreign answer) is a
  refusal, and no request stays pending.\<close>

theorem oob_decision_exact:
  "case request_oob_confirmation br g se peer host phone of (accepted, br') \<Rightarrow>
     (accepted \<longleftrightarrow>
       (if br_gui br
        then br_pending br = [] \<and> ge_send_ok g \<and>
          verdict (br_next_id br) (ge_calls g (Gui_Oob \<lparr>or_id = br_next_id br, or_peer = peer,
            or_host_pubkey = host, or_phone_pubkey = phone\<rparr>)) = Some (Respond (br_next_id br) True)
        else \<not> br_socket_active br \<and>
          (\<exists>p payload framed.
             oob_request_encode \<lparr>or_id = 0, or_peer = peer, or_host_pubkey = host, or_phone_pubkey = phone\<rparr> = Some payload \<and>
             pairing_confirmation_socket (se_runtime_dir se) = Some p \<and> se_connect_ok se p \<and>
             broker_frame payload = Some framed \<and> se_write_ok se framed \<and> se_response se framed = Some 1))) \<and>
     br_pending br' = br_pending br \<and> br_socket_active br' = br_socket_active br"
  by (rule oob_decision_lemma)

text \<open>C39: one question at a time. However sessions come and go, requests are opened, answered and
  expire, at most one request is pending; it belongs to a registered session and carries the most
  recently assigned identifier, so an answer to an earlier question can never settle it.\<close>

theorem broker_single_request:
  "case foldl broker_step broker_new cs of br \<Rightarrow>
     br_pending br = [] \<or> br_gui br \<and> br_pending br = [br_next_id br - 1]"
  using broker_kept.run_keeps [of broker_new cs] by (simp add: one_pending_def broker_new_def)

end
