(* ===== verification/Pair_Engine.thy ===== *)
theory Pair_Engine
  imports Pair_Transaction Pairing_Broker "HOL-Library.Sublist"
begin

section \<open>The pair engine: \<open>pair_engine.rs\<close> of syauth-transport\<close>

text \<open>
  The desktop end of a pairing: the state behind the characteristics of the pairing service, the
  reader of the control characteristic, and the driver that runs the V2 transaction over them.
  The driver is asynchronous code with sleeps; what happens while it sleeps is a script. Each sleep
  (or wait for another task) consumes one entry of \<open>en_wakes\<close>: the writes and reads of the phone
  that arrive in the meantime, and whether the deadline of the current wait has passed on waking.
  Past the end of the script nothing arrives any more and every deadline passes. The task at the other end
  of the commit channel is a function \<open>ev_commit\<close> on its own state, so that the daemon's consumer
  can be put there.
\<close>

subsection \<open>Frames on the control characteristic\<close>

text \<open>The loop of \<open>frame_control_payload\<close> as it is written, by offset; the accumulator holds what
  \<open>accept\<close> was called with.\<close>

partial_function (option) frame_control_loop :: "bytes \<Rightarrow> nat \<Rightarrow> bytes list \<Rightarrow> bytes list option" where
  "frame_control_loop payload offset accepted =
     (if offset < length payload then
        let rest = drop offset payload in
        if length rest \<ge> STATUS_MESSAGE_LEN \<and> is_ok (status_decode (take STATUS_MESSAGE_LEN rest))
        then frame_control_loop payload (offset + STATUS_MESSAGE_LEN) (accepted @ [take STATUS_MESSAGE_LEN rest])
        else if length rest \<ge> MESSAGE_LEN \<and> is_ok (message_decode (take MESSAGE_LEN rest))
        then frame_control_loop payload (offset + MESSAGE_LEN) (accepted @ [take MESSAGE_LEN rest])
        else frame_control_loop payload (offset + 1) accepted
      else Some accepted)"

definition frame_control_payload :: "bytes \<Rightarrow> bytes list option" where
  "frame_control_payload payload = frame_control_loop payload 0 []"

text \<open>One poll of a reader: bytes (as many as are there, of which the buffer takes a part), or end of
  stream, error or end of the window.\<close>

datatype read_outcome = Read_Bytes bytes | Read_Stop

definition READ_CHUNK :: nat where "READ_CHUNK = 64"

partial_function (option) read_bounded_loop :: "nat \<Rightarrow> bytes \<Rightarrow> read_outcome list \<Rightarrow> bytes option" where
  "read_bounded_loop max_len out rs =
     (case rs of
        [] \<Rightarrow> Some out
      | Read_Stop # rs' \<Rightarrow> Some out
      | Read_Bytes c # rs' \<Rightarrow>
          let room = min (max_len - length out) READ_CHUNK; got = take room c in
          if got = [] then Some out
          else if length (out @ got) \<ge> max_len then Some (out @ got)
          else read_bounded_loop max_len (out @ got) (if length c \<le> room then rs' else Read_Bytes (drop room c) # rs'))"

text \<open>The outer option is whether the loop ends, the inner one the function's own result.\<close>

definition read_bounded :: "nat \<Rightarrow> read_outcome list \<Rightarrow> bytes option option" where
  "read_bounded max_len rs = map_option (\<lambda>out. if out = [] then None else Some out) (read_bounded_loop max_len [] rs)"

definition PAIR_CONTROL_MAX_BYTES :: nat where "PAIR_CONTROL_MAX_BYTES = 256"

subsection \<open>The state of the pairing service\<close>

record pair_service_state =
  ps_host_pubkey :: bytes
  ps_host_name :: bytes
  ps_status :: bytes
  ps_unread :: bool
  ps_inbox :: "bytes list"
  ps_session :: "(bytes \<times> status_state) option"

definition ps_new :: "bytes \<Rightarrow> bytes \<Rightarrow> pair_service_state" where
  "ps_new host_pubkey host_name = \<lparr>ps_host_pubkey = host_pubkey, ps_host_name = host_name, ps_status = [],
     ps_unread = False, ps_inbox = [], ps_session = None\<rparr>"

definition ps_publish :: "message \<Rightarrow> pair_service_state \<Rightarrow> pair_service_state" where
  "ps_publish m st = st\<lparr>ps_status := message_encode m, ps_unread := True\<rparr>"

definition ps_publish_status :: "status_message \<Rightarrow> pair_service_state \<Rightarrow> pair_service_state" where
  "ps_publish_status m st = st\<lparr>ps_status := status_encode m, ps_unread := True\<rparr>"

definition status_snapshot :: "nat \<Rightarrow> pair_service_state \<Rightarrow> bytes \<times> pair_service_state" where
  "status_snapshot offset st =
     (if offset \<le> length (ps_status st) then drop offset (ps_status st) else [], st\<lparr>ps_unread := False\<rparr>)"

definition begin_session :: "pair_service_state \<Rightarrow> pair_service_state" where
  "begin_session st = st\<lparr>ps_status := [], ps_unread := False, ps_inbox := [], ps_session := None\<rparr>"

definition remember_session :: "bytes \<Rightarrow> status_state \<Rightarrow> pair_service_state \<Rightarrow> pair_service_state" where
  "remember_session i status st = st\<lparr>ps_session := Some (i, status)\<rparr>"

definition current_session :: "pair_service_state \<Rightarrow> (bytes \<times> status_state) option" where
  "current_session st = ps_session st"

definition accept_control :: "bytes \<Rightarrow> pair_service_state \<Rightarrow> pair_service_state" where
  "accept_control bs st =
     (case status_decode bs of
        Inr query \<Rightarrow>
          if sm_state query = None then
            (case current_session st of
               None \<Rightarrow> st
             | Some (i, status) \<Rightarrow>
                 if i = sm_transaction query
                 then ps_publish_status (status_response i (sm_nonce query) status) st else st)
          else st
      | Inl e \<Rightarrow> st\<lparr>ps_inbox := ps_inbox st @ [bs]\<rparr>)"

definition take_message :: "bytes \<Rightarrow> pair_service_state \<Rightarrow> operation option \<times> pair_service_state" where
  "take_message i st =
     (case position (\<lambda>bs. case message_decode bs of Inr m \<Rightarrow> msg_transaction m = i | Inl e \<Rightarrow> False) (ps_inbox st) of
        None \<Rightarrow> (None, st)
      | Some k \<Rightarrow>
          (map_option msg_operation (result_ok (message_decode (ps_inbox st ! k))),
           st\<lparr>ps_inbox := remove_at k (ps_inbox st)\<rparr>))"

subsection \<open>The pairing service\<close>

record pair_characteristic =
  pch_uuid :: uuid
  pch_read :: bool
  pch_encrypt_authenticated_read :: bool
  pch_write :: bool
  pch_write_without_response :: bool
  pch_encrypt_authenticated_write :: bool

definition authenticated_read :: "uuid \<Rightarrow> pair_characteristic" where
  "authenticated_read u = \<lparr>pch_uuid = u, pch_read = True, pch_encrypt_authenticated_read = True, pch_write = False,
     pch_write_without_response = False, pch_encrypt_authenticated_write = False\<rparr>"

definition authenticated_write :: "uuid \<Rightarrow> pair_characteristic" where
  "authenticated_write u = \<lparr>pch_uuid = u, pch_read = False, pch_encrypt_authenticated_read = False, pch_write = True,
     pch_write_without_response = True, pch_encrypt_authenticated_write = True\<rparr>"

definition build_pair_service :: "uuid \<times> pair_characteristic list" where
  "build_pair_service =
     (SYAUTH_PAIR_SERVICE_UUID,
      [authenticated_read SYAUTH_PAIR_HOST_NAME_V1_CHAR_UUID,
       authenticated_read SYAUTH_PAIR_HOST_PUBKEY_CHAR_UUID,
       authenticated_read SYAUTH_PAIR_V2_STATUS_CHAR_UUID,
       authenticated_write SYAUTH_PAIR_V2_CONTROL_CHAR_UUID,
       authenticated_write SYAUTH_PAIR_PHONE_PUBKEY_CHAR_UUID])"

text \<open>The closures that answer reads; \<open>Inl ()\<close> is \<open>ReqError::InvalidOffset\<close>.\<close>

definition read_host_name :: "pair_service_state \<Rightarrow> nat \<Rightarrow> (unit, bytes) result" where
  "read_host_name st offset =
     (if offset \<le> length (ps_host_name st) then Inr (drop offset (ps_host_name st)) else Inl ())"

definition read_host_pubkey :: "pair_service_state \<Rightarrow> (unit, bytes) result" where
  "read_host_pubkey st = Inr (ps_host_pubkey st)"

definition ascii_upper :: "char \<Rightarrow> char" where
  "ascii_upper c = (let n = of_char c :: nat in if 97 \<le> n \<and> n \<le> 122 then char_of (n - 32) else c)"

definition peer_label :: "string \<Rightarrow> string" where
  "peer_label address = map ascii_upper address"

subsection \<open>The commit channel\<close>

datatype pair_commit_phase = PC_Stage | PC_MarkCommit | PC_Promote | PC_Discard | PC_Revoke

record pair_commit_request =
  pq_phase :: pair_commit_phase
  pq_transaction :: bytes
  pq_phone_pubkey :: bytes
  pq_host_pubkey :: bytes
  pq_peer :: string

datatype pair_engine_error = PE_Rejected | PE_Aborted | PE_Uncertain | PE_Persistence

text \<open>What the phone does: a write to the control characteristic (whether the daemon could accept it,
  what its reader yields, and whether the commit channel has room for the revocations in it), or a
  read of the status register. Anything else on the two streams is skipped by the code.\<close>

datatype link_event =
    Control_Write bool "read_outcome list" "bool list"
  | Control_Notify
  | Status_Read nat

type_synonym wake = "link_event list \<times> bool"

text \<open>\<open>en_tx\<close> is the local variable \<open>transaction\<close> of the driver. \<open>en_requests\<close> (the driver's own
  requests with their answers), \<open>en_revoked\<close> (the revocations the reader handed over),
  \<open>en_received\<close> (the operations taken from the inbox) and \<open>en_notices\<close> record the run.\<close>

record 'd engine =
  en_service :: pair_service_state
  en_broker :: broker
  en_daemon :: 'd
  en_tx :: transaction
  en_wakes :: "wake list"
  en_requests :: "(pair_commit_phase \<times> bool) list"
  en_revoked :: "bytes list"
  en_received :: "operation list"
  en_notices :: "bytes list"

record 'd engine_env =
  ev_random :: "bytes option"
  ev_commit :: "pair_commit_request \<Rightarrow> 'd \<Rightarrow> bool \<times> 'd"
  ev_gui :: gui_env
  ev_socket :: socket_env

definition revoke_request :: "bytes \<Rightarrow> pair_commit_request" where
  "revoke_request i = \<lparr>pq_phase = PC_Revoke, pq_transaction = i, pq_phone_pubkey = replicate PAIR_PUBKEY_LEN 0,
     pq_host_pubkey = replicate PAIR_PUBKEY_LEN 0, pq_peer = []\<rparr>"

text \<open>The closure of the control reader, on one frame. The list says for each revocation in turn
  whether \<open>try_send\<close> finds room; past its end there is room.\<close>

definition control_frame :: "'d engine_env \<Rightarrow> bytes \<Rightarrow> bool list \<times> 'd engine \<Rightarrow> bool list \<times> 'd engine" where
  "control_frame ev frame s =
     (case message_decode frame of
        Inr m \<Rightarrow>
          if msg_operation m = Op_Revoke then
            (case fst s of
               False # rooms \<Rightarrow> (rooms, snd s)
             | rooms \<Rightarrow>
                 (tl rooms, (snd s)\<lparr>en_daemon := snd (ev_commit ev (revoke_request (msg_transaction m)) (en_daemon (snd s))),
                    en_revoked := en_revoked (snd s) @ [msg_transaction m]\<rparr>))
          else (fst s, (snd s)\<lparr>en_service := accept_control frame (en_service (snd s))\<rparr>)
      | Inl e \<Rightarrow> (fst s, (snd s)\<lparr>en_service := accept_control frame (en_service (snd s))\<rparr>))"

definition control_payload :: "'d engine_env \<Rightarrow> bool list \<Rightarrow> bytes \<Rightarrow> 'd engine \<Rightarrow> 'd engine" where
  "control_payload ev rooms bs en =
     (case frame_control_payload bs of
        None \<Rightarrow> en
      | Some frames \<Rightarrow> snd (fold (control_frame ev) frames (rooms, en)))"

primrec link_step :: "'d engine_env \<Rightarrow> link_event \<Rightarrow> 'd engine \<Rightarrow> 'd engine" where
  "link_step ev (Control_Write accepted rs rooms) en =
     (if \<not> accepted then en
      else (case read_bounded PAIR_CONTROL_MAX_BYTES rs of
              Some (Some bs) \<Rightarrow> control_payload ev rooms bs en
            | _ \<Rightarrow> en))"
| "link_step ev Control_Notify en = en"
| "link_step ev (Status_Read offset) en = en\<lparr>en_service := snd (status_snapshot offset (en_service en))\<rparr>"

definition absorb :: "'d engine_env \<Rightarrow> link_event list \<Rightarrow> 'd engine \<Rightarrow> 'd engine" where
  "absorb ev es en = fold (link_step ev) es en"

subsection \<open>Waiting\<close>

text \<open>While the driver waits for another task, one entry of the script passes.\<close>

definition pause :: "'d engine_env \<Rightarrow> 'd engine \<Rightarrow> 'd engine" where
  "pause ev en =
     (case en_wakes en of
        [] \<Rightarrow> en
      | (es, late) # ws \<Rightarrow> absorb ev es (en\<lparr>en_wakes := ws\<rparr>))"

fun paced_loop :: "'d engine_env \<Rightarrow> wake list \<Rightarrow> bool \<Rightarrow> 'd engine \<Rightarrow> 'd engine" where
  "paced_loop ev ws late en =
     (if \<not> ps_unread (en_service en) \<or> late then en\<lparr>en_wakes := ws\<rparr>
      else (case ws of
              [] \<Rightarrow> en\<lparr>en_wakes := []\<rparr>
            | (es, late') # ws' \<Rightarrow> paced_loop ev ws' late' (absorb ev es en)))"

definition engine_publish :: "message \<Rightarrow> 'd engine \<Rightarrow> 'd engine" where
  "engine_publish m en = en\<lparr>en_service := ps_publish m (en_service en)\<rparr>"

definition publish_paced :: "'d engine_env \<Rightarrow> message \<Rightarrow> 'd engine \<Rightarrow> 'd engine" where
  "publish_paced ev m en = engine_publish m (paced_loop ev (en_wakes en) False en)"

fun wait_loop ::
    "'d engine_env \<Rightarrow> bytes \<Rightarrow> wake list \<Rightarrow> bool \<Rightarrow> 'd engine \<Rightarrow> (pair_engine_error, operation) result \<times> 'd engine" where
  "wait_loop ev i ws late en =
     (case take_message i (en_service en) of
        (Some oper, st) \<Rightarrow>
          (if is_abort_op oper then Inl PE_Aborted else Inr oper,
           en\<lparr>en_service := st, en_wakes := ws, en_received := en_received en @ [oper]\<rparr>)
      | (None, st) \<Rightarrow>
          if late then (Inl PE_Aborted, en\<lparr>en_wakes := ws\<rparr>)
          else (case ws of
                  [] \<Rightarrow> (Inl PE_Aborted, en\<lparr>en_wakes := []\<rparr>)
                | (es, late') # ws' \<Rightarrow> wait_loop ev i ws' late' (absorb ev es en)))"

declare paced_loop.simps [simp del] wait_loop.simps [simp del]

definition wait_for_operation_within ::
    "'d engine_env \<Rightarrow> bytes \<Rightarrow> 'd engine \<Rightarrow> (pair_engine_error, operation) result \<times> 'd engine" where
  "wait_for_operation_within ev i en = wait_loop ev i (en_wakes en) False en"

definition wait_for_operation ::
    "'d engine_env \<Rightarrow> bytes \<Rightarrow> 'd engine \<Rightarrow> (pair_engine_error, operation) result \<times> 'd engine" where
  "wait_for_operation ev i = wait_for_operation_within ev i"

subsection \<open>The driver\<close>

type_synonym ('d, 'a) eng = "('d engine, pair_engine_error, 'a) stm"

record pair_commit_context =
  cx_transaction_id :: bytes
  cx_host_pubkey :: bytes
  cx_phone_pubkey :: bytes
  cx_peer :: string

definition commit_request :: "'d engine_env \<Rightarrow> pair_commit_context \<Rightarrow> pair_commit_phase \<Rightarrow> ('d, bool) eng" where
  "commit_request ev cx ph en =
     (let en1 = pause ev en in
      case ev_commit ev \<lparr>pq_phase = ph, pq_transaction = cx_transaction_id cx, pq_phone_pubkey = cx_phone_pubkey cx,
          pq_host_pubkey = cx_host_pubkey cx, pq_peer = cx_peer cx\<rparr> (en_daemon en1) of
        (ok, d) \<Rightarrow> (Inr ok, en1\<lparr>en_daemon := d, en_requests := en_requests en1 @ [(ph, ok)]\<rparr>))"

definition apply_remote :: "bytes \<Rightarrow> operation \<Rightarrow> ('d, unit) eng" where
  "apply_remote i oper en =
     (case tx_remote (en_tx en) \<lparr>msg_transaction = i, msg_operation = oper\<rparr> of
        (r, t) \<Rightarrow> (result_map_err (\<lambda>_. PE_Aborted) r, en\<lparr>en_tx := t\<rparr>))"

text \<open>\<open>transaction.local(event).map_err(|_| err)?\<close>, and \<open>let _ = transaction.local(event)\<close>.\<close>

definition local_or :: "pair_engine_error \<Rightarrow> local_event \<Rightarrow> ('d, unit) eng" where
  "local_or err e en =
     (case tx_local (en_tx en) e of (r, t) \<Rightarrow> (result_map_err (\<lambda>_. err) r, en\<lparr>en_tx := t\<rparr>))"

definition local_ignored :: "local_event \<Rightarrow> 'd engine \<Rightarrow> 'd engine" where
  "local_ignored e en = en\<lparr>en_tx := snd (tx_local (en_tx en) e)\<rparr>"

definition remember :: "bytes \<Rightarrow> 'd engine \<Rightarrow> 'd engine" where
  "remember i en = en\<lparr>en_service := remember_session i (tx_status (en_tx en)) (en_service en)\<rparr>"

text \<open>Publish an abort, record it locally and give up with the error.\<close>

definition refuse :: "bytes \<Rightarrow> operation \<Rightarrow> pair_engine_error \<Rightarrow> ('d, 'a) eng" where
  "refuse i oper err en =
     (Inl err, remember i (local_ignored (Ev_Abort oper)
        (engine_publish \<lparr>msg_transaction = i, msg_operation = oper\<rparr> en)))"

definition abort_with_discard :: "'d engine_env \<Rightarrow> pair_commit_context \<Rightarrow> pair_engine_error \<Rightarrow> ('d, 'a) eng" where
  "abort_with_discard ev cx err =
     (let i = cx_transaction_id cx in
      io_bind (io_do (engine_publish \<lparr>msg_transaction = i, msg_operation = Op_Error\<rparr>)) (\<lambda>_.
      io_bind (io_do (local_ignored (Ev_Abort Op_Error))) (\<lambda>_.
      io_bind (io_do (remember i)) (\<lambda>_.
      io_bind (commit_request ev cx PC_Discard) (\<lambda>_.
      io_fail err)))))"

definition request_oob :: "'d engine_env \<Rightarrow> pair_commit_context \<Rightarrow> ('d, bool) eng" where
  "request_oob ev cx en =
     (let en1 = pause ev en in
      case request_oob_confirmation (en_broker en1) (ev_gui ev) (ev_socket ev) (cx_peer cx)
          (cx_host_pubkey cx) (cx_phone_pubkey cx) of
        (accepted, br) \<Rightarrow> (Inr accepted, en1\<lparr>en_broker := br\<rparr>))"

definition announce_bonded :: "'d engine_env \<Rightarrow> string \<Rightarrow> 'd engine \<Rightarrow> 'd engine" where
  "announce_bonded ev peer en =
     (case notify_bonded (en_broker en) (ev_socket ev) peer of
        (sent, br) \<Rightarrow> en\<lparr>en_broker := br,
          en_notices := en_notices en @ (case sent of None \<Rightarrow> [] | Some payload \<Rightarrow> [payload])\<rparr>)"

text \<open>Wait for an operation before the commit boundary is passed for good; anything but \<open>expected\<close>
  ends the attempt and drops the staging.\<close>

definition expect_or_discard :: "'d engine_env \<Rightarrow> pair_commit_context \<Rightarrow> operation \<Rightarrow> ('d, operation) eng" where
  "expect_or_discard ev cx expected =
     io_bind (io_try (wait_for_operation ev (cx_transaction_id cx))) (\<lambda>r.
       case r of
         Inl err \<Rightarrow> abort_with_discard ev cx err
       | Inr oper \<Rightarrow> if oper \<noteq> expected then abort_with_discard ev cx PE_Aborted else io_return oper)"

definition drive_capability :: "'d engine_env \<Rightarrow> pair_commit_context \<Rightarrow> ('d, unit) eng" where
  "drive_capability ev cx =
     (let i = cx_transaction_id cx in
      io_bind (io_do (publish_paced ev \<lparr>msg_transaction = i, msg_operation = Op_Capability\<rparr>)) (\<lambda>_.
      io_bind (wait_for_operation_within ev i) (\<lambda>oper.
      if oper \<noteq> Op_Capability then io_fail PE_Aborted
      else
        io_bind (apply_remote i oper) (\<lambda>_.
        io_bind (local_or PE_Aborted Ev_Capability) (\<lambda>_.
        io_bind (local_or PE_Aborted Ev_VerifiedExchange) (\<lambda>_.
        io_do (remember i)))))))"

definition drive_confirm :: "'d engine_env \<Rightarrow> pair_commit_context \<Rightarrow> ('d, unit) eng" where
  "drive_confirm ev cx =
     (let i = cx_transaction_id cx in
      io_bind (request_oob ev cx) (\<lambda>accepted.
      if \<not> accepted then refuse i Op_Reject PE_Rejected
      else
        io_bind (local_or PE_Aborted Ev_Confirm) (\<lambda>_.
        io_bind (io_do (publish_paced ev \<lparr>msg_transaction = i, msg_operation = Op_Confirm\<rparr>)) (\<lambda>_.
        io_bind (wait_for_operation ev i) (\<lambda>oper.
        if oper \<noteq> Op_Confirm then io_fail PE_Aborted else apply_remote i oper)))))"

definition drive_staging :: "'d engine_env \<Rightarrow> pair_commit_context \<Rightarrow> ('d, unit) eng" where
  "drive_staging ev cx =
     io_bind (commit_request ev cx PC_Stage) (\<lambda>ok.
     if \<not> ok then refuse (cx_transaction_id cx) Op_Error PE_Persistence else io_return ())"

definition drive_prepared :: "'d engine_env \<Rightarrow> pair_commit_context \<Rightarrow> ('d, unit) eng" where
  "drive_prepared ev cx =
     (let i = cx_transaction_id cx in
      io_bind (local_or PE_Aborted Ev_Prepared) (\<lambda>_.
      io_bind (expect_or_discard ev cx Op_Prepared) (\<lambda>oper.
      io_bind (apply_remote i oper) (\<lambda>_.
      io_do (publish_paced ev \<lparr>msg_transaction = i, msg_operation = Op_Prepared\<rparr>)))))"

definition drive_mark :: "'d engine_env \<Rightarrow> pair_commit_context \<Rightarrow> ('d, unit) eng" where
  "drive_mark ev cx =
     io_bind (commit_request ev cx PC_MarkCommit) (\<lambda>ok.
     if \<not> ok then refuse (cx_transaction_id cx) Op_Error PE_Persistence else io_return ())"

definition drive_commit :: "'d engine_env \<Rightarrow> pair_commit_context \<Rightarrow> ('d, unit) eng" where
  "drive_commit ev cx =
     (let i = cx_transaction_id cx in
      io_bind (local_or PE_Aborted Ev_Commit) (\<lambda>_.
      io_bind (io_do (publish_paced ev \<lparr>msg_transaction = i, msg_operation = Op_Commit\<rparr>)) (\<lambda>_.
      io_bind (expect_or_discard ev cx Op_CommitAck) (\<lambda>oper.
      io_bind (apply_remote i oper) (\<lambda>_.
      io_do (remember i))))))"

definition drive_committed :: "'d engine_env \<Rightarrow> pair_commit_context \<Rightarrow> ('d, unit) eng" where
  "drive_committed ev cx =
     (let i = cx_transaction_id cx in
      io_bind (io_do (publish_paced ev \<lparr>msg_transaction = i, msg_operation = Op_Committed\<rparr>)) (\<lambda>_.
      io_bind (io_try (wait_for_operation ev i)) (\<lambda>r.
      if r = Inr Op_Committed then
        io_bind (apply_remote i Op_Committed) (\<lambda>_.
        io_bind (commit_request ev cx PC_Promote) (\<lambda>ok.
        if \<not> ok then
          io_bind (io_do (local_ignored Ev_Disconnected)) (\<lambda>_.
          io_bind (io_do (remember i)) (\<lambda>_. io_fail PE_Persistence))
        else
          io_bind (local_or PE_Uncertain Ev_Committed) (\<lambda>_.
          io_bind (io_do (remember i)) (\<lambda>_.
          io_do (announce_bonded ev (cx_peer cx))))))
      else
        io_bind (io_do (local_ignored Ev_Disconnected)) (\<lambda>_.
        io_bind (io_do (remember i)) (\<lambda>_. io_fail PE_Uncertain)))))"

definition drive_pair_transaction :: "'d engine_env \<Rightarrow> bytes \<Rightarrow> string \<Rightarrow> ('d, unit) eng" where
  "drive_pair_transaction ev phone_pubkey peer en =
     (let host_pubkey = ps_host_pubkey (en_service en) in
      case ev_random ev of
        None \<Rightarrow> (Inl PE_Aborted, en)
      | Some i \<Rightarrow>
          let cx = \<lparr>cx_transaction_id = i, cx_host_pubkey = host_pubkey, cx_phone_pubkey = phone_pubkey, cx_peer = peer\<rparr> in
          io_bind (drive_capability ev cx) (\<lambda>_.
          io_bind (drive_confirm ev cx) (\<lambda>_.
          io_bind (drive_staging ev cx) (\<lambda>_.
          io_bind (drive_prepared ev cx) (\<lambda>_.
          io_bind (drive_mark ev cx) (\<lambda>_.
          io_bind (drive_commit ev cx) (\<lambda>_.
          drive_committed ev cx)))))) (en\<lparr>en_tx := tx_new i Coordinator\<rparr>))"

definition run_pair_attempt :: "'d engine_env \<Rightarrow> bytes \<Rightarrow> string \<Rightarrow> ('d, unit) eng" where
  "run_pair_attempt ev phone_pubkey address en =
     drive_pair_transaction ev phone_pubkey (peer_label address) (en\<lparr>en_service := begin_session (en_service en)\<rparr>)"

subsection \<open>The session loop\<close>

datatype phone_event =
    Phone_Write string bool "read_outcome list"
  | Phone_Notify

fun wait_for_phone_pubkey :: "phone_event list \<Rightarrow> ((bytes \<times> string) \<times> phone_event list) option" where
  "wait_for_phone_pubkey [] = None"
| "wait_for_phone_pubkey (Phone_Notify # es) = wait_for_phone_pubkey es"
| "wait_for_phone_pubkey (Phone_Write address accepted rs # es) =
     (if \<not> accepted then wait_for_phone_pubkey es
      else (case read_bounded PAIR_PUBKEY_LEN rs of
              Some (Some bs) \<Rightarrow>
                if length bs \<noteq> PAIR_PUBKEY_LEN then wait_for_phone_pubkey es else Some ((bs, address), es)
            | _ \<Rightarrow> wait_for_phone_pubkey es))"

lemma wait_for_phone_pubkey_shorter [termination_simp]:
  "wait_for_phone_pubkey es = Some (w, es') \<Longrightarrow> length es' < length es"
  by (induction es rule: wait_for_phone_pubkey.induct) (auto split: if_splits option.splits)

text \<open>Attempt \<open>k\<close> runs in its own environment; the list collects the outcomes.\<close>

function run_pair_session ::
    "(nat \<Rightarrow> 'd engine_env) \<Rightarrow> nat \<Rightarrow> phone_event list \<Rightarrow> 'd engine \<Rightarrow> (pair_engine_error, unit) result list \<times> 'd engine" where
  "run_pair_session evs k es en =
     (case wait_for_phone_pubkey es of
        None \<Rightarrow> ([], en)
      | Some ((pk, address), es') \<Rightarrow>
          (case run_pair_attempt (evs k) pk address (pause (evs k) en) of
             (r, en1) \<Rightarrow> (case run_pair_session evs (Suc k) es' en1 of (rs, en2) \<Rightarrow> (r # rs, en2))))"
  by pat_completeness auto
termination
  by (relation "measure (\<lambda>(evs, k, es, en). length es)") (auto dest: wait_for_phone_pubkey_shorter)

declare run_pair_session.simps [simp del]

subsection \<open>The display name of the desktop\<close>

text \<open>A name is a list of code points. \<open>char::is_whitespace\<close> and \<open>char::is_control\<close>.\<close>

definition is_whitespace :: "nat \<Rightarrow> bool" where
  "is_whitespace c \<longleftrightarrow> 9 \<le> c \<and> c \<le> 13 \<or> c = 32 \<or> c = 133 \<or> c = 160 \<or> c = 5760 \<or> 8192 \<le> c \<and> c \<le> 8202 \<or>
     c = 8232 \<or> c = 8233 \<or> c = 8239 \<or> c = 8287 \<or> c = 12288"

definition is_control :: "nat \<Rightarrow> bool" where
  "is_control c \<longleftrightarrow> c < 32 \<or> 127 \<le> c \<and> c < 160"

definition trim_name :: "nat list \<Rightarrow> nat list" where
  "trim_name cs = rev (dropWhile is_whitespace (rev (dropWhile is_whitespace cs)))"

function pop_to_fit :: "nat list \<Rightarrow> nat list" where
  "pop_to_fit display = (if length (utf8_string display) > 128 then pop_to_fit (butlast display) else display)"
  by pat_completeness auto
termination
proof (relation "measure length")
  fix display
  assume "128 < length (utf8_string display)"
  then have "display \<noteq> []" by (auto simp: utf8_string_def)
  then show "(butlast display, display) \<in> measure length" by simp
qed simp

declare pop_to_fit.simps [simp del]

definition default_host_name :: "nat list" where
  "default_host_name = map of_char ''Computer DeskUnlock''"

definition host_name_payload :: "nat list \<Rightarrow> bytes" where
  "host_name_payload name =
     (let display = pop_to_fit (filter (\<lambda>c. \<not> is_control c) (trim_name name));
          display' = if display = [] then default_host_name else display
      in 1 # map word_of_nat (utf8_string display'))"

subsection \<open>The loops end\<close>

function split_frames :: "bytes \<Rightarrow> bytes list" where
  "split_frames rest =
     (if rest = [] then []
      else if length rest \<ge> STATUS_MESSAGE_LEN \<and> is_ok (status_decode (take STATUS_MESSAGE_LEN rest))
      then take STATUS_MESSAGE_LEN rest # split_frames (drop STATUS_MESSAGE_LEN rest)
      else if length rest \<ge> MESSAGE_LEN \<and> is_ok (message_decode (take MESSAGE_LEN rest))
      then take MESSAGE_LEN rest # split_frames (drop MESSAGE_LEN rest)
      else split_frames (tl rest))"
  by pat_completeness auto
termination
  by (relation "measure length") (auto simp: wire_consts)

declare split_frames.simps [simp del]

lemma frame_control_loop_eq: "frame_control_loop payload offset acc = Some (acc @ split_frames (drop offset payload))"
proof (induction "length payload - offset" arbitrary: offset acc rule: less_induct)
  case less
  have step: "frame_control_loop payload (offset + k) acc' = Some (acc' @ split_frames (drop k (drop offset payload)))"
    if "offset < length payload" "0 < k" for k acc'
    using less [of "offset + k" acc'] that by (simp add: add.commute)
  have pos: "0 < STATUS_MESSAGE_LEN" "0 < MESSAGE_LEN" by (simp_all add: wire_consts)
  have tl: "tl (drop offset payload) = drop 1 (drop offset payload)" by (simp only: drop_Suc One_nat_def drop_0)
  have "offset < length payload \<Longrightarrow>
      frame_control_loop payload (Suc offset) acc = Some (acc @ split_frames (drop (Suc 0) (drop offset payload)))"
    using step [of 1 acc] by (simp del: drop_drop)
  then show ?case
    by (subst frame_control_loop.simps, subst split_frames.simps, unfold tl)
       (use step pos in \<open>simp add: Let_def del: drop_drop\<close>)
qed

lemma frame_control_payload_eq: "frame_control_payload payload = Some (split_frames payload)"
  by (simp add: frame_control_payload_def frame_control_loop_eq)

fun bounded_read :: "nat \<Rightarrow> read_outcome list \<Rightarrow> bytes" where
  "bounded_read n (Read_Bytes c # rs) =
     (if c = [] \<or> n = 0 then [] else if length c \<ge> n then take n c else c @ bounded_read (n - length c) rs)"
| "bounded_read n rs = []"

definition reads_left :: "read_outcome list \<Rightarrow> nat" where
  "reads_left rs = sum_list (map (\<lambda>r. case r of Read_Bytes c \<Rightarrow> Suc (length c) | Read_Stop \<Rightarrow> Suc 0) rs)"

lemma bounded_read_split:
  assumes "c \<noteq> []" "d \<noteq> []"
  shows "bounded_read n (Read_Bytes (c @ d) # rs) =
    (if length c \<ge> n then take n c else c @ bounded_read (n - length c) (Read_Bytes d # rs))"
  using assms by (auto simp: not_le)

lemma read_bounded_loop_eq:
  "length out \<le> m \<Longrightarrow> read_bounded_loop m out rs = Some (out @ bounded_read (m - length out) rs)"
proof (induction "reads_left rs" arbitrary: out rs rule: less_induct)
  case less
  show ?case
  proof (cases rs)
    case Nil
    then show ?thesis by (subst read_bounded_loop.simps) simp
  next
    case (Cons r rs')
    show ?thesis
    proof (cases r)
      case Read_Stop
      with Cons show ?thesis by (subst read_bounded_loop.simps) simp
    next
      case (Read_Bytes c)
      define room where "room = min (m - length out) READ_CHUNK"
      define rest where "rest = (if length c \<le> room then rs' else Read_Bytes (drop room c) # rs')"
      have unfold: "read_bounded_loop m out rs =
          (if take room c = [] then Some out
           else if length (out @ take room c) \<ge> m then Some (out @ take room c)
           else read_bounded_loop m (out @ take room c) rest)"
        by (subst read_bounded_loop.simps) (simp only: Cons Read_Bytes list.case read_outcome.case Let_def room_def rest_def)
      show ?thesis
      proof (cases "take room c = [] \<or> length (out @ take room c) \<ge> m")
        case True
        then show ?thesis
          using less.prems unfolding unfold
          by (auto simp: Cons Read_Bytes room_def READ_CHUNK_def min_def split: if_splits)
      next
        case False
        then have ne: "c \<noteq> []" "room \<noteq> 0" "length out + length (take room c) < m" by auto
        then have "reads_left rest < reads_left rs"
          by (auto simp: rest_def reads_left_def Cons Read_Bytes)
        from less.hyps [OF this, of "out @ take room c"] ne False
        have "read_bounded_loop m out rs =
            Some (out @ take room c @ bounded_read (m - length out - length (take room c)) rest)"
          unfolding unfold by simp
        also have "take room c @ bounded_read (m - length out - length (take room c)) rest = bounded_read (m - length out) rs"
          using ne bounded_read_split [of "take room c" "drop room c" "m - length out" rs']
          by (auto simp: rest_def Cons Read_Bytes)
        finally show ?thesis by simp
      qed
    qed
  qed
qed

lemma read_bounded_eq:
  "read_bounded m rs = Some (let out = bounded_read m rs in if out = [] then None else Some out)"
  by (simp add: read_bounded_def read_bounded_loop_eq)

lemma length_bounded_read: "length (bounded_read n rs) \<le> n"
  by (induction n rs rule: bounded_read.induct) auto

lemma bounded_read_chunks:
  "[] \<notin> set cs \<Longrightarrow> bounded_read n (map Read_Bytes cs) = take n (concat cs)"
  by (induction cs arbitrary: n) (auto simp: bounded_read.simps)

subsection \<open>Coalesced writes\<close>

text \<open>A frame of either kind, and the byte pairs in a transaction identifier that make the tail of a
  message followed by this identifier look like the tail of a status frame.\<close>

type_synonym v2_frame = "message + status_message"

definition frame_bytes :: "v2_frame \<Rightarrow> bytes" where
  "frame_bytes f = (case f of Inl m \<Rightarrow> message_encode m | Inr q \<Rightarrow> status_encode q)"

definition frame_typed_v2 :: "v2_frame \<Rightarrow> bool" where
  "frame_typed_v2 f = (case f of Inl m \<Rightarrow> message_typed m | Inr q \<Rightarrow> status_typed q)"

definition frame_transaction :: "v2_frame \<Rightarrow> bytes" where
  "frame_transaction f = (case f of Inl m \<Rightarrow> msg_transaction m | Inr q \<Rightarrow> sm_transaction q)"

definition looks_like_status :: "bytes \<Rightarrow> bool" where
  "looks_like_status i \<longleftrightarrow> i ! 6 = 12 \<and> i ! 7 = 0 \<or> i ! 6 = 13 \<and> is_ok (status_state_decode (i ! 7))"

lemma frame_bytes_simps [simp]: "frame_bytes (Inl m) = message_encode m" "frame_bytes (Inr q) = status_encode q"
  by (simp_all add: frame_bytes_def)

lemma frame_typed_simps [simp]: "frame_typed_v2 (Inl m) = message_typed m" "frame_typed_v2 (Inr q) = status_typed q"
  by (simp_all add: frame_typed_v2_def)

lemma frame_bytes_start:
  assumes "frame_typed_v2 f"
  shows "\<exists>t. frame_bytes f = TX_VERSION # frame_transaction f @ t \<and> length (frame_transaction f) = 16 \<and> t \<noteq> []"
  using assms
  by (cases f) (auto simp: frame_transaction_def message_encode_def status_encode_def message_typed_def status_typed_def)

lemma status_decode_ok_iff:
  "is_ok (status_decode bs) \<longleftrightarrow> length bs = 27 \<and> bs ! 0 = TX_VERSION \<and>
     (bs ! 25 = 12 \<and> bs ! 26 = 0 \<or> bs ! 25 = 13 \<and> is_ok (status_state_decode (bs ! 26)))"
  by (auto simp: status_decode_def Let_def wire_consts is_ok_def status_state_decode_def split: if_splits)

lemma message_tail_not_status:
  assumes "message_typed m" "frame_typed_v2 f" "\<not> looks_like_status (frame_transaction f)"
  shows "\<not> is_ok (status_decode (take STATUS_MESSAGE_LEN (message_encode m @ frame_bytes f @ rest)))"
proof -
  obtain t where t: "frame_bytes f = TX_VERSION # frame_transaction f @ t" "length (frame_transaction f) = 16"
    using frame_bytes_start [OF assms(2)] by blast
  have l: "length (message_encode m) = 18" using length_message_encode [OF assms(1)] by (simp add: wire_consts)
  have "(message_encode m @ frame_bytes f @ rest) ! 25 = frame_transaction f ! 6"
    "(message_encode m @ frame_bytes f @ rest) ! 26 = frame_transaction f ! 7"
    using l t(2) by (simp_all add: t(1) nth_append)
  then show ?thesis
    using assms(3) by (simp add: status_decode_ok_iff looks_like_status_def wire_consts del: take_append)
qed

lemma split_frames_concat:
  assumes "\<forall>f \<in> set fs. frame_typed_v2 f" "\<forall>f \<in> set (tl fs). \<not> looks_like_status (frame_transaction f)"
  shows "split_frames (concat (map frame_bytes fs)) = map frame_bytes fs"
  using assms
proof (induction fs)
  case (Cons f fs)
  let ?rest = "concat (map frame_bytes fs)"
  have ih: "split_frames ?rest = map frame_bytes fs" using Cons by (cases fs) auto
  have ne: "frame_bytes f \<noteq> []" using frame_bytes_start [of f] Cons.prems by auto
  show ?case
  proof (cases f)
    case (Inr q)
    then have q: "length (status_encode q) = STATUS_MESSAGE_LEN" "status_decode (status_encode q) = Inr q"
      using Cons.prems length_status_encode [of q] status_decode_encode [of q] by simp_all
    then show ?thesis
      using ih ne Inr by (subst split_frames.simps) (simp add: q(1) [symmetric] take_append del: q(1))
  next
    case (Inl m)
    then have typed: "message_typed m" using Cons.prems by simp
    have m: "length (message_encode m) = MESSAGE_LEN" "message_decode (message_encode m) = Inr m"
      using length_message_encode [OF typed] message_decode_encode [OF typed] by simp_all
    have "\<not> (length (message_encode m @ ?rest) \<ge> STATUS_MESSAGE_LEN \<and>
        is_ok (status_decode (take STATUS_MESSAGE_LEN (message_encode m @ ?rest))))"
    proof (cases fs)
      case Nil
      then show ?thesis by (simp add: m(1)) (simp add: wire_consts)
    next
      case (Cons g gs)
      then show ?thesis
        using message_tail_not_status [OF typed, of g "concat (map frame_bytes gs)"] Cons.prems by simp
    qed
    then show ?thesis
      using ih ne Inl m by (subst split_frames.simps) auto
  qed
qed (simp add: split_frames.simps)

lemma split_frames_ok:
  "f \<in> set (split_frames bs) \<Longrightarrow> is_ok (message_decode f) \<or> is_ok (status_decode f)"
  by (induction bs rule: split_frames.induct) (subst (asm) split_frames.simps, auto split: if_splits)

lemma split_frames_short: "length bs < MESSAGE_LEN \<Longrightarrow> split_frames bs = []"
  by (induction bs rule: split_frames.induct) (subst split_frames.simps, auto simp: wire_consts)

lemma split_frames_room: "sum_list (map length (split_frames bs)) \<le> length bs"
proof (induction bs rule: split_frames.induct)
  case (1 rest)
  show ?case
    by (subst split_frames.simps) (use 1 in \<open>auto intro: order_trans\<close>)
qed

subsection \<open>The display name\<close>

lemma utf8_string_snoc: "utf8_string (cs @ [c]) = utf8_string cs @ utf8_char c"
  by (simp add: utf8_string_def)

lemma pop_to_fit_prefix:
  "\<exists>rest. cs = pop_to_fit cs @ rest \<and> length (utf8_string (pop_to_fit cs)) \<le> 128 \<and> (cs \<noteq> [] \<longrightarrow> pop_to_fit cs \<noteq> [])"
proof (induction cs rule: pop_to_fit.induct)
  case (1 cs)
  show ?case
  proof (cases "128 < length (utf8_string cs)")
    case True
    then obtain ds c where cs: "cs = ds @ [c]" by (cases cs rule: rev_cases) (auto simp: utf8_string_def)
    then have "128 < length (utf8_string ds) + 4"
      using True length_utf8_char [of c] by (simp add: utf8_string_snoc)
    then have "ds \<noteq> []" by (auto simp: utf8_string_def)
    moreover have "pop_to_fit cs = pop_to_fit (butlast cs)" using True by (subst pop_to_fit.simps) simp
    moreover obtain rest where "butlast cs = pop_to_fit (butlast cs) @ rest" using 1 [OF True] by blast
    ultimately show ?thesis using 1 [OF True] cs by (intro exI [of _ "rest @ [c]"]) (auto simp flip: append_assoc)
  next
    case False
    then have "pop_to_fit cs = cs" by (subst pop_to_fit.simps) simp
    then show ?thesis using False by simp
  qed
qed

subsection \<open>Properties\<close>

text \<open>C40: the readers of the control characteristic end on every input. Splitting a payload ends after
  finitely many steps, accepts only complete frames and never more bytes than it was given; reading
  a write ends whatever the stream does and yields at most the permitted number of bytes.\<close>

theorem control_readers_end:
  "(\<exists>frames. frame_control_payload bs = Some frames \<and> sum_list (map length frames) \<le> length bs \<and>
      list_all (\<lambda>f. is_ok (message_decode f) \<or> is_ok (status_decode f)) frames) \<and>
   (\<exists>r. read_bounded n rs = Some r \<and> (case r of None \<Rightarrow> True | Some out \<Rightarrow> out \<noteq> [] \<and> length out \<le> n))"
  using split_frames_room [of bs] split_frames_ok [of _ bs] length_bounded_read [of n rs]
  by (auto simp: frame_control_payload_eq list_all_iff read_bounded_eq Let_def)

text \<open>A write that carries several frames back to back is split into exactly these frames, unless the
  transaction identifier of a later frame has the two bytes that complete a status frame in the place
  where the scan looks for them.\<close>

lemma coalesced_frames_split:
  assumes "\<forall>f \<in> set fs. frame_typed_v2 f" and "\<forall>f \<in> set (tl fs). \<not> looks_like_status (frame_transaction f)"
  shows "frame_control_payload (concat (map frame_bytes fs)) = Some (map frame_bytes fs)"
  using split_frames_concat [OF assms] by (simp add: frame_control_payload_eq)

lemma coalesced_frames_split_witness:
  "frame_control_payload
     (message_encode \<lparr>msg_transaction = replicate 16 7, msg_operation = Op_Confirm\<rparr> @
      message_encode \<lparr>msg_transaction = replicate 16 7, msg_operation = Op_Prepared\<rparr>) =
   Some [message_encode \<lparr>msg_transaction = replicate 16 7, msg_operation = Op_Confirm\<rparr>,
         message_encode \<lparr>msg_transaction = replicate 16 7, msg_operation = Op_Prepared\<rparr>]"
  using coalesced_frames_split [of "[Inl \<lparr>msg_transaction = replicate 16 7, msg_operation = Op_Confirm\<rparr>,
      Inl \<lparr>msg_transaction = replicate 16 7, msg_operation = Op_Prepared\<rparr>]"]
  by (simp add: message_typed_def frame_transaction_def looks_like_status_def)

text \<open>The excluded identifiers do occur: with such an identifier both messages of a coalesced write are
  lost, since the scan takes the first message and half of the second for a status query.\<close>

definition unlucky_id :: bytes where
  "unlucky_id = [1, 2, 3, 4, 5, 6, 12, 0, 9, 10, 11, 12, 13, 14, 15, 16]"

lemma coalesced_frames_lost:
  "frame_control_payload
     (message_encode \<lparr>msg_transaction = unlucky_id, msg_operation = Op_Confirm\<rparr> @
      message_encode \<lparr>msg_transaction = unlucky_id, msg_operation = Op_Prepared\<rparr>) =
   Some [message_encode \<lparr>msg_transaction = unlucky_id, msg_operation = Op_Confirm\<rparr> @ [2, 1, 2, 3, 4, 5, 6, 12, 0]]"
proof -
  let ?bs = "message_encode \<lparr>msg_transaction = unlucky_id, msg_operation = Op_Confirm\<rparr> @
    message_encode \<lparr>msg_transaction = unlucky_id, msg_operation = Op_Prepared\<rparr>"
  have "is_ok (status_decode (take STATUS_MESSAGE_LEN ?bs))"
    by (simp add: status_decode_ok_iff message_encode_def unlucky_id_def wire_consts)
  moreover have "split_frames (drop STATUS_MESSAGE_LEN ?bs) = []"
    by (rule split_frames_short) (simp add: message_encode_def unlucky_id_def wire_consts)
  ultimately show ?thesis
    unfolding frame_control_payload_eq
    by (subst split_frames.simps) (simp add: message_encode_def unlucky_id_def wire_consts)
qed

text \<open>The display name. The payload is the version byte 1 followed by at least one and at most 128 bytes
  of well-formed UTF-8 without control characters. They are a prefix of the given name without
  surrounding white space and control characters (all of it when it fits), or the default name
  when nothing is left of it.\<close>

lemma host_name_payload_ok:
  assumes "\<forall>c \<in> set name. scalar c"
  shows "\<exists>display. host_name_payload name = 1 # map word_of_nat (utf8_string display) \<and>
    utf8_ok (tl (host_name_payload name)) \<and>
    1 \<le> length (utf8_string display) \<and> length (utf8_string display) \<le> 128 \<and> list_all (\<lambda>c. \<not> is_control c) display \<and>
    (let kept = filter (\<lambda>c. \<not> is_control c) (trim_name name) in
       if kept = [] then display = default_host_name
       else prefix display kept \<and> (display = kept \<or> length (utf8_string kept) > 128))"
proof -
  let ?kept = "filter (\<lambda>c. \<not> is_control c) (trim_name name)"
  define display where "display = (if ?kept = [] then default_host_name else pop_to_fit ?kept)"
  have kept: "set ?kept \<subseteq> set name" by (auto simp: trim_name_def dest!: set_dropWhileD)
  obtain rest where pop: "?kept = pop_to_fit ?kept @ rest" "length (utf8_string (pop_to_fit ?kept)) \<le> 128"
    "?kept \<noteq> [] \<longrightarrow> pop_to_fit ?kept \<noteq> []"
    using pop_to_fit_prefix [of ?kept] by blast
  have empty: "pop_to_fit ?kept = [] \<longleftrightarrow> ?kept = []" using pop(1,3) by fastforce
  have payload: "host_name_payload name = 1 # map word_of_nat (utf8_string display)"
    by (simp add: host_name_payload_def display_def Let_def empty)
  have scalars: "\<forall>c \<in> set display. scalar c"
  proof (cases "?kept = []")
    case True
    then show ?thesis by (simp add: display_def default_host_name_def scalar_def)
  next
    case False
    have "set (pop_to_fit ?kept) \<subseteq> set ?kept" by (subst (2) pop(1)) simp
    then show ?thesis using False kept assms by (auto simp: display_def)
  qed
  have "map (\<lambda>b. unat (word_of_nat b :: byte)) (utf8_string display) = utf8_string display"
    using utf8_string_bytes [OF scalars] by (intro map_idI) (simp add: unat_of_nat)
  then have utf8: "utf8_ok (tl (host_name_payload name))"
    using utf8_valid_string [OF scalars] by (simp add: payload utf8_ok_def comp_def)
  have default: "length (utf8_string default_host_name) = 19" "list_all (\<lambda>c. \<not> is_control c) default_host_name"
    by (simp_all add: default_host_name_def utf8_string_def utf8_char_def is_control_def)
  have "display \<noteq> []" using pop(3) by (auto simp: display_def default_host_name_def)
  then have "1 \<le> length (utf8_string display)"
    using length_utf8_char [of "hd display"] by (cases display) (auto simp: utf8_string_def)
  moreover have "length (utf8_string display) \<le> 128" using pop(2) default(1) by (simp add: display_def)
  moreover have "list_all (\<lambda>c. \<not> is_control c) display"
  proof (cases "?kept = []")
    case False
    have "set (pop_to_fit ?kept) \<subseteq> set ?kept" by (subst (2) pop(1)) simp
    then show ?thesis using False by (auto simp: display_def list_all_iff)
  qed (simp add: display_def default(2))
  moreover have "prefix (pop_to_fit ?kept) ?kept" by (subst (2) pop(1)) simp
  moreover have "pop_to_fit ?kept = ?kept \<or> length (utf8_string ?kept) > 128" by (subst pop_to_fit.simps) auto
  ultimately show ?thesis using payload utf8 by (intro exI [of _ display]) (simp add: display_def Let_def)
qed

lemma host_name_payload_ok_witness:
  "\<exists>display. host_name_payload [32, 233, 7] = 1 # map word_of_nat (utf8_string display) \<and> 1 \<le> length (utf8_string display)"
  using host_name_payload_ok [of "[32, 233, 7]"] by (auto simp: scalar_def)

end
