(* ===== verification/Pair_Driver.thy ===== *)
theory Pair_Driver
  imports Pair_Engine
begin

section \<open>The outcomes of a pairing attempt\<close>

text \<open>
  The lemmas about the driver of \<open>pair_engine.rs\<close>. The theory first separates what the phone can
  change from what only the driver writes, then follows the driver step by step with triples
  \<open>triple P m Q E\<close> (well in \<open>Q\<close> or with an error in \<open>E\<close>), and concludes with the complete list
  of ways an attempt can end, and with where the operations it acted on came from.
\<close>

subsection \<open>What the phone can change\<close>

text \<open>The part of the engine only the driver writes.\<close>

definition driver_part :: "'d engine \<Rightarrow> transaction \<times> broker \<times> (pair_commit_phase \<times> bool) list \<times> operation list \<times> bytes list" where
  "driver_part en = (en_tx en, en_broker en, en_requests en, en_received en, en_notices en)"

lemma driver_part_simps [simp]:
  "driver_part (en\<lparr>en_service := st\<rparr>) = driver_part en"
  "driver_part (en\<lparr>en_daemon := d\<rparr>) = driver_part en"
  "driver_part (en\<lparr>en_wakes := ws\<rparr>) = driver_part en"
  "driver_part (en\<lparr>en_revoked := is\<rparr>) = driver_part en"
  by (simp_all add: driver_part_def)

lemma driver_partD:
  "driver_part en' = driver_part en \<Longrightarrow> en_tx en' = en_tx en \<and> en_broker en' = en_broker en \<and>
     en_requests en' = en_requests en \<and> en_received en' = en_received en \<and> en_notices en' = en_notices en"
  by (simp add: driver_part_def)

lemma accept_control_host [simp]: "ps_host_pubkey (accept_control bs st) = ps_host_pubkey st"
  by (simp add: accept_control_def ps_publish_status_def split: sum.split option.split)

lemma control_frame_keeps:
  "driver_part (snd (control_frame ev f s)) = driver_part (snd s) \<and>
   ps_host_pubkey (en_service (snd (control_frame ev f s))) = ps_host_pubkey (en_service (snd s))"
  by (auto simp: control_frame_def driver_part_def split: sum.split list.split bool.split)

lemma fold_frames_keeps:
  "driver_part (snd (fold (control_frame ev) fs s)) = driver_part (snd s) \<and>
   ps_host_pubkey (en_service (snd (fold (control_frame ev) fs s))) = ps_host_pubkey (en_service (snd s))"
  by (induction fs arbitrary: s) (simp_all add: control_frame_keeps)

lemma link_step_keeps:
  "driver_part (link_step ev e en) = driver_part en \<and>
   ps_host_pubkey (en_service (link_step ev e en)) = ps_host_pubkey (en_service en)"
  by (cases e) (simp_all add: control_payload_def fold_frames_keeps status_snapshot_def split: option.split)

lemma absorb_keeps:
  "driver_part (absorb ev es en) = driver_part en \<and>
   ps_host_pubkey (en_service (absorb ev es en)) = ps_host_pubkey (en_service en)"
  by (induction es arbitrary: en) (simp_all add: absorb_def link_step_keeps)

lemma pause_keeps [simp]: "driver_part (pause ev en) = driver_part en"
  by (simp add: pause_def absorb_keeps split: list.split prod.split)

lemma paced_loop_keeps [simp]: "driver_part (paced_loop ev ws late en) = driver_part en"
  by (induction ev ws late en rule: paced_loop.induct)
     (subst paced_loop.simps, simp add: absorb_keeps split: list.split prod.split)

lemma publish_paced_keeps [simp]: "driver_part (publish_paced ev m en) = driver_part en"
  by (simp add: publish_paced_def engine_publish_def)

definition wait_post :: "'d engine \<Rightarrow> (pair_engine_error, operation) result \<times> 'd engine \<Rightarrow> bool" where
  "wait_post en out \<longleftrightarrow> (case out of (r, en') \<Rightarrow>
     en_tx en' = en_tx en \<and> en_broker en' = en_broker en \<and> en_requests en' = en_requests en \<and>
     en_notices en' = en_notices en \<and>
     (case r of
        Inr oper \<Rightarrow> en_received en' = en_received en @ [oper] \<and> \<not> is_abort_op oper
      | Inl e \<Rightarrow> e = PE_Aborted \<and> (\<exists>v. en_received en' = en_received en @ v)))"

lemma wait_post_cong: "driver_part en1 = driver_part en \<Longrightarrow> wait_post en1 out \<longleftrightarrow> wait_post en out"
  using driver_partD [of en1 en] by (cases out; cases "fst out") (simp_all add: wait_post_def)

lemma wait_loop_post: "wait_post en (wait_loop ev i ws late en)"
proof (induction ev i ws late en rule: wait_loop.induct)
  case (1 ev i ws late en)
  obtain t st where t: "take_message i (en_service en) = (t, st)" by force
  show ?case
  proof (cases "t = None \<and> \<not> late \<and> ws \<noteq> []")
    case True
    then obtain es late' ws' where ws: "ws = (es, late') # ws'" by (cases ws) auto
    have "wait_loop ev i ws late en = wait_loop ev i ws' late' (absorb ev es en)"
      using True t ws by (subst wait_loop.simps) simp
    moreover have "wait_post (absorb ev es en) (wait_loop ev i ws' late' (absorb ev es en))"
      using 1 [OF t [symmetric]] True t ws by auto
    ultimately show ?thesis
      by (simp add: wait_post_cong [OF conjunct1 [OF absorb_keeps]])
  next
    case False
    then show ?thesis
      using t by (subst wait_loop.simps) (auto simp: wait_post_def split: option.split list.split)
  qed
qed

subsection \<open>The driver, step by step\<close>

text \<open>Where the driver is: its transaction, and what it has requested and received since the start.\<close>

definition at_point ::
    "'d engine \<Rightarrow> transaction \<Rightarrow> (pair_commit_phase \<times> bool) list \<Rightarrow> operation list \<Rightarrow> 'd engine \<Rightarrow> bool" where
  "at_point en0 t reqs recv en \<longleftrightarrow>
     en_tx en = t \<and> en_requests en = en_requests en0 @ reqs \<and> en_received en = en_received en0 @ recv"

definition ended ::
    "'d engine \<Rightarrow> phase \<Rightarrow> (pair_commit_phase \<times> bool) list \<Rightarrow> 'd engine \<Rightarrow> bool" where
  "ended en0 ph reqs en \<longleftrightarrow>
     tx_phase (en_tx en) = ph \<and> en_requests en = en_requests en0 @ reqs \<and> (\<exists>v. en_received en = en_received en0 @ v)"

lemma at_point_keeps: "driver_part en' = driver_part en \<Longrightarrow> at_point en0 t reqs recv en \<Longrightarrow> at_point en0 t reqs recv en'"
  using driver_partD [of en' en] by (simp add: at_point_def)

lemma at_point_publish: "triple (at_point en0 t reqs recv) (io_do (publish_paced ev m)) (\<lambda>_. at_point en0 t reqs recv) E"
  by (rule triple_do) (simp add: at_point_keeps [OF publish_paced_keeps])

lemma at_point_remember: "triple (at_point en0 t reqs recv) (io_do (remember i)) (\<lambda>_. at_point en0 t reqs recv) E"
  by (rule triple_do) (simp add: at_point_def remember_def)

lemma at_point_local:
  "tx_local t e = (Inr (), t') \<Longrightarrow>
     triple (at_point en0 t reqs recv) (local_or err e) (\<lambda>_. at_point en0 t' reqs recv) E"
  by (rule tripleI) (simp add: at_point_def local_or_def)

lemma at_point_remote:
  "tx_remote t \<lparr>msg_transaction = i, msg_operation = oper\<rparr> = (Inr (), t') \<Longrightarrow>
     triple (at_point en0 t reqs recv) (apply_remote i oper) (\<lambda>_. at_point en0 t' reqs recv) E"
  by (rule tripleI) (simp add: at_point_def apply_remote_def)

lemma at_point_wait:
  assumes "\<And>en. ended en0 (tx_phase t) reqs en \<Longrightarrow> E PE_Aborted en"
  shows "triple (at_point en0 t reqs recv) (wait_for_operation_within ev i)
    (\<lambda>oper. at_point en0 t reqs (recv @ [oper])) E"
proof (rule tripleI)
  fix en
  assume "at_point en0 t reqs recv en"
  then show "case wait_for_operation_within ev i en of
      (Inr oper, en') \<Rightarrow> at_point en0 t reqs (recv @ [oper]) en' | (Inl e, en') \<Rightarrow> E e en'"
    using wait_loop_post [of en ev i "en_wakes en" False] assms
    by (auto simp: wait_for_operation_within_def wait_post_def at_point_def ended_def split: sum.splits)
qed

lemma at_point_request:
  "triple (at_point en0 t reqs recv) (commit_request ev cx ph) (\<lambda>ok. at_point en0 t (reqs @ [(ph, ok)]) recv) E"
proof (rule tripleI)
  fix en
  assume "at_point en0 t reqs recv en"
  then have "at_point en0 t reqs recv (pause ev en)" by (rule at_point_keeps [OF pause_keeps])
  then show "case commit_request ev cx ph en of
      (Inr ok, en') \<Rightarrow> at_point en0 t (reqs @ [(ph, ok)]) recv en' | (Inl e, en') \<Rightarrow> E e en'"
    by (simp add: commit_request_def Let_def at_point_def split: prod.split)
qed

lemma at_point_refuse:
  assumes "\<And>en. ended en0 (tx_phase (snd (tx_local t (Ev_Abort oper)))) reqs en \<Longrightarrow> E err en"
  shows "triple (at_point en0 t reqs recv) (refuse i oper err) Q E"
  by (rule tripleI)
     (use assms in \<open>auto simp: refuse_def at_point_def ended_def remember_def local_ignored_def engine_publish_def\<close>)

lemma at_point_discard:
  assumes "\<And>b en. ended en0 (tx_phase (snd (tx_local t (Ev_Abort Op_Error)))) (reqs @ [(PC_Discard, b)]) en \<Longrightarrow> E err en"
  shows "triple (at_point en0 t reqs recv) (abort_with_discard ev cx err) Q E"
proof -
  let ?t = "snd (tx_local t (Ev_Abort Op_Error))"
  have "triple (at_point en0 t reqs recv) (io_do (engine_publish m)) (\<lambda>_. at_point en0 t reqs recv) E" for m
    by (rule triple_do) (simp add: at_point_def engine_publish_def)
  moreover have "triple (at_point en0 t reqs recv) (io_do (local_ignored (Ev_Abort Op_Error)))
      (\<lambda>_. at_point en0 ?t reqs recv) E"
    by (rule triple_do) (simp add: at_point_def local_ignored_def)
  moreover have "triple (at_point en0 ?t (reqs @ [(PC_Discard, b)]) recv) (io_fail err) Q E" for b
    by (rule triple_fail) (use assms in \<open>auto simp: at_point_def ended_def\<close>)
  ultimately show ?thesis
    unfolding abort_with_discard_def Let_def
    by (intro triple_bind [OF _ triple_bind [OF _ triple_bind [OF at_point_remember triple_bind [OF at_point_request]]]])
qed

subsection \<open>How an attempt ends\<close>

abbreviation full_exchange :: "operation list" where
  "full_exchange \<equiv> [Op_Capability, Op_Confirm, Op_Prepared, Op_CommitAck, Op_Committed]"

text \<open>The possible ends of an attempt: the result, what was asked of the daemon and its answers,
  what the phone had said, and the phase of the transaction; \<open>accepted\<close> is the user's decision.\<close>

fun attempt_outcome ::
    "bool \<Rightarrow> (pair_engine_error, unit) result \<Rightarrow> (pair_commit_phase \<times> bool) list \<Rightarrow> operation list \<Rightarrow> phase \<Rightarrow> bool" where
  "attempt_outcome accepted (Inr u) reqs recv ph \<longleftrightarrow>
     accepted \<and> reqs = [(PC_Stage, True), (PC_MarkCommit, True), (PC_Promote, True)] \<and> recv = full_exchange \<and> ph = Bonded"
| "attempt_outcome accepted (Inl PE_Rejected) reqs recv ph \<longleftrightarrow> \<not> accepted \<and> reqs = [] \<and> ph = Aborted Op_Reject"
| "attempt_outcome accepted (Inl PE_Aborted) reqs recv ph \<longleftrightarrow>
     reqs = [] \<or>
     accepted \<and> (\<exists>b. reqs = [(PC_Stage, True), (PC_Discard, b)] \<and> ph = Aborted Op_Error \<or>
                    reqs = [(PC_Stage, True), (PC_MarkCommit, True), (PC_Discard, b)] \<and> ph = Uncertain)"
| "attempt_outcome accepted (Inl PE_Persistence) reqs recv ph \<longleftrightarrow>
     accepted \<and>
     (reqs = [(PC_Stage, False)] \<and> ph = Aborted Op_Error \<or>
      reqs = [(PC_Stage, True), (PC_MarkCommit, False)] \<and> ph = Aborted Op_Error \<or>
      reqs = [(PC_Stage, True), (PC_MarkCommit, True), (PC_Promote, False)] \<and> recv = full_exchange \<and> ph = Uncertain)"
| "attempt_outcome accepted (Inl PE_Uncertain) reqs recv ph \<longleftrightarrow>
     accepted \<and> reqs = [(PC_Stage, True), (PC_MarkCommit, True)] \<and> ph = Uncertain"

definition outcome_from ::
    "'d engine \<Rightarrow> bool \<Rightarrow> (pair_engine_error, unit) result \<Rightarrow> 'd engine \<Rightarrow> bool" where
  "outcome_from en0 accepted r en \<longleftrightarrow>
     (\<exists>reqs recv. en_requests en = en_requests en0 @ reqs \<and> en_received en = en_received en0 @ recv \<and>
        attempt_outcome accepted r reqs recv (tx_phase (en_tx en)))"

lemma ended_outcome:
  "ended en0 ph reqs en \<Longrightarrow> (\<And>recv. attempt_outcome acc (Inl e) reqs recv ph) \<Longrightarrow> outcome_from en0 acc (Inl e) en"
  by (auto simp: ended_def outcome_from_def)

abbreviation drv :: "bytes \<Rightarrow> phase \<Rightarrow> flags \<Rightarrow> flags \<Rightarrow> flags \<Rightarrow> flags \<Rightarrow> transaction" where
  "drv i ph cap conf prep comm \<equiv> \<lparr>tx_id = i, tx_role = Coordinator, tx_phase = ph, tx_capabilities = cap,
     tx_confirmed = conf, tx_prepared = prep, tx_committed = comm\<rparr>"

lemmas tx_eval = tx_remote_def tx_confirm_def tx_prepare_def tx_record_committed_def tx_disconnect_def tx_abort_def
  is_abort_op_def is_aborted_def flag_def set_flag_def Let_def

text \<open>A result known before the rest of a step is run.\<close>

text \<open>The expected operation, or the end of the attempt.\<close>

lemma at_point_try_wait:
  "triple (at_point en0 t reqs recv) (io_try (wait_for_operation ev i))
    (\<lambda>r en. case r of Inl e \<Rightarrow> e = PE_Aborted \<and> (\<exists>v. at_point en0 t reqs v en)
       | Inr got \<Rightarrow> at_point en0 t reqs (recv @ [got]) en) E"
proof (rule tripleI)
  fix en
  assume "at_point en0 t reqs recv en"
  then show "case io_try (wait_for_operation ev i) en of
      (Inr r, en') \<Rightarrow> (case r of Inl e \<Rightarrow> e = PE_Aborted \<and> (\<exists>v. at_point en0 t reqs v en')
         | Inr got \<Rightarrow> at_point en0 t reqs (recv @ [got]) en')
    | (Inl e, en') \<Rightarrow> E e en'"
    using wait_loop_post [of en ev i "en_wakes en" False]
    by (auto simp: io_try_def wait_for_operation_def wait_for_operation_within_def wait_post_def at_point_def
        split: sum.splits)
qed

lemma at_point_expect:
  assumes "\<And>b en. ended en0 (tx_phase (snd (tx_local t (Ev_Abort Op_Error)))) (reqs @ [(PC_Discard, b)]) en \<Longrightarrow> E PE_Aborted en"
  shows "triple (at_point en0 t reqs recv) (expect_or_discard ev cx oper)
    (\<lambda>got en. got = oper \<and> at_point en0 t reqs (recv @ [oper]) en) E"
proof -
  let ?R = "\<lambda>r en. case r of Inl e \<Rightarrow> e = PE_Aborted \<and> (\<exists>v. at_point en0 t reqs v en)
    | Inr got \<Rightarrow> at_point en0 t reqs (recv @ [got]) en"
  note at_point_try_wait [of en0 t reqs recv ev "cx_transaction_id cx" E]
  moreover have "triple (?R r) (case r of
        Inl err \<Rightarrow> abort_with_discard ev cx err
      | Inr got \<Rightarrow> if got \<noteq> oper then abort_with_discard ev cx PE_Aborted else io_return got)
      (\<lambda>got en. got = oper \<and> at_point en0 t reqs (recv @ [oper]) en) E" for r
  proof (cases r)
    case (Inl e)
    have "triple (at_point en0 t reqs v) (abort_with_discard ev cx PE_Aborted)
        (\<lambda>got en. got = oper \<and> at_point en0 t reqs (recv @ [oper]) en) E" for v
      by (rule at_point_discard) (rule assms)
    then show ?thesis unfolding Inl sum.case by (rule triple_known [OF triple_ex])
  next
    case (Inr got)
    show ?thesis
      unfolding Inr sum.case
      by (intro triple_if at_point_discard assms triple_return) simp_all
  qed
  ultimately show ?thesis unfolding expect_or_discard_def by (rule triple_bind)
qed

lemma drive_capability_point:
  "triple (at_point en0 (tx_new (cx_transaction_id cx) Coordinator) [] []) (drive_capability ev cx)
     (\<lambda>_. at_point en0 (drv (cx_transaction_id cx) OobPending both neither neither neither) [] [Op_Capability])
     (\<lambda>e. outcome_from en0 acc (Inl e))"
proof -
  let ?i = "cx_transaction_id cx"
  let ?t = "\<lambda>ph cap. drv ?i ph cap neither neither neither"
  show ?thesis
    unfolding drive_capability_def Let_def tx_new_def
    apply (rule triple_bind [OF at_point_publish])
    apply (rule triple_bind [OF at_point_wait])
     apply (erule ended_outcome, simp)
    apply (rule triple_if)
     apply (rule triple_fail, simp add: at_point_def outcome_from_def)
    apply (simp only: not_not append_Nil)
    apply (rule triple_bind [OF at_point_remote [where t' = "?t Negotiating (False, True)"]], simp add: tx_eval)
    apply (rule triple_bind [OF at_point_local [where t' = "?t Negotiating both"]], simp add: tx_eval)
    apply (rule triple_bind [OF at_point_local [where t' = "?t OobPending both"]], simp add: tx_eval)
    apply (rule at_point_remember)
    done
qed

text \<open>The user's decision, asked of the broker as it was before.\<close>

definition user_accepts :: "'d engine_env \<Rightarrow> pair_commit_context \<Rightarrow> broker \<Rightarrow> bool" where
  "user_accepts ev cx br =
     fst (request_oob_confirmation br (ev_gui ev) (ev_socket ev) (cx_peer cx) (cx_host_pubkey cx) (cx_phone_pubkey cx))"

lemma request_oob_point:
  "triple (\<lambda>en. at_point en0 t reqs recv en \<and> en_broker en = br) (request_oob ev cx)
     (\<lambda>accepted en. accepted = user_accepts ev cx br \<and> at_point en0 t reqs recv en) E"
proof (rule tripleI)
  fix en
  assume "at_point en0 t reqs recv en \<and> en_broker en = br"
  then have "at_point en0 t reqs recv (pause ev en)" "en_broker (pause ev en) = br"
    using at_point_keeps [OF pause_keeps [of ev en]] driver_partD [OF pause_keeps [of ev en]] by auto
  then show "case request_oob ev cx en of
      (Inr accepted, en') \<Rightarrow> accepted = user_accepts ev cx br \<and> at_point en0 t reqs recv en' | (Inl e, en') \<Rightarrow> E e en'"
    by (simp add: request_oob_def Let_def user_accepts_def at_point_def split: prod.split)
qed

lemma drive_confirm_point:
  assumes "acc = user_accepts ev cx br"
  shows "triple
     (\<lambda>en. at_point en0 (drv (cx_transaction_id cx) OobPending both neither neither neither) [] [Op_Capability] en \<and> en_broker en = br)
     (drive_confirm ev cx)
     (\<lambda>_ en. acc \<and> at_point en0 (drv (cx_transaction_id cx) Preparing both both neither neither) []
        [Op_Capability, Op_Confirm] en)
     (\<lambda>e. outcome_from en0 acc (Inl e))"
proof -
  let ?i = "cx_transaction_id cx"
  let ?t = "\<lambda>ph conf. drv ?i ph both conf neither neither"
  let ?E = "\<lambda>e. outcome_from en0 acc (Inl e)"
  have refused: "triple (at_point en0 (?t OobPending neither) [] [Op_Capability]) (refuse ?i Op_Reject PE_Rejected) Q ?E"
    if "\<not> acc" for Q :: "unit \<Rightarrow> _"
    by (rule at_point_refuse, erule ended_outcome) (use that in \<open>simp add: tx_eval\<close>)
  have confirmed: "triple (at_point en0 (?t OobPending neither) [] [Op_Capability])
      (io_bind (local_or PE_Aborted Ev_Confirm) (\<lambda>_.
        io_bind (io_do (publish_paced ev \<lparr>msg_transaction = ?i, msg_operation = Op_Confirm\<rparr>)) (\<lambda>_.
        io_bind (wait_for_operation ev ?i) (\<lambda>oper.
        if oper \<noteq> Op_Confirm then io_fail PE_Aborted else apply_remote ?i oper))))
      (\<lambda>_. at_point en0 (?t Preparing both) [] [Op_Capability, Op_Confirm]) ?E"
    unfolding wait_for_operation_def
    apply (rule triple_bind [OF at_point_local [where t' = "?t OobPending (True, False)"]], simp add: tx_eval)
    apply (rule triple_bind [OF at_point_publish])
    apply (rule triple_bind [OF at_point_wait])
     apply (erule ended_outcome, simp)
    apply (rule triple_if)
     apply (rule triple_fail, simp add: at_point_def outcome_from_def)
    apply (simp only: not_not append.simps)
    apply (rule at_point_remote, simp add: tx_eval)
    done
  show ?thesis
    unfolding drive_confirm_def Let_def
    apply (rule triple_bind [OF request_oob_point])
    apply (rule triple_known)
    using refused confirmed by (cases acc) (simp_all add: assms [symmetric])
qed

lemma drive_staging_point:
  assumes acc
  shows "triple (at_point en0 (drv i Preparing both both neither neither) [] recv) (drive_staging ev cx)
     (\<lambda>_. at_point en0 (drv i Preparing both both neither neither) [(PC_Stage, True)] recv)
     (\<lambda>e. outcome_from en0 acc (Inl e))"
  unfolding drive_staging_def
  apply (rule triple_bind [OF at_point_request], rule triple_if)
   apply (rule at_point_refuse, erule ended_outcome, use assms in \<open>simp add: tx_eval\<close>)
  apply (rule triple_return, simp)
  done

lemma drive_prepared_point:
  assumes acc
  shows "triple (at_point en0 (drv (cx_transaction_id cx) Preparing both both neither neither) [(PC_Stage, True)]
        [Op_Capability, Op_Confirm]) (drive_prepared ev cx)
     (\<lambda>_. at_point en0 (drv (cx_transaction_id cx) Prepared both both both neither) [(PC_Stage, True)]
        [Op_Capability, Op_Confirm, Op_Prepared])
     (\<lambda>e. outcome_from en0 acc (Inl e))"
proof -
  let ?i = "cx_transaction_id cx"
  show ?thesis
    unfolding drive_prepared_def Let_def
    apply (rule triple_bind [OF at_point_local [where t' = "drv ?i Preparing both both (True, False) neither"]],
        simp add: tx_eval)
    apply (rule triple_bind [OF at_point_expect])
     apply (erule ended_outcome, use assms in \<open>simp add: tx_eval\<close>)
    apply (rule triple_known, unfold append.simps)
    apply (rule triple_bind [OF at_point_remote [where t' = "drv ?i Prepared both both both neither"]], simp add: tx_eval)
    apply (rule at_point_publish)
    done
qed

lemma drive_mark_point:
  assumes acc
  shows "triple (at_point en0 (drv i Prepared both both both neither) [(PC_Stage, True)] recv) (drive_mark ev cx)
     (\<lambda>_. at_point en0 (drv i Prepared both both both neither) [(PC_Stage, True), (PC_MarkCommit, True)] recv)
     (\<lambda>e. outcome_from en0 acc (Inl e))"
  unfolding drive_mark_def
  apply (rule triple_bind [OF at_point_request], rule triple_if)
   apply (rule at_point_refuse, erule ended_outcome, use assms in \<open>simp add: tx_eval\<close>)
  apply (rule triple_return, simp)
  done

lemma drive_commit_point:
  assumes acc
  shows "triple (at_point en0 (drv (cx_transaction_id cx) Prepared both both both neither)
        [(PC_Stage, True), (PC_MarkCommit, True)] [Op_Capability, Op_Confirm, Op_Prepared]) (drive_commit ev cx)
     (\<lambda>_. at_point en0 (drv (cx_transaction_id cx) Committed both both both neither)
        [(PC_Stage, True), (PC_MarkCommit, True)] [Op_Capability, Op_Confirm, Op_Prepared, Op_CommitAck])
     (\<lambda>e. outcome_from en0 acc (Inl e))"
proof -
  let ?i = "cx_transaction_id cx"
  show ?thesis
    unfolding drive_commit_def Let_def
    apply (rule triple_bind [OF at_point_local [where t' = "drv ?i CommitPending both both both neither"]],
        simp add: tx_eval)
    apply (rule triple_bind [OF at_point_publish])
    apply (rule triple_bind [OF at_point_expect])
     apply (erule ended_outcome, use assms in \<open>simp add: tx_eval\<close>)
    apply (rule triple_known, unfold append.simps)
    apply (rule triple_bind [OF at_point_remote [where t' = "drv ?i Committed both both both neither"]], simp add: tx_eval)
    apply (rule at_point_remember)
    done
qed

text \<open>Giving up after the commit decision leaves the transaction uncertain.\<close>

lemma at_point_disconnect:
  assumes "\<And>en. at_point en0 (snd (tx_local t Ev_Disconnected)) reqs recv en \<Longrightarrow> E err en"
  shows "triple (at_point en0 t reqs recv)
    (io_bind (io_do (local_ignored Ev_Disconnected)) (\<lambda>_. io_bind (io_do (remember i)) (\<lambda>_. io_fail err))) Q E"
  apply (rule triple_bind [where R = "\<lambda>_. at_point en0 (snd (tx_local t Ev_Disconnected)) reqs recv"])
   apply (rule triple_do, simp add: at_point_def local_ignored_def)
  apply (rule triple_bind [OF at_point_remember], rule triple_fail, erule assms)
  done

lemma drive_committed_point:
  assumes acc
  shows "triple (at_point en0 (drv (cx_transaction_id cx) Committed both both both neither)
        [(PC_Stage, True), (PC_MarkCommit, True)] [Op_Capability, Op_Confirm, Op_Prepared, Op_CommitAck]) (drive_committed ev cx)
     (\<lambda>u. outcome_from en0 acc (Inr u)) (\<lambda>e. outcome_from en0 acc (Inl e))"
proof -
  let ?i = "cx_transaction_id cx"
  let ?t = "drv ?i Committed both both both"
  let ?done = "[(PC_Stage, True), (PC_MarkCommit, True)]"
  let ?heard = "[Op_Capability, Op_Confirm, Op_Prepared, Op_CommitAck]"
  let ?E = "\<lambda>e. outcome_from en0 acc (Inl e)"
  let ?Q = "\<lambda>u. outcome_from en0 acc (Inr u)"
  have lost: "triple (at_point en0 (?t neither) ?done v)
      (io_bind (io_do (local_ignored Ev_Disconnected)) (\<lambda>_. io_bind (io_do (remember ?i)) (\<lambda>_. io_fail PE_Uncertain))) ?Q ?E" for v
    by (rule at_point_disconnect) (use assms in \<open>auto simp: at_point_def outcome_from_def tx_eval\<close>)
  have unsaved: "triple (at_point en0 (?t (False, True)) (?done @ [(PC_Promote, False)]) full_exchange)
      (io_bind (io_do (local_ignored Ev_Disconnected)) (\<lambda>_. io_bind (io_do (remember ?i)) (\<lambda>_. io_fail PE_Persistence))) ?Q ?E"
    by (rule at_point_disconnect) (use assms in \<open>auto simp: at_point_def outcome_from_def tx_eval\<close>)
  have saved: "triple (at_point en0 (?t (False, True)) (?done @ [(PC_Promote, True)]) full_exchange)
      (io_bind (local_or PE_Uncertain Ev_Committed) (\<lambda>_.
       io_bind (io_do (remember ?i)) (\<lambda>_. io_do (announce_bonded ev (cx_peer cx))))) ?Q ?E"
    apply (rule triple_bind [OF at_point_local [where t' = "drv ?i Bonded both both both both"]], simp add: tx_eval)
    apply (rule triple_bind [OF at_point_remember], rule triple_do)
    using assms by (simp add: at_point_def outcome_from_def announce_bonded_def case_prod_beta)
  have promote: "triple (at_point en0 (?t neither) ?done full_exchange)
      (io_bind (apply_remote ?i Op_Committed) (\<lambda>_.
        io_bind (commit_request ev cx PC_Promote) (\<lambda>ok.
        if \<not> ok then
          io_bind (io_do (local_ignored Ev_Disconnected)) (\<lambda>_.
          io_bind (io_do (remember ?i)) (\<lambda>_. io_fail PE_Persistence))
        else
          io_bind (local_or PE_Uncertain Ev_Committed) (\<lambda>_.
          io_bind (io_do (remember ?i)) (\<lambda>_.
          io_do (announce_bonded ev (cx_peer cx))))))) ?Q ?E"
    apply (rule triple_bind [OF at_point_remote [where t' = "?t (False, True)"]], simp add: tx_eval)
    apply (rule triple_bind [OF at_point_request], rule triple_if)
    using unsaved saved by simp_all
  show ?thesis
    unfolding drive_committed_def Let_def
    apply (rule triple_bind [OF at_point_publish], rule triple_bind [OF at_point_try_wait], rule triple_if)
     apply (rule triple_pre [OF _ promote], simp)
    apply (rule triple_pre [OF _ triple_ex [OF lost]], auto split: sum.splits)
    done
qed

lemma drive_capability_broker:
  "triple (\<lambda>en. en_broker en = br) (drive_capability ev cx) (\<lambda>_ en. en_broker en = br) (\<lambda>_ _. True)"
proof -
  let ?P = "\<lambda>en. en_broker en = br"
  have publish: "triple ?P (io_do (publish_paced ev m)) (\<lambda>_. ?P) (\<lambda>_ _. True)" for m
    by (rule triple_do) (use driver_partD [OF publish_paced_keeps [of ev m]] in auto)
  have wait: "triple ?P (wait_for_operation_within ev i) (\<lambda>_. ?P) (\<lambda>_ _. True)" for i
    by (rule tripleI)
       (use wait_loop_post [where ev = ev and i = i] in
         \<open>fastforce simp: wait_for_operation_within_def wait_post_def split: prod.splits sum.splits\<close>)
  have "triple ?P (apply_remote i oper) (\<lambda>_. ?P) (\<lambda>_ _. True)"
    "triple ?P (local_or err e) (\<lambda>_. ?P) (\<lambda>_ _. True)"
    "triple ?P (io_do (remember i)) (\<lambda>_. ?P) (\<lambda>_ _. True)" for i oper err e
    by (auto simp: triple_def apply_remote_def local_or_def io_do_def remember_def split: prod.split sum.split)
  with publish wait show ?thesis
    unfolding drive_capability_def Let_def
    by (intro triple_bind triple_if triple_fail) simp_all
qed

lemma drive_outcome:
  assumes "ev_random ev = Some i"
    and "cx = \<lparr>cx_transaction_id = i, cx_host_pubkey = ps_host_pubkey (en_service en), cx_phone_pubkey = pk, cx_peer = peer\<rparr>"
  shows "outcome_from en (user_accepts ev cx (en_broker en)) (fst (drive_pair_transaction ev pk peer en))
    (snd (drive_pair_transaction ev pk peer en))"
proof -
  define acc where "acc = user_accepts ev cx (en_broker en)"
  have i: "cx_transaction_id cx = i" by (simp add: assms(2))
  let ?E = "\<lambda>e. outcome_from en acc (Inl e)"
  have cap: "triple (\<lambda>s. at_point en (tx_new i Coordinator) [] [] s \<and> en_broker s = en_broker en) (drive_capability ev cx)
      (\<lambda>_ s. at_point en (drv i OobPending both neither neither neither) [] [Op_Capability] s \<and> en_broker s = en_broker en) ?E"
    unfolding i [symmetric] by (rule triple_conj [OF drive_capability_point drive_capability_broker])
  have rest: "triple (at_point en (drv i Preparing both both neither neither) [] [Op_Capability, Op_Confirm])
      (io_bind (drive_staging ev cx) (\<lambda>_. io_bind (drive_prepared ev cx) (\<lambda>_. io_bind (drive_mark ev cx) (\<lambda>_.
       io_bind (drive_commit ev cx) (\<lambda>_. drive_committed ev cx)))))
      (\<lambda>u. outcome_from en acc (Inr u)) ?E" if acc
    unfolding i [symmetric]
    by (intro triple_bind [OF drive_staging_point] triple_bind [OF drive_prepared_point]
        triple_bind [OF drive_mark_point] triple_bind [OF drive_commit_point] drive_committed_point that)
  have "triple (\<lambda>s. at_point en (tx_new i Coordinator) [] [] s \<and> en_broker s = en_broker en)
      (io_bind (drive_capability ev cx) (\<lambda>_. io_bind (drive_confirm ev cx) (\<lambda>_. io_bind (drive_staging ev cx) (\<lambda>_.
       io_bind (drive_prepared ev cx) (\<lambda>_. io_bind (drive_mark ev cx) (\<lambda>_. io_bind (drive_commit ev cx) (\<lambda>_.
       drive_committed ev cx))))))) (\<lambda>u. outcome_from en acc (Inr u)) ?E"
    apply (rule triple_bind [OF cap])
    apply (rule triple_bind [OF drive_confirm_point [OF acc_def, unfolded i]])
    apply (rule triple_fact, erule rest)
    done
  moreover have "at_point en (tx_new i Coordinator) [] [] (en\<lparr>en_tx := tx_new i Coordinator\<rparr>)"
    by (simp add: at_point_def)
  ultimately show ?thesis
    unfolding drive_pair_transaction_def Let_def assms(1) option.case assms(2) [symmetric] acc_def [symmetric]
    by (elim triple_result) simp
qed

subsection \<open>The driver acts on what the phone wrote\<close>

primrec event_frames :: "link_event \<Rightarrow> bytes list" where
  "event_frames (Control_Write accepted rs rooms) =
     (if accepted then split_frames (bounded_read PAIR_CONTROL_MAX_BYTES rs) else [])"
| "event_frames Control_Notify = []"
| "event_frames (Status_Read offset) = []"

definition script_frames :: "wake list \<Rightarrow> bytes list" where
  "script_frames ws = concat (map (\<lambda>w. concat (map event_frames (fst w))) ws)"

definition ears :: "bytes \<Rightarrow> bytes set \<Rightarrow> nat \<Rightarrow> 'd engine \<Rightarrow> bool" where
  "ears i F n en \<longleftrightarrow>
     set (ps_inbox (en_service en)) \<subseteq> F \<and> set (script_frames (en_wakes en)) \<subseteq> F \<and>
     (\<lambda>oper. message_encode \<lparr>msg_transaction = i, msg_operation = oper\<rparr>) ` set (drop n (en_received en)) \<subseteq> F \<and>
     n \<le> length (en_received en)"

lemma inbox_accept_control: "set (ps_inbox (accept_control bs st)) \<subseteq> insert bs (set (ps_inbox st))"
  by (auto simp: accept_control_def ps_publish_status_def split: sum.splits option.splits if_splits)

lemma control_frame_inbox:
  "set (ps_inbox (en_service (snd (control_frame ev f s)))) \<subseteq> insert f (set (ps_inbox (en_service (snd s)))) \<and>
   en_wakes (snd (control_frame ev f s)) = en_wakes (snd s)"
  using inbox_accept_control [of f "en_service (snd s)"]
  by (auto simp: control_frame_def split: sum.splits list.splits bool.splits)

lemma fold_frames_inbox:
  "set (ps_inbox (en_service (snd (fold (control_frame ev) fs s)))) \<subseteq> set fs \<union> set (ps_inbox (en_service (snd s))) \<and>
   en_wakes (snd (fold (control_frame ev) fs s)) = en_wakes (snd s)"
proof (induction fs arbitrary: s)
  case (Cons f fs)
  from Cons [of "control_frame ev f s"] control_frame_inbox [of ev f s] show ?case by auto
qed simp

lemma split_frames_Nil [simp]: "split_frames [] = []"
  by (simp add: split_frames.simps)

lemma link_step_inbox:
  "set (ps_inbox (en_service (link_step ev e en))) \<subseteq> set (event_frames e) \<union> set (ps_inbox (en_service en)) \<and>
   en_wakes (link_step ev e en) = en_wakes en"
proof (cases e)
  case (Control_Write accepted rs rooms)
  then show ?thesis
    using fold_frames_inbox [of ev "split_frames (bounded_read PAIR_CONTROL_MAX_BYTES rs)" "(rooms, en)"]
    by (simp add: control_payload_def frame_control_payload_eq read_bounded_eq Let_def)
qed (simp_all add: status_snapshot_def)

lemma absorb_inbox:
  "set (ps_inbox (en_service (absorb ev es en))) \<subseteq> set (concat (map event_frames es)) \<union> set (ps_inbox (en_service en)) \<and>
   en_wakes (absorb ev es en) = en_wakes en"
proof (induction es arbitrary: en)
  case (Cons e es)
  from Cons [of "link_step ev e en"] link_step_inbox [of ev e en] show ?case by (auto simp: absorb_def)
qed (simp add: absorb_def)

lemma ears_absorb:
  assumes "ears i F n (en\<lparr>en_wakes := (es, late) # ws\<rparr>)"
  shows "ears i F n ((absorb ev es en)\<lparr>en_wakes := ws\<rparr>)"
  using assms absorb_inbox [of ev es en] driver_partD [of "absorb ev es en" en] absorb_keeps [of ev es en]
  by (auto simp: ears_def script_frames_def)

lemma absorb_wakes: "absorb ev es (en\<lparr>en_wakes := ws\<rparr>) = (absorb ev es en)\<lparr>en_wakes := ws\<rparr>"
proof (induction es arbitrary: en)
  case (Cons e es)
  have frame: "control_frame ev f (rooms, en\<lparr>en_wakes := ws\<rparr>) =
      (fst (control_frame ev f (rooms, en)), (snd (control_frame ev f (rooms, en)))\<lparr>en_wakes := ws\<rparr>)" for f rooms en
    by (auto simp: control_frame_def split: sum.splits list.splits bool.splits)
  have "fold (control_frame ev) fs (rooms, en\<lparr>en_wakes := ws\<rparr>) =
      (fst (fold (control_frame ev) fs (rooms, en)), (snd (fold (control_frame ev) fs (rooms, en)))\<lparr>en_wakes := ws\<rparr>)"
    for fs rooms en
    by (induction fs arbitrary: rooms en) (simp_all add: frame)
  then have "link_step ev e (en\<lparr>en_wakes := ws\<rparr>) = (link_step ev e en)\<lparr>en_wakes := ws\<rparr>"
    by (cases e) (auto simp: control_payload_def split: option.split)
  with Cons show ?case by (simp add: absorb_def)
qed (simp add: absorb_def)

lemma ears_pause: "ears i F n en \<Longrightarrow> ears i F n (pause ev en)"
proof (cases "en_wakes en")
  case (Cons w ws)
  assume "ears i F n en"
  moreover have "en\<lparr>en_wakes := (fst w, snd w) # ws\<rparr> = en" using Cons by simp
  ultimately have "ears i F n ((absorb ev (fst w) en)\<lparr>en_wakes := ws\<rparr>)"
    by (intro ears_absorb [where late = "snd w"]) simp
  then show ?thesis by (simp add: pause_def Cons absorb_wakes case_prod_beta)
qed (simp add: pause_def)

lemma ears_paced_loop: "ears i F n (en\<lparr>en_wakes := ws\<rparr>) \<Longrightarrow> ears i F n (paced_loop ev ws late en)"
proof (induction ev ws late en rule: paced_loop.induct)
  case (1 ev ws late en)
  show ?case
  proof (cases "\<not> ps_unread (en_service en) \<or> late \<or> ws = []")
    case True
    then show ?thesis using 1(2) by (subst paced_loop.simps) auto
  next
    case False
    then obtain es late' ws' where ws: "ws = (es, late') # ws'" by (cases ws) auto
    have "ears i F n ((absorb ev es en)\<lparr>en_wakes := ws'\<rparr>)"
      by (rule ears_absorb) (use 1(2) in \<open>simp add: ws\<close>)
    then have "ears i F n (paced_loop ev ws' late' (absorb ev es en))"
      using 1(1) [of "(es, late')" ws' es late'] False ws by simp
    then show ?thesis using False ws by (subst paced_loop.simps) simp
  qed
qed

lemma take_message_SomeD:
  assumes "take_message i st = (Some oper, st')"
  shows "message_encode \<lparr>msg_transaction = i, msg_operation = oper\<rparr> \<in> set (ps_inbox st) \<and>
    set (ps_inbox st') \<subseteq> set (ps_inbox st)"
proof -
  let ?p = "\<lambda>bs. case message_decode bs of Inr m \<Rightarrow> msg_transaction m = i | Inl e \<Rightarrow> False"
  obtain k where k: "position ?p (ps_inbox st) = Some k"
    "result_ok (message_decode (ps_inbox st ! k)) \<noteq> None"
    and st': "st' = st\<lparr>ps_inbox := remove_at k (ps_inbox st)\<rparr>"
    and oper: "map_option msg_operation (result_ok (message_decode (ps_inbox st ! k))) = Some oper"
    using assms by (auto simp: take_message_def split: option.splits)
  from position_SomeD [OF k(1)] have in_box: "k < length (ps_inbox st)" "?p (ps_inbox st ! k)" by auto
  then obtain m where m: "message_decode (ps_inbox st ! k) = Inr m" "msg_transaction m = i" "msg_operation m = oper"
    using oper by (auto split: sum.splits)
  then have "ps_inbox st ! k = message_encode \<lparr>msg_transaction = i, msg_operation = oper\<rparr>"
    using msg_codec.enc_dec [of "ps_inbox st ! k" m] by (cases m) simp
  then show ?thesis using in_box(1) set_remove_at [of k "ps_inbox st"] by (simp add: st') (metis nth_mem)
qed

lemma ears_wait_loop: "ears i F n (en\<lparr>en_wakes := ws\<rparr>) \<Longrightarrow> ears i F n (snd (wait_loop ev i ws late en))"
proof (induction ev i ws late en rule: wait_loop.induct)
  case (1 ev i ws late en)
  obtain t st where t: "take_message i (en_service en) = (t, st)" by force
  show ?case
  proof (cases "t = None \<and> \<not> late \<and> ws \<noteq> []")
    case True
    then obtain es late' ws' where ws: "ws = (es, late') # ws'" by (cases ws) auto
    have "ears i F n ((absorb ev es en)\<lparr>en_wakes := ws'\<rparr>)"
      by (rule ears_absorb) (use 1(2) in \<open>simp add: ws\<close>)
    then have "ears i F n (snd (wait_loop ev i ws' late' (absorb ev es en)))"
      using 1(1) [OF t [symmetric], of "(es, late')" ws' es late'] True t ws by simp
    then show ?thesis using True t ws by (subst wait_loop.simps) simp
  next
    case False
    show ?thesis
    proof (cases t)
      case None
      then show ?thesis using t 1(2) False by (subst wait_loop.simps) (auto simp: ears_def split: list.split)
    next
      case (Some oper)
      then show ?thesis
        using t 1(2) take_message_SomeD [of i "en_service en" oper st]
        by (subst wait_loop.simps) (auto simp: ears_def)
    qed
  qed
qed

lemma ears_driver [stays_rules]:
  fixes ev :: "'d engine_env"
  shows "stays (ears i F n) (io_do (publish_paced ev m))"
    and "stays (ears i F n) (io_do (engine_publish m))"
    and "stays (ears i F n) (io_do (local_ignored e))"
    and "stays (ears i F n) (io_do (remember j))"
    and "stays (ears i F n) (io_do (announce_bonded ev peer))"
    and "stays (ears i F n) (local_or err e)"
    and "stays (ears i F n) (apply_remote j oper)"
    and "stays (ears i F n) (refuse j oper err)"
    and "stays (ears i F n) (commit_request ev cx ph)"
    and "stays (ears i F n) (request_oob ev cx)"
    and "stays (ears i F n) (wait_for_operation_within ev i)"
proof -
  show "stays (ears i F n) (io_do (publish_paced ev m))"
  proof (unfold stays_def, intro allI impI)
    fix en :: "'d engine"
    assume "ears i F n en"
    then have "ears i F n (paced_loop ev (en_wakes en) False en)" by (intro ears_paced_loop) simp
    then show "ears i F n (snd (io_do (publish_paced ev m) en))"
      by (simp add: io_do_def publish_paced_def engine_publish_def ps_publish_def ears_def)
  qed
  show "stays (ears i F n) (wait_for_operation_within ev i)"
    by (simp add: stays_def wait_for_operation_within_def ears_wait_loop)
  have paused: "ears i F n (pause ev en)" if "ears i F n en" for en :: "'d engine" by (rule ears_pause [OF that])
  show "stays (ears i F n) (commit_request ev cx ph)" "stays (ears i F n) (request_oob ev cx)"
    using paused by (simp_all add: stays_def commit_request_def request_oob_def Let_def ears_def split: prod.split)
qed (simp_all add: stays_def io_do_def engine_publish_def ps_publish_def local_ignored_def remember_def
    remember_session_def announce_bonded_def local_or_def apply_remote_def refuse_def ears_def split: prod.split)

lemma drive_ears:
  assumes "ev_random ev = Some i" "ears i F n en"
  shows "ears i F n (snd (drive_pair_transaction ev pk peer en))"
proof -
  let ?cx = "\<lparr>cx_transaction_id = i, cx_host_pubkey = ps_host_pubkey (en_service en), cx_phone_pubkey = pk, cx_peer = peer\<rparr>"
  note defs = drive_capability_def drive_confirm_def drive_staging_def drive_prepared_def drive_mark_def drive_commit_def
    drive_committed_def expect_or_discard_def abort_with_discard_def wait_for_operation_def Let_def
    pair_commit_context.simps
  have "stays (ears i F n)
     (io_bind (drive_capability ev ?cx) (\<lambda>_. io_bind (drive_confirm ev ?cx) (\<lambda>_. io_bind (drive_staging ev ?cx) (\<lambda>_.
      io_bind (drive_prepared ev ?cx) (\<lambda>_. io_bind (drive_mark ev ?cx) (\<lambda>_. io_bind (drive_commit ev ?cx) (\<lambda>_.
      drive_committed ev ?cx)))))))"
    unfolding defs by (intro stays_rules)
  moreover have "ears i F n (en\<lparr>en_tx := tx_new i Coordinator\<rparr>)" using assms(2) by (simp add: ears_def)
  ultimately show ?thesis
    by (simp add: drive_pair_transaction_def assms(1) stays_def Let_def)
qed

subsection \<open>Runs with a phone that follows the protocol\<close>

text \<open>The request the driver sends for a commit context.\<close>

definition context_request :: "pair_commit_context \<Rightarrow> pair_commit_phase \<Rightarrow> pair_commit_request" where
  "context_request cx ph = \<lparr>pq_phase = ph, pq_transaction = cx_transaction_id cx, pq_phone_pubkey = cx_phone_pubkey cx,
     pq_host_pubkey = cx_host_pubkey cx, pq_peer = cx_peer cx\<rparr>"

text \<open>While the desktop waits, the phone reads the status register and writes one message.\<close>

definition phone_says :: "bytes \<Rightarrow> operation \<Rightarrow> wake" where
  "phone_says i oper =
     ([Status_Read 0, Control_Write True [Read_Bytes (message_encode \<lparr>msg_transaction = i, msg_operation = oper\<rparr>)] []], False)"

definition phone_reads :: wake where "phone_reads = ([Status_Read 0], False)"
definition phone_silent :: wake where "phone_silent = ([], False)"

lemma bounded_read_all: "c \<noteq> [] \<Longrightarrow> length c \<le> n \<Longrightarrow> bounded_read n [Read_Bytes c] = c"
  by simp

lemma absorb_says:
  assumes "length i = 16" "oper \<noteq> Op_Revoke"
  shows "absorb ev (fst (phone_says i oper)) en = en\<lparr>en_service := (en_service en)\<lparr>ps_unread := False,
    ps_inbox := ps_inbox (en_service en) @ [message_encode \<lparr>msg_transaction = i, msg_operation = oper\<rparr>]\<rparr>\<rparr>"
proof -
  define m where "m = \<lparr>msg_transaction = i, msg_operation = oper\<rparr>"
  have typed: "message_typed m" using assms(1) by (simp add: m_def message_typed_def)
  have len: "length (message_encode m) = 18" using length_message_encode [OF typed] by (simp add: wire_consts)
  then have read: "bounded_read PAIR_CONTROL_MAX_BYTES [Read_Bytes (message_encode m)] = message_encode m"
    by (intro bounded_read_all) (auto simp: PAIR_CONTROL_MAX_BYTES_def)
  have "split_frames (message_encode m) = [message_encode m]"
    using split_frames_concat [of "[Inl m]"] typed by simp
  moreover have "status_decode (message_encode m) = Inl Incompatible"
    using len by (simp add: status_decode_def wire_consts)
  moreover have "msg_operation m \<noteq> Op_Revoke" "message_encode m \<noteq> []" using assms(2) len by (auto simp: m_def)
  ultimately show ?thesis
    using message_decode_encode [OF typed]
    unfolding phone_says_def m_def [symmetric] fst_conv absorb_def
    by (simp add: read_bounded_eq read control_payload_def frame_control_payload_eq control_frame_def status_snapshot_def
        accept_control_def Let_def del: bounded_read.simps)
qed

lemma wait_hears:
  assumes "length i = 16" "\<not> is_abort_op oper" "oper \<noteq> Op_Revoke" "ps_inbox (en_service en) = []"
    and "en_wakes en = phone_says i oper # ws"
  shows "wait_for_operation_within ev i en =
    (Inr oper, en\<lparr>en_service := (en_service en)\<lparr>ps_unread := False\<rparr>, en_wakes := ws, en_received := en_received en @ [oper]\<rparr>)"
proof -
  define m where "m = \<lparr>msg_transaction = i, msg_operation = oper\<rparr>"
  have dec: "message_decode (message_encode m) = Inr m"
    by (rule message_decode_encode) (simp add: m_def message_typed_def assms(1))
  define en1 where "en1 = absorb ev (fst (phone_says i oper)) en"
  have en1: "en1 = en\<lparr>en_service := (en_service en)\<lparr>ps_unread := False, ps_inbox := [message_encode m]\<rparr>\<rparr>"
    using absorb_says [OF assms(1,3), of ev en] assms(4) by (simp add: en1_def m_def)
  have none: "take_message i (en_service en) = (None, en_service en)"
    by (simp add: take_message_def assms(4))
  have some: "take_message i (en_service en1) = (Some oper, (en_service en)\<lparr>ps_unread := False\<rparr>)"
    using dec assms(4) by (simp add: take_message_def en1 m_def remove_at_def)
  have "wait_for_operation_within ev i en = wait_loop ev i ws (snd (phone_says i oper)) en1"
    by (simp add: wait_for_operation_within_def assms(5) wait_loop.simps [of ev i "_ # _"] none en1_def case_prod_beta)
  also have "\<dots> = (Inr oper, en\<lparr>en_service := (en_service en)\<lparr>ps_unread := False\<rparr>, en_wakes := ws,
      en_received := en_received en @ [oper]\<rparr>)"
    by (subst wait_loop.simps) (use assms(2) in \<open>simp add: some, simp add: en1\<close>)
  finally show ?thesis .
qed

lemma publish_ready: "\<not> ps_unread (en_service en) \<Longrightarrow> publish_paced ev m en = engine_publish m en"
  by (simp add: publish_paced_def paced_loop.simps)

lemma pause_silent: "en_wakes en \<noteq> [] \<Longrightarrow> hd (en_wakes en) = phone_silent \<Longrightarrow> pause ev en = en\<lparr>en_wakes := tl (en_wakes en)\<rparr>"
  by (cases "en_wakes en") (simp_all add: pause_def phone_silent_def absorb_def)

lemma pause_reads:
  "en_wakes en \<noteq> [] \<Longrightarrow> hd (en_wakes en) = phone_reads \<Longrightarrow>
     pause ev en = en\<lparr>en_service := (en_service en)\<lparr>ps_unread := False\<rparr>, en_wakes := tl (en_wakes en)\<rparr>"
  by (cases "en_wakes en") (simp_all add: pause_def phone_reads_def absorb_def status_snapshot_def)

lemma wait_hears_next:
  assumes "en_wakes en \<noteq> []" "hd (en_wakes en) = phone_says i oper" "length i = 16" "\<not> is_abort_op oper" "oper \<noteq> Op_Revoke"
    "ps_inbox (en_service en) = []"
  shows "wait_for_operation_within ev i en = (Inr oper, en\<lparr>en_service := (en_service en)\<lparr>ps_unread := False\<rparr>,
    en_wakes := tl (en_wakes en), en_received := en_received en @ [oper]\<rparr>)"
proof -
  have "en_wakes en = phone_says i oper # tl (en_wakes en)" using assms(1,2) by (metis list.collapse)
  then show ?thesis by (rule wait_hears [OF assms(3-6)])
qed

lemma phone_says_iff [simp]:
  "phone_says i a = phone_says i b \<longleftrightarrow> a = b" "phone_says i a \<noteq> phone_silent" "phone_says i a \<noteq> phone_reads"
  "phone_silent \<noteq> phone_says i a" "phone_reads \<noteq> phone_says i a" "phone_reads \<noteq> phone_silent" "phone_silent \<noteq> phone_reads"
  by (auto simp: phone_says_def phone_silent_def phone_reads_def message_encode_def) (cases a; cases b; simp)

lemmas wait_hears_each = wait_hears_next [where oper = Op_Capability] wait_hears_next [where oper = Op_Confirm]
  wait_hears_next [where oper = Op_Prepared] wait_hears_next [where oper = Op_CommitAck] wait_hears_next [where oper = Op_Committed]

lemma wait_silence:
  "ps_inbox (en_service en) = [] \<Longrightarrow> en_wakes en = [] \<Longrightarrow> wait_for_operation_within ev i en = (Inl PE_Aborted, en)"
  by (simp add: wait_for_operation_within_def wait_loop.simps take_message_def)

definition until_commit :: "bytes \<Rightarrow> wake list" where
  "until_commit i = [phone_says i Op_Capability, phone_silent, phone_says i Op_Confirm, phone_silent,
     phone_says i Op_Prepared, phone_reads]"

definition whole_exchange :: "bytes \<Rightarrow> wake list" where
  "whole_exchange i = until_commit i @ [phone_says i Op_CommitAck, phone_says i Op_Committed, phone_silent]"

lemmas drive_eval = drive_pair_transaction_def drive_capability_def drive_confirm_def drive_staging_def drive_prepared_def
  drive_mark_def drive_commit_def drive_committed_def expect_or_discard_def abort_with_discard_def wait_for_operation_def
  io_bind_def io_do_def io_try_def io_fail_def io_return_def wait_hears_each publish_ready engine_publish_def ps_publish_def
  pause_silent pause_reads request_oob_def commit_request_def apply_remote_def local_or_def local_ignored_def remember_def
  remember_session_def tx_eval tx_new_def announce_bonded_def case_prod_beta

text \<open>A phone that falls silent right after COMMIT was published: the attempt counts as aborted and its
  staging is discarded, although the commit decision has been made durable and the transaction is
  uncertain.\<close>

lemma discard_after_commit:
  assumes "ev_random ev = Some i" "length i = 16" "en_wakes en = until_commit i"
    and "\<And>q d. fst (ev_commit ev q d)"
    and "fst (request_oob_confirmation (en_broker en) (ev_gui ev) (ev_socket ev) (peer_label address)
      (ps_host_pubkey (en_service en)) pk)"
  shows "case run_pair_attempt ev pk address en of (r, en') \<Rightarrow>
    r = Inl PE_Aborted \<and> tx_phase (en_tx en') = Uncertain \<and>
    en_requests en' = en_requests en @ [(PC_Stage, True), (PC_MarkCommit, True), (PC_Discard, True)] \<and>
    ps_session (en_service en') = Some (i, St_Unknown)"
  using assms(1-3,5) unfolding until_commit_def run_pair_attempt_def begin_session_def
  by (simp add: drive_eval assms(4) wait_silence) (simp add: pause_def tx_status_def assms(4))

lemma honest_pairing_run:
  assumes "ev_random ev = Some i" "length i = 16" "en_wakes en = whole_exchange i @ ws"
    and "cx = \<lparr>cx_transaction_id = i, cx_host_pubkey = ps_host_pubkey (en_service en), cx_phone_pubkey = pk,
      cx_peer = peer_label address\<rparr>"
    and "ev_commit ev (context_request cx PC_Stage) (en_daemon en) = (True, d1)"
    and "ev_commit ev (context_request cx PC_MarkCommit) d1 = (True, d2)"
    and "ev_commit ev (context_request cx PC_Promote) d2 = (True, d3)"
    and "fst (request_oob_confirmation (en_broker en) (ev_gui ev) (ev_socket ev) (peer_label address)
      (ps_host_pubkey (en_service en)) pk)"
  shows "case run_pair_attempt ev pk address en of (r, en') \<Rightarrow>
    r = Inr () \<and> tx_phase (en_tx en') = Bonded \<and> en_daemon en' = d3 \<and> en_wakes en' = ws \<and>
    en_requests en' = en_requests en @ [(PC_Stage, True), (PC_MarkCommit, True), (PC_Promote, True)] \<and>
    ps_session (en_service en') = Some (i, St_Bonded) \<and> en_revoked en' = en_revoked en"
proof -
  note answers = assms(5-7) [unfolded context_request_def assms(4) pair_commit_context.simps]
  show ?thesis
    using assms(1-3,8) answers unfolding whole_exchange_def until_commit_def run_pair_attempt_def begin_session_def
    by (simp add: drive_eval) (simp add: tx_status_def)
qed

text \<open>A user who accepts on the socket.\<close>

definition agreeable_socket :: socket_env where
  "agreeable_socket = \<lparr>se_runtime_dir = Some ''/run'', se_connect_ok = (\<lambda>_. True), se_write_ok = (\<lambda>_. True),
     se_response = (\<lambda>_. Some 1)\<rparr>"

definition agreeable_env :: "bytes \<Rightarrow> unit engine_env" where
  "agreeable_env i = \<lparr>ev_random = Some i, ev_commit = (\<lambda>q d. (True, d)),
     ev_gui = \<lparr>ge_send_ok = True, ge_calls = (\<lambda>_. [])\<rparr>, ev_socket = agreeable_socket\<rparr>"

definition idle_engine :: "wake list \<Rightarrow> unit engine" where
  "idle_engine ws = \<lparr>en_service = ps_new (replicate 32 1) [], en_broker = broker_new, en_daemon = (), en_tx = tx_new [] Coordinator,
     en_wakes = ws, en_requests = [], en_revoked = [], en_received = [], en_notices = []\<rparr>"

lemma agreeable_accepts:
  "fst (request_oob_confirmation broker_new g agreeable_socket ''AA'' (replicate 32 1) (replicate 32 k))"
proof -
  have "\<exists>payload framed. oob_request_encode \<lparr>or_id = 0, or_peer = ''AA'', or_host_pubkey = replicate 32 1,
      or_phone_pubkey = replicate 32 k\<rparr> = Some payload \<and> broker_frame payload = Some framed"
    by (simp add: oob_request_encode_def u16_try_from_def MAX_PEER_BYTES_def MAX_FRAME_BYTES_def broker_frame_def u32_try_from_def)
  then show ?thesis
    using oob_decision_lemma [where br = broker_new and g = g and se = agreeable_socket
        and peer = "''AA''" and host = "replicate 32 1" and phone = "replicate 32 k"]
    by (auto simp: broker_new_def agreeable_socket_def pairing_confirmation_socket_def runtime_socket_def)
qed

subsection \<open>Properties\<close>

text \<open>C3: every way a pairing attempt can end, whatever the phone writes, whenever it does, and whatever
  the daemon answers. Trust is promoted only after the user accepted, after the staging and the
  commit decision were made durable, and after the phone sent all five operations of this
  transaction in order; the attempt succeeds exactly when that promotion succeeds. Every operation
  the driver acted on was written by the phone as a message of this transaction during the attempt.\<close>

theorem pair_attempt_outcomes:
  "case run_pair_attempt ev pk address en of (r, en') \<Rightarrow>
     (case ev_random ev of
        None \<Rightarrow> r = Inl PE_Aborted \<and> en_requests en' = en_requests en
      | Some i \<Rightarrow> \<exists>reqs recv.
          en_requests en' = en_requests en @ reqs \<and> en_received en' = en_received en @ recv \<and>
          attempt_outcome
            (fst (request_oob_confirmation (en_broker en) (ev_gui ev) (ev_socket ev) (peer_label address)
               (ps_host_pubkey (en_service en)) pk))
            r reqs recv (tx_phase (en_tx en')) \<and>
          (\<lambda>oper. message_encode \<lparr>msg_transaction = i, msg_operation = oper\<rparr>) ` set recv \<subseteq> set (script_frames (en_wakes en)))"
proof (cases "ev_random ev")
  case None
  then show ?thesis by (simp add: run_pair_attempt_def drive_pair_transaction_def)
next
  case (Some i)
  define en0 where "en0 = en\<lparr>en_service := begin_session (en_service en)\<rparr>"
  define cx where "cx = \<lparr>cx_transaction_id = i, cx_host_pubkey = ps_host_pubkey (en_service en0),
    cx_phone_pubkey = pk, cx_peer = peer_label address\<rparr>"
  obtain r en' where run: "run_pair_attempt ev pk address en = (r, en')" by force
  then have drive: "drive_pair_transaction ev pk (peer_label address) en0 = (r, en')"
    by (simp add: run_pair_attempt_def en0_def)
  have same: "en_requests en0 = en_requests en" "en_received en0 = en_received en" "en_broker en0 = en_broker en"
    "en_wakes en0 = en_wakes en" "ps_host_pubkey (en_service en0) = ps_host_pubkey (en_service en)"
    by (simp_all add: en0_def begin_session_def)
  obtain reqs recv where out: "en_requests en' = en_requests en @ reqs" "en_received en' = en_received en @ recv"
    "attempt_outcome (user_accepts ev cx (en_broker en)) r reqs recv (tx_phase (en_tx en'))"
    using drive_outcome [OF Some cx_def] drive same by (auto simp: outcome_from_def)
  have "ears i (set (script_frames (en_wakes en))) (length (en_received en)) en0"
    by (simp add: ears_def same) (simp add: en0_def begin_session_def)
  from drive_ears [OF Some this, of pk "peer_label address"] drive out(2)
  have "(\<lambda>oper. message_encode \<lparr>msg_transaction = i, msg_operation = oper\<rparr>) ` set recv \<subseteq> set (script_frames (en_wakes en))"
    by (simp add: ears_def)
  with out Some run same show ?thesis by (auto simp: user_accepts_def cx_def)
qed



end
