(* ===== verification/Bond_Store.thy ===== *)
theory Bond_Store
  imports Crypto File_System
begin

unbundle bit_operations_syntax

section \<open>The bond store\<close>

text \<open>
  \<open>syauth-core/src/bond.rs\<close>: the list of bonded phones, its operations, and its file. The TOML and
  RFC 3339 codecs (crates \<open>toml\<close> and \<open>time\<close>) are the parameter \<open>serde\<close>, applied to the values the
  derived serializers hand them; the field codecs written in the source (the hexadecimal public
  key) are modelled. A panic while parsing is the error \<open>Bond_Panic\<close>. An \<open>OffsetDateTime\<close> is its
  instant, in nanoseconds.
\<close>

definition PUBKEY_LEN :: nat where [wire_consts]: "PUBKEY_LEN = 32"
definition PEER_ID_BLAKE3_BYTES :: nat where [wire_consts]: "PEER_ID_BLAKE3_BYTES = 16"
definition PEER_ID_HEX_LEN :: nat where [wire_consts]: "PEER_ID_HEX_LEN = PEER_ID_BLAKE3_BYTES * 2"
definition BOND_FILE_MODE :: u32 where "BOND_FILE_MODE = 0x180"
definition BOND_DIR_MODE :: u32 where "BOND_DIR_MODE = 0x1C0"
definition BOND_SCHEMA_VERSION_LATEST :: u32 where "BOND_SCHEMA_VERSION_LATEST = 1"
definition BOND_HKDF_INFO_V1 :: bytes where "BOND_HKDF_INFO_V1 = string_bytes ''syauth-bond-v1''"
definition BOND_KEY_DERIVED_BYTES :: nat where [wire_consts]: "BOND_KEY_DERIVED_BYTES = 32"
definition BOND_DIR_PERMISSION_MASK :: u32 where "BOND_DIR_PERMISSION_MASK = 0x1FF"

datatype bond_status =
    Bond_Bonded
  | Bond_Revoked string

record bond =
  bond_peer_id :: string
  bond_pubkey :: bytes
  bond_name :: string
  bond_created_at :: int
  bond_status :: bond_status

definition is_revoked :: "bond \<Rightarrow> bool" where
  "is_revoked b = (case bond_status b of Bond_Revoked r \<Rightarrow> True | Bond_Bonded \<Rightarrow> False)"

datatype bond_error =
    Bond_Io path io_error
  | Bond_Parse
  | Bond_Serialize
  | UnsupportedSchemaVersion u32 u32
  | AlreadyBonded string
  | UnknownPeer string
  | ParentDirTooPermissive path u32 u32
  | PeerIdMismatch string string
  | Bond_Panic

type_synonym bond_store = "bond list"

text \<open>A bond as the TOML serializer sees it.\<close>

record raw_bond =
  raw_peer_id :: string
  raw_pubkey :: string
  raw_name :: string
  raw_created_at :: string
  raw_status :: bond_status

record bond_file =
  bf_schema_version :: u32
  bf_bonds :: "raw_bond list"

record serde =
  toml_to_string :: "bond_file \<Rightarrow> string option"
  toml_from_str :: "string \<Rightarrow> bond_file option"
  rfc3339_format :: "int \<Rightarrow> string option"
  rfc3339_parse :: "string \<Rightarrow> int option"

text \<open>What the program relies on: what the two crates print is text, and they read it back.\<close>

definition serde_laws :: "serde \<Rightarrow> bool" where
  "serde_laws sd \<longleftrightarrow>
     (\<forall>f s. toml_to_string sd f = Some s \<longrightarrow> string_ok s \<and> toml_from_str sd s = Some f) \<and>
     (\<forall>d s. rfc3339_format sd d = Some s \<longrightarrow> rfc3339_parse sd s = Some d)"

subsection \<open>Identity and key derivation\<close>

definition peer_id_from_pubkey :: "crypto \<Rightarrow> bytes \<Rightarrow> string" where
  "peer_id_from_pubkey cr pk = hex_encode (take PEER_ID_BLAKE3_BYTES (blake3_hash cr pk))"

definition bond_key_from_pubkeys :: "crypto \<Rightarrow> bytes \<Rightarrow> bytes \<Rightarrow> bytes" where
  "bond_key_from_pubkeys cr host phone =
     (case hkdf_sha256 cr (host @ phone) BOND_HKDF_INFO_V1 BOND_KEY_DERIVED_BYTES of
        Some out \<Rightarrow> out
      | None \<Rightarrow> replicate BOND_KEY_DERIVED_BYTES 0)"

subsection \<open>Operations on the list\<close>

definition store_empty :: bond_store where
  "store_empty = []"

definition store_find_index :: "bond_store \<Rightarrow> string \<Rightarrow> nat option" where
  "store_find_index bs pid = position (\<lambda>b. bond_peer_id b = pid) bs"

definition store_add :: "bond_store \<Rightarrow> bond \<Rightarrow> (bond_error, bond_store) result" where
  "store_add bs b =
     (case store_find_index bs (bond_peer_id b) of
        Some i \<Rightarrow> Inl (AlreadyBonded (bond_peer_id b))
      | None \<Rightarrow> Inr (bs @ [b]))"

definition store_remove :: "bond_store \<Rightarrow> string \<Rightarrow> (bond_error, bond_store) result" where
  "store_remove bs pid =
     (case store_find_index bs pid of
        Some i \<Rightarrow> Inr (remove_at i bs)
      | None \<Rightarrow> Inl (UnknownPeer pid))"

definition store_mark_revoked :: "bond_store \<Rightarrow> string \<Rightarrow> string \<Rightarrow> (bond_error, bond_store) result" where
  "store_mark_revoked bs pid reason =
     (case store_find_index bs pid of
        Some i \<Rightarrow>
          (case bond_status (bs ! i) of
             Bond_Revoked r \<Rightarrow> Inr bs
           | Bond_Bonded \<Rightarrow> Inr (bs[i := (bs ! i)\<lparr>bond_status := Bond_Revoked reason\<rparr>]))
      | None \<Rightarrow> Inl (UnknownPeer pid))"

subsection \<open>Reading the file\<close>

definition hex_pubkey_deserialize :: "string \<Rightarrow> (bond_error, bytes) result" where
  "hex_pubkey_deserialize raw =
     (if length raw \<noteq> PUBKEY_LEN * 2 then Inl Bond_Parse
      else result_map_err (\<lambda>e. case e of Hex_Panic \<Rightarrow> Bond_Panic | Hex_Digit \<Rightarrow> Bond_Parse)
        (hex_from raw 0 PUBKEY_LEN))"

definition bond_of_raw :: "serde \<Rightarrow> raw_bond \<Rightarrow> (bond_error, bond) result" where
  "bond_of_raw sd r =
     result_bind (hex_pubkey_deserialize (raw_pubkey r)) (\<lambda>pk.
     result_bind (ok_or Bond_Parse (rfc3339_parse sd (raw_created_at r))) (\<lambda>d.
       Inr \<lparr>bond_peer_id = raw_peer_id r, bond_pubkey = pk, bond_name = raw_name r,
            bond_created_at = d, bond_status = raw_status r\<rparr>))"

primrec bonds_of_raw :: "serde \<Rightarrow> raw_bond list \<Rightarrow> (bond_error, bond_store) result" where
  "bonds_of_raw sd [] = Inr []"
| "bonds_of_raw sd (r # rs) =
     result_bind (bond_of_raw sd r) (\<lambda>b. result_bind (bonds_of_raw sd rs) (\<lambda>bs. Inr (b # bs)))"

primrec check_peer_ids :: "crypto \<Rightarrow> bond_store \<Rightarrow> (bond_error, unit) result" where
  "check_peer_ids cr [] = Inr ()"
| "check_peer_ids cr (b # bs) =
     (if bond_peer_id b \<noteq> peer_id_from_pubkey cr (bond_pubkey b)
      then Inl (PeerIdMismatch (bond_peer_id b) (peer_id_from_pubkey cr (bond_pubkey b)))
      else check_peer_ids cr bs)"

definition parse_store :: "crypto \<Rightarrow> serde \<Rightarrow> string \<Rightarrow> (bond_error, bond_store) result" where
  "parse_store cr sd raw =
     result_bind (ok_or Bond_Parse (toml_from_str sd raw)) (\<lambda>f.
     result_bind (bonds_of_raw sd (bf_bonds f)) (\<lambda>bs.
       if bf_schema_version f > BOND_SCHEMA_VERSION_LATEST
       then Inl (UnsupportedSchemaVersion (bf_schema_version f) BOND_SCHEMA_VERSION_LATEST)
       else result_bind (check_peer_ids cr bs) (\<lambda>_. Inr bs)))"

definition store_load :: "crypto \<Rightarrow> serde \<Rightarrow> path \<Rightarrow> (bond_error, bond_store) prog" where
  "store_load cr sd path =
     io_bind (io_try (fs_read_to_string path)) (\<lambda>r.
       case r of
         Inr raw \<Rightarrow> io_lift (parse_store cr sd raw)
       | Inl e \<Rightarrow> if e = Io_NotFound then io_return [] else io_fail (Bond_Io path e))"

subsection \<open>Writing the file\<close>

definition raw_of_bond :: "serde \<Rightarrow> bond \<Rightarrow> raw_bond option" where
  "raw_of_bond sd b =
     map_option (\<lambda>d. \<lparr>raw_peer_id = bond_peer_id b, raw_pubkey = hex_encode (bond_pubkey b),
        raw_name = bond_name b, raw_created_at = d, raw_status = bond_status b\<rparr>)
       (rfc3339_format sd (bond_created_at b))"

primrec raws_of_bonds :: "serde \<Rightarrow> bond_store \<Rightarrow> raw_bond list option" where
  "raws_of_bonds sd [] = Some []"
| "raws_of_bonds sd (b # bs) =
     (case raw_of_bond sd b of None \<Rightarrow> None | Some r \<Rightarrow> map_option ((#) r) (raws_of_bonds sd bs))"

definition serialize_to_toml :: "serde \<Rightarrow> bond_store \<Rightarrow> (bond_error, bytes) result" where
  "serialize_to_toml sd bs =
     ok_or Bond_Serialize
       (case raws_of_bonds sd bs of
          None \<Rightarrow> None
        | Some rs \<Rightarrow> map_option string_bytes
            (toml_to_string sd \<lparr>bf_schema_version = BOND_SCHEMA_VERSION_LATEST, bf_bonds = rs\<rparr>))"

definition parent_dir_of :: "path \<Rightarrow> (bond_error, path) result" where
  "parent_dir_of path = ok_or (Bond_Io path Io_InvalidInput) (path_parent path)"

definition ensure_parent_dir :: "path \<Rightarrow> (bond_error, unit) prog" where
  "ensure_parent_dir parent =
     io_bind (io_try (fs_metadata parent)) (\<lambda>r.
       case r of
         Inr (Dir m) \<Rightarrow>
           (let mode = m AND BOND_DIR_PERMISSION_MASK in
            if mode AND NOT BOND_DIR_MODE \<noteq> 0
            then io_fail (ParentDirTooPermissive parent mode BOND_DIR_MODE) else io_return ())
       | Inr (File c m) \<Rightarrow> io_fail (Bond_Io parent Io_NotADirectory)
       | Inl e \<Rightarrow>
           if e = Io_NotFound
           then io_bind (io_map_err (Bond_Io parent) (fs_create_dir_all parent)) (\<lambda>_.
                  io_map_err (Bond_Io parent) (fs_set_permissions parent BOND_DIR_MODE))
           else io_fail (Bond_Io parent e))"

text \<open>Once the temporary file exists, every failure drops it, which removes it.\<close>

definition fill_and_persist :: "path \<Rightarrow> bytes \<Rightarrow> path \<Rightarrow> (bond_error, unit) prog" where
  "fill_and_persist tmp content path =
     io_bind (io_map_err (Bond_Io tmp) (fs_set_permissions tmp BOND_FILE_MODE)) (\<lambda>_.
     io_bind (io_map_err (Bond_Io tmp) (fs_write tmp content)) (\<lambda>_.
     io_bind (io_map_err (Bond_Io tmp) fs_sync) (\<lambda>_.
     io_map_err (Bond_Io path) (fs_rename tmp path))))"

definition store_save :: "serde \<Rightarrow> bond_store \<Rightarrow> path \<Rightarrow> (bond_error, unit) prog" where
  "store_save sd bs path =
     io_bind (io_lift (parent_dir_of path)) (\<lambda>parent.
     io_bind (ensure_parent_dir parent) (\<lambda>_.
     io_bind (io_lift (serialize_to_toml sd bs)) (\<lambda>content.
     io_bind (io_map_err (Bond_Io parent) (fs_temp_in parent)) (\<lambda>tmp.
     io_on_error (fill_and_persist tmp content path) (fs_remove_file tmp)))))"

subsection \<open>The list as a keyed store\<close>

definition store_ok :: "bond_store \<Rightarrow> bool" where
  "store_ok bs \<longleftrightarrow> distinct (map bond_peer_id bs)"

definition store_lookup :: "bond_store \<Rightarrow> string \<Rightarrow> bond option" where
  "store_lookup bs pid = find (\<lambda>b. bond_peer_id b = pid) bs"

lemma store_find_index_None: "store_find_index bs pid = None \<longleftrightarrow> pid \<notin> bond_peer_id ` set bs"
  by (auto simp: store_find_index_def)

lemma store_lookup_None: "store_lookup bs pid = None \<longleftrightarrow> pid \<notin> bond_peer_id ` set bs"
  by (auto simp: store_lookup_def find_None_iff)

lemma store_lookup_snoc:
  "bond_peer_id b \<notin> bond_peer_id ` set bs \<Longrightarrow>
   store_lookup (bs @ [b]) = (store_lookup bs)(bond_peer_id b \<mapsto> b)"
  by (induction bs) (auto simp: store_lookup_def fun_eq_iff)

lemma store_lookup_remove_at:
  "store_ok bs \<Longrightarrow> store_find_index bs pid = Some i \<Longrightarrow>
   store_lookup (remove_at i bs) = (store_lookup bs)(pid := None)"
proof (induction bs arbitrary: i)
  case (Cons b bs)
  have none: "bond_peer_id b \<notin> bond_peer_id ` set bs" "store_ok bs"
    using Cons.prems(1) by (auto simp: store_ok_def)
  show ?case
  proof (cases "bond_peer_id b = pid")
    case True
    then have "i = 0" using Cons.prems(2) by (simp add: store_find_index_def)
    moreover have "store_lookup bs pid = None" using none True by (simp add: store_lookup_None)
    ultimately show ?thesis using True by (auto simp: store_lookup_def fun_eq_iff)
  next
    case False
    then obtain j where j: "i = Suc j" "store_find_index bs pid = Some j"
      using Cons.prems(2) by (auto simp: store_find_index_def)
    then show ?thesis
      using Cons.IH [OF none(2) j(2)] False by (auto simp: store_lookup_def fun_eq_iff)
  qed
qed (simp add: store_find_index_def)

lemma store_lookup_in: "store_ok bs \<Longrightarrow> x \<in> set bs \<Longrightarrow> store_lookup bs (bond_peer_id x) = Some x"
  by (induction bs) (auto simp: store_ok_def store_lookup_def image_iff)

lemma store_lookup_update:
  "store_ok bs \<Longrightarrow> store_find_index bs pid = Some i \<Longrightarrow> bond_peer_id b' = pid \<Longrightarrow>
   store_lookup (bs[i := b']) = (store_lookup bs)(pid \<mapsto> b') \<and> store_ok (bs[i := b'])"
proof (induction bs arbitrary: i)
  case (Cons b bs)
  show ?case
  proof (cases "bond_peer_id b = pid")
    case True
    then show ?thesis using Cons.prems
      by (auto simp: store_lookup_def store_ok_def store_find_index_def fun_eq_iff)
  next
    case False
    then obtain j where j: "i = Suc j" "store_find_index bs pid = Some j"
      using Cons.prems(2) by (auto simp: store_find_index_def)
    have "map bond_peer_id (bs[j := b']) = map bond_peer_id bs"
      using position_SomeD [OF j(2) [unfolded store_find_index_def]] Cons.prems(3)
      by (simp add: map_update list_update_same_conv)
    then have "set (map bond_peer_id (bs[j := b'])) = set (map bond_peer_id bs)" by simp
    then show ?thesis
      using Cons.IH [OF _ j(2)] Cons.prems False j
      by (auto simp: store_lookup_def store_ok_def fun_eq_iff)
  qed
qed (simp add: store_find_index_def)

interpretation bonds: keyed_store store_ok bond_peer_id store_lookup store_add store_remove
proof
  fix bs :: bond_store and b pid
  assume ok: "store_ok bs"
  show "\<exists>s'. store_add bs b = Inr s' \<and> store_ok s' \<and> store_lookup s' = (store_lookup bs)(bond_peer_id b \<mapsto> b)"
    if "store_lookup bs (bond_peer_id b) = None"
    using that ok store_find_index_None [of bs "bond_peer_id b"]
    by (auto simp: store_add_def store_lookup_None store_lookup_snoc store_ok_def)
  show "\<exists>e. store_add bs b = Inl e" if "store_lookup bs (bond_peer_id b) \<noteq> None"
    using that store_find_index_None [of bs "bond_peer_id b"]
    by (auto simp: store_add_def store_lookup_None split: option.splits)
  show "\<exists>s'. store_remove bs pid = Inr s' \<and> store_ok s' \<and> store_lookup s' = (store_lookup bs)(pid := None)"
    if some: "store_lookup bs pid \<noteq> None"
  proof -
    obtain i where i: "store_find_index bs pid = Some i"
      using some store_find_index_None [of bs pid] by (auto simp: store_lookup_None)
    then show ?thesis
      using ok store_lookup_remove_at [OF ok i]
      by (auto simp: store_remove_def store_ok_def map_remove_at distinct_remove_at)
  qed
  show "\<exists>e. store_remove bs pid = Inl e" if "store_lookup bs pid = None"
    using that store_find_index_None [of bs pid]
    by (auto simp: store_remove_def store_lookup_None split: option.splits)
qed

subsection \<open>Reading back what was written\<close>

text \<open>What the Rust types and the construction of bonds guarantee.\<close>

definition bond_wf :: "crypto \<Rightarrow> bond \<Rightarrow> bool" where
  "bond_wf cr b \<longleftrightarrow>
     length (bond_pubkey b) = PUBKEY_LEN \<and> bond_peer_id b = peer_id_from_pubkey cr (bond_pubkey b)"

lemma hex_pubkey_roundtrip:
  "length pk = PUBKEY_LEN \<Longrightarrow> hex_pubkey_deserialize (hex_encode pk) = Inr pk"
  using hex_from_encode [of "[]" pk] by (simp add: hex_pubkey_deserialize_def result_map_err_def)

lemma bonds_of_raw_roundtrip:
  assumes "serde_laws sd" and "raws_of_bonds sd bs = Some rs" and "list_all (bond_wf cr) bs"
  shows "bonds_of_raw sd rs = Inr bs"
  using assms(2,3)
proof (induction bs arbitrary: rs)
  case (Cons b bs)
  then obtain d rs' where d: "rfc3339_format sd (bond_created_at b) = Some d"
    and rs': "raws_of_bonds sd bs = Some rs'"
    and rs: "rs = \<lparr>raw_peer_id = bond_peer_id b, raw_pubkey = hex_encode (bond_pubkey b),
        raw_name = bond_name b, raw_created_at = d, raw_status = bond_status b\<rparr> # rs'"
    by (auto simp: raw_of_bond_def split: option.splits)
  have "rfc3339_parse sd d = Some (bond_created_at b)"
    using assms(1) d by (simp add: serde_laws_def)
  moreover have "hex_pubkey_deserialize (hex_encode (bond_pubkey b)) = Inr (bond_pubkey b)"
    using Cons.prems(2) by (simp add: bond_wf_def hex_pubkey_roundtrip)
  ultimately show ?case
    using Cons.IH [OF rs'] Cons.prems(2) rs by (simp add: bond_of_raw_def ok_or_def)
qed simp

lemma check_peer_ids_wf: "list_all (bond_wf cr) bs \<Longrightarrow> check_peer_ids cr bs = Inr ()"
  by (induction bs) (auto simp: bond_wf_def)

lemma parse_serialized:
  assumes "serde_laws sd" and "serialize_to_toml sd bs = Inr c" and "list_all (bond_wf cr) bs"
  shows "\<exists>raw. from_utf8 c = Some raw \<and> parse_store cr sd raw = Inr bs"
proof -
  obtain rs raw where rs: "raws_of_bonds sd bs = Some rs"
    and raw: "toml_to_string sd \<lparr>bf_schema_version = BOND_SCHEMA_VERSION_LATEST, bf_bonds = rs\<rparr> = Some raw"
    and c: "c = string_bytes raw"
    using assms(2) by (auto simp: serialize_to_toml_def ok_or_def split: option.splits)
  have "string_ok raw"
    and "toml_from_str sd raw = Some \<lparr>bf_schema_version = BOND_SCHEMA_VERSION_LATEST, bf_bonds = rs\<rparr>"
    using assms(1) raw by (auto simp: serde_laws_def)
  then show ?thesis
    using bonds_of_raw_roundtrip [OF assms(1) rs assms(3)] check_peer_ids_wf [OF assms(3)] c
    by (simp add: parse_store_def ok_or_def)
qed

text \<open>What \<open>load\<close> guarantees of whatever it accepts.\<close>

lemma check_peer_ids_InrD: "check_peer_ids cr bs = Inr u \<Longrightarrow> b \<in> set bs \<Longrightarrow>
    bond_peer_id b = peer_id_from_pubkey cr (bond_pubkey b)"
  by (induction bs) (auto split: if_splits)

lemma bonds_of_raw_widths: "bonds_of_raw sd rs = Inr bs \<Longrightarrow> b \<in> set bs \<Longrightarrow> length (bond_pubkey b) = PUBKEY_LEN"
proof (induction rs arbitrary: bs)
  case (Cons r rs)
  then obtain b' bs' where "bond_of_raw sd r = Inr b'" "bonds_of_raw sd rs = Inr bs'" "bs = b' # bs'"
    by (auto simp: result_bind_Inr_iff)
  moreover from this have "length (bond_pubkey b') = PUBKEY_LEN"
    by (auto simp: bond_of_raw_def result_bind_Inr_iff hex_pubkey_deserialize_def result_map_err_def
        dest: hex_from_length split: if_splits sum.splits)
  ultimately show ?case using Cons by auto
qed simp

lemma parse_store_wf: "parse_store cr sd raw = Inr bs \<Longrightarrow> list_all (bond_wf cr) bs"
  by (auto simp: parse_store_def result_bind_Inr_iff list_all_iff bond_wf_def
      dest: check_peer_ids_InrD bonds_of_raw_widths split: if_splits)

subsection \<open>Saving under faults\<close>

lemma keeps_ensure_parent_dir:
  assumes "\<And>N q v. P N \<Longrightarrow> q \<noteq> [] \<Longrightarrow> prefix q parent \<Longrightarrow> P (N(q := v))" and "parent \<noteq> []"
  shows "keeps P (ensure_parent_dir parent)"
  unfolding ensure_parent_dir_def
proof (rule hoare_bind [where R = "\<lambda>_. P"])
  show "keeps P (io_try (fs_metadata parent))"
    by (rule hoare_try) (auto intro: hoare_metadata)
  have make: "keeps P (io_bind (io_map_err (Bond_Io parent) (fs_create_dir_all parent)) (\<lambda>_.
      io_map_err (Bond_Io parent) (fs_set_permissions parent BOND_DIR_MODE)))"
    by (rule hoare_bind [where R = "\<lambda>_. P"])
       (auto simp: hoare_map_err intro!: keeps_create_dir_all hoare_set_permissions assms)
  show "keeps P (case x of
         Inr (Dir m) \<Rightarrow>
           (let mode = m AND BOND_DIR_PERMISSION_MASK in
            if mode AND NOT BOND_DIR_MODE \<noteq> 0
            then io_fail (ParentDirTooPermissive parent mode BOND_DIR_MODE) else io_return ())
       | Inr (File c m) \<Rightarrow> io_fail (Bond_Io parent Io_NotADirectory)
       | Inl e \<Rightarrow>
           if e = Io_NotFound
           then io_bind (io_map_err (Bond_Io parent) (fs_create_dir_all parent)) (\<lambda>_.
                  io_map_err (Bond_Io parent) (fs_set_permissions parent BOND_DIR_MODE))
           else io_fail (Bond_Io parent e))" for x
    using make by (auto simp: Let_def intro!: hoare_rules split: sum.split node.split)
qed

text \<open>The rule of \<open>save\<close>: whatever survives new directories on the way and temporary files beside
  the target survives a failure, and after a success the target holds the serialization.\<close>

lemma hoare_fill_and_persist:
  assumes tmp: "\<And>N v. P N \<Longrightarrow> P (N(t := v))"
    and fin: "\<And>N. P N \<Longrightarrow> Q () (N(path \<mapsto> File c BOND_FILE_MODE))"
  shows "hoare (\<lambda>N. P N \<and> is_file N t) (fill_and_persist t c path) Q (\<lambda>_. P)"
proof -
  let ?R = "\<lambda>c N. P N \<and> N t = Some (File c BOND_FILE_MODE)"
  have "hoare (\<lambda>N. P N \<and> is_file N t) (fs_set_permissions t BOND_FILE_MODE) (\<lambda>_ N. \<exists>c. ?R c N) (\<lambda>_. P)"
    by (rule hoare_set_permissions)
       (auto intro!: tmp simp: is_file_def with_mode_def split: option.splits node.splits)
  moreover have "hoare (\<lambda>N. \<exists>c. ?R c N) (fs_write t c) (\<lambda>_. ?R c) (\<lambda>_. P)"
    by (rule hoare_write) (auto intro!: tmp)
  moreover have "hoare (?R c) fs_sync (\<lambda>_. ?R c) (\<lambda>_. P)"
    by (rule hoare_sync) auto
  moreover have "hoare (?R c) (fs_rename t path) Q (\<lambda>_. P)"
    by (rule hoare_rename) (auto intro!: fin tmp)
  ultimately show ?thesis
    unfolding fill_and_persist_def
    by (intro hoare_bind; simp add: hoare_map_err)
qed

lemma hoare_store_save:
  assumes dir: "\<And>N q v. P N \<Longrightarrow> q \<noteq> [] \<Longrightarrow> prefix q (butlast path) \<Longrightarrow> P (N(q := v))"
    and tmp: "\<And>N r v. P N \<Longrightarrow> P (N(butlast path @ [temp_name r] := v))"
    and fin: "\<And>N c. P N \<Longrightarrow> serialize_to_toml sd bs = Inr c \<Longrightarrow> Q () (N(path \<mapsto> File c BOND_FILE_MODE))"
    and par: "butlast path \<noteq> []"
  shows "hoare P (store_save sd bs path) Q (\<lambda>_. P)"
proof -
  have parent: "parent_dir_of path = Inr (butlast path)"
    using par by (auto simp: parent_dir_of_def path_parent_def ok_or_def)
  let ?S = "\<lambda>c N. P N \<and> serialize_to_toml sd bs = Inr c"
  let ?T = "\<lambda>c t N. P N \<and> serialize_to_toml sd bs = Inr c \<and> (\<exists>r. t = butlast path @ [temp_name r]) \<and> is_file N t"
  have "hoare P (ensure_parent_dir (butlast path)) (\<lambda>_. P) (\<lambda>_. P)"
    using dir par by (intro keeps_ensure_parent_dir)
  moreover have "hoare P (io_lift (serialize_to_toml sd bs)) ?S (\<lambda>_. P)"
    by (rule hoare_lift) auto
  moreover have "hoare (?S c) (fs_temp_in (butlast path)) (?T c) (\<lambda>_. P)" for c
    by (intro hoare_temp_in) (auto intro: tmp simp: is_file_def)
  moreover have "hoare (?T c t) (io_on_error (fill_and_persist t c path) (fs_remove_file t)) Q (\<lambda>_. P)" for c t
  proof (cases "serialize_to_toml sd bs = Inr c \<and> (\<exists>r. t = butlast path @ [temp_name r])")
    case True
    then have "hoare (?T c t) (fill_and_persist t c path) Q (\<lambda>_. P)"
      using hoare_fill_and_persist [of P t Q path c] tmp fin by auto
    moreover have "hoare P (fs_remove_file t) (\<lambda>_. P) (\<lambda>_. P)"
      using True by (intro hoare_remove_file) (auto intro: tmp)
    ultimately show ?thesis by (rule hoare_on_error)
  qed (auto simp: hoare_def)
  ultimately show ?thesis
    unfolding store_save_def parent io_bind_lift_Inr
    by (intro hoare_bind; simp add: hoare_map_err)
qed

text \<open>What is at the path of a store: nothing, which reads as the empty store, or a file that parses.\<close>

definition store_at :: "crypto \<Rightarrow> serde \<Rightarrow> nodes \<Rightarrow> path \<Rightarrow> bond_store \<Rightarrow> bool" where
  "store_at cr sd N path bs \<longleftrightarrow> (N path = None \<and> bs = []) \<or>
     (\<exists>raw m. N path = Some (File (string_bytes raw) m) \<and> parse_store cr sd raw = Inr bs)"

lemma hoare_store_load:
  "hoare P (store_load cr sd path) (\<lambda>bs N. P N \<and> store_at cr sd N path bs) (\<lambda>_. P)"
  unfolding store_load_def
proof (rule hoare_bind)
  show "hoare P (io_try (fs_read_to_string path)) (\<lambda>r N. P N \<and> (case r of
      Inr raw \<Rightarrow> \<exists>m. N path = Some (File (string_bytes raw) m)
    | Inl e \<Rightarrow> e = Io_NotFound \<longrightarrow> N path = None)) (\<lambda>_. P)"
    by (rule hoare_try) (auto intro: hoare_read_to_string)
  show "hoare (\<lambda>N. P N \<and> (case r of
      Inr raw \<Rightarrow> \<exists>m. N path = Some (File (string_bytes raw) m)
    | Inl e \<Rightarrow> e = Io_NotFound \<longrightarrow> N path = None))
     (case r of Inr raw \<Rightarrow> io_lift (parse_store cr sd raw)
       | Inl e \<Rightarrow> if e = Io_NotFound then io_return [] else io_fail (Bond_Io path e))
     (\<lambda>bs N. P N \<and> store_at cr sd N path bs) (\<lambda>_. P)" for r
    by (cases r) (auto intro!: hoare_rules simp: store_at_def)
qed

lemma keeps_store_load [keeps_rules]: "keeps P (store_load cr sd path)"
  by (rule hoare_weaken [OF hoare_store_load]) auto

lemma known_load:
  assumes "\<And>e. E (g e) N0" and "\<And>bs. store_at cr sd N0 p bs \<Longrightarrow> hoare (\<lambda>N. N = N0) (f bs) Q E"
  shows "hoare (\<lambda>N. N = N0) (io_bind (io_map_err g (store_load cr sd p)) f) Q E"
proof (rule hoare_bind)
  show "hoare (\<lambda>N. N = N0) (io_map_err g (store_load cr sd p)) (\<lambda>bs N. N = N0 \<and> store_at cr sd N0 p bs) E"
    unfolding hoare_map_err by (rule hoare_weaken [OF hoare_store_load [where P = "\<lambda>N. N = N0"]]) (auto intro: assms(1))
  show "hoare (\<lambda>N. N = N0 \<and> store_at cr sd N0 p bs) (f bs) Q E" for bs
    by (rule hoare_pure) (rule assms(2))
qed

lemma keeps_store_save:
  assumes "frame_on W P" and "butlast path \<noteq> []" and "W path"
    and "\<And>q. q \<noteq> [] \<Longrightarrow> prefix q (butlast path) \<Longrightarrow> W q" and "\<And>r. W (butlast path @ [temp_name r])"
  shows "keeps P (store_save sd bs path)"
  using assms(2) by (intro hoare_store_save) (auto intro: frame_onD [OF assms(1)] assms(3-))

lemma store_load_serialized:
  assumes "serde_laws sd" "calm s" "fs_nodes s p = Some (File c m)" "serialize_to_toml sd bs = Inr c" "list_all (bond_wf cr) bs"
  shows "store_load cr sd p s = (Inr bs, s)"
proof -
  obtain raw where "from_utf8 c = Some raw" "parse_store cr sd raw = Inr bs"
    using parse_serialized [OF assms(1,4,5)] by blast
  then show ?thesis
    using fs_read_to_string_calm [OF assms(2,3)]
    by (simp add: store_load_def io_bind_def io_try_def io_lift_def)
qed

lemma temp_name_not: "take 4 n \<noteq> ''.tmp'' \<Longrightarrow> n \<noteq> temp_name r"
  by (auto simp: temp_name_def)

lemma store_load_calm:
  assumes "calm s" and "fs_nodes s path = Some (File c m)" and "from_utf8 c = Some raw"
  shows "store_load cr sd path s = (parse_store cr sd raw, s)"
  using fs_read_to_string_calm [OF assms]
  by (simp add: store_load_def io_bind_def io_try_def io_lift_def)

subsection \<open>A concrete instance of the codecs\<close>

text \<open>It prints and reads one file and one instant, which is enough to evaluate the laws.\<close>

definition one_file_serde :: "bond_file \<Rightarrow> serde" where
  "one_file_serde f0 =
     \<lparr>toml_to_string = (\<lambda>f. if f = f0 then Some ''bonds'' else None),
      toml_from_str = (\<lambda>s. if s = ''bonds'' then Some f0 else None),
      rfc3339_format = (\<lambda>d. if d = 0 then Some ''epoch'' else None),
      rfc3339_parse = (\<lambda>s. if s = ''epoch'' then Some 0 else None)\<rparr>"

lemma one_file_serde_laws: "serde_laws (one_file_serde f0)"
  by (auto simp: serde_laws_def one_file_serde_def intro!: string_ok_ascii split: if_splits)

definition sample_bond :: bond where
  "sample_bond = \<lparr>bond_peer_id = hex_encode (replicate 16 1), bond_pubkey = replicate 32 1,
     bond_name = ''phone'', bond_created_at = 0, bond_status = Bond_Bonded\<rparr>"

definition sample_serde :: serde where
  "sample_serde = one_file_serde \<lparr>bf_schema_version = 1,
     bf_bonds = [\<lparr>raw_peer_id = hex_encode (replicate 16 1), raw_pubkey = hex_encode (replicate 32 1),
       raw_name = ''phone'', raw_created_at = ''epoch'', raw_status = Bond_Bonded\<rparr>]\<rparr>"

lemma sample_bond_wf: "bond_wf padding_crypto sample_bond"
  by (simp add: bond_wf_def sample_bond_def peer_id_from_pubkey_def padding_crypto_def fit_def wire_consts)

lemma sample_serialized: "serialize_to_toml sample_serde [sample_bond] = Inr (string_bytes ''bonds'')"
  by (simp add: serialize_to_toml_def sample_serde_def one_file_serde_def raw_of_bond_def
      sample_bond_def BOND_SCHEMA_VERSION_LATEST_def ok_or_def)

definition fresh_fs :: fs where
  "fresh_fs = \<lparr>fs_nodes = (\<lambda>_. None), fs_faults = [], fs_down = False, fs_umask = 0x12,
     fs_random = [''a'', ''b'', ''c'']\<rparr>"

lemmas fs_eval =
  fs_metadata_def fs_mkdir_def fs_set_permissions_def fs_temp_in_def fs_write_def fs_sync_def
  fs_rename_def fs_remove_file_def fs_read_def fs_exists_def fs_read_to_string_def
  io_bind_def io_try_def io_map_err_def io_lift_def io_return_def io_fail_def io_on_error_def
  io_ignore_def fs_create_dir_all.simps set_node_def is_dir_def is_file_def creatable_def
  absent_error_def file_mode_at_def with_mode_def temp_name_def ok_or_def

lemma fresh_save_ok:
  "is_ok (fst (store_save sample_serde [sample_bond] [''etc'', ''bonds.toml''] fresh_fs))"
  by (simp add: store_save_def fill_and_persist_def ensure_parent_dir_def parent_dir_of_def
      path_parent_def sample_serialized fresh_fs_def io_call_def fs_eval is_ok_def)

subsection \<open>Properties\<close>

text \<open>C20: \<open>save\<close> is atomic. Under every schedule of I/O errors and every crash point, the bonds file
  afterwards holds either exactly what it held before, when the call fails, or the complete new
  serialization with mode 0600, when it succeeds; no partial content is ever at the path.\<close>

theorem store_save_atomic:
  assumes "butlast path \<noteq> []" and "take 4 (last path) \<noteq> ''.tmp''"
  shows "(is_ok (fst (store_save sd bs path s)) \<longrightarrow>
      (\<exists>c. serialize_to_toml sd bs = Inr c \<and>
        fs_nodes (snd (store_save sd bs path s)) path = Some (File c BOND_FILE_MODE))) \<and>
    (\<not> is_ok (fst (store_save sd bs path s)) \<longrightarrow>
      fs_nodes (snd (store_save sd bs path s)) path = fs_nodes s path)"
proof -
  let ?P = "\<lambda>N. N path = fs_nodes s path"
  let ?Q = "\<lambda>N. \<exists>c. serialize_to_toml sd bs = Inr c \<and> N path = Some (File c BOND_FILE_MODE)"
  have par: "path \<noteq> q" if "prefix q (butlast path)" for q
    using prefix_length_le [OF that] assms(1) by (cases path rule: rev_cases) auto
  have tmp: "path \<noteq> butlast path @ [temp_name r]" for r
    using temp_name_not [OF assms(2), of r] by (metis last_snoc)
  have h: "hoare ?P (store_save sd bs path) (\<lambda>_. ?Q) (\<lambda>_. ?P)"
    by (rule hoare_store_save) (simp_all add: par tmp assms(1))
  obtain r s' where run: "store_save sd bs path s = (r, s')" by force
  show ?thesis
  proof (cases r)
    case (Inl e)
    then show ?thesis using run hoare_error [OF h refl, of e s'] by (simp add: is_ok_def)
  next
    case (Inr u)
    then show ?thesis using run hoare_ok [OF h refl, of u s'] by (simp add: is_ok_def)
  qed
qed

theorem store_save_atomic_witness:
  "\<exists>c. serialize_to_toml sample_serde [sample_bond] = Inr c \<and>
     fs_nodes (snd (store_save sample_serde [sample_bond] [''etc'', ''bonds.toml''] fresh_fs))
       [''etc'', ''bonds.toml''] = Some (File c BOND_FILE_MODE)"
  using store_save_atomic [of "[''etc'', ''bonds.toml'']" sample_serde "[sample_bond]" fresh_fs] fresh_save_ok
  by simp

text \<open>A store that was saved successfully, under whatever faults, is read back as it was: after
  the save, \<open>load\<close> of the same path in an undisturbed system returns exactly the saved bonds.\<close>

lemma store_load_after_save:
  assumes "serde_laws sd" and "list_all (bond_wf cr) bs"
    and "butlast path \<noteq> []" and "take 4 (last path) \<noteq> ''.tmp''"
    and "is_ok (fst (store_save sd bs path s))"
    and "calm t" and "fs_nodes t path = fs_nodes (snd (store_save sd bs path s)) path"
  shows "fst (store_load cr sd path t) = Inr bs"
proof -
  have path: "path = butlast path @ [last path]" using assms(3) by (cases path) auto
  have h: "hoare (\<lambda>_. True) (store_save sd bs path)
      (\<lambda>_ N. \<exists>c. serialize_to_toml sd bs = Inr c \<and> N path = Some (File c BOND_FILE_MODE)) (\<lambda>_ _. True)"
    by (rule hoare_store_save) (use assms(3) in auto)
  then obtain c where "serialize_to_toml sd bs = Inr c" "fs_nodes t path = Some (File c BOND_FILE_MODE)"
    using assms(5,7) hoare_ok [OF h, of s]
    by (cases "store_save sd bs path s"; cases "fst (store_save sd bs path s)") (auto simp: is_ok_def)
  then show ?thesis
    using parse_serialized [OF assms(1) _ assms(2)] store_load_calm [OF assms(6)] by fastforce
qed

lemma store_load_after_save_witness:
  "fst (store_load padding_crypto sample_serde [''etc'', ''bonds.toml'']
     ((snd (store_save sample_serde [sample_bond] [''etc'', ''bonds.toml''] fresh_fs))\<lparr>fs_faults := [], fs_down := False\<rparr>))
   = Inr [sample_bond]"
  by (rule store_load_after_save [where s = fresh_fs])
     (simp_all add: sample_serde_def one_file_serde_laws sample_bond_wf calm_def
       fresh_save_ok [unfolded sample_serde_def])

text \<open>C36: the store keeps its contract. On a store without duplicate ids, \<open>add\<close> succeeds exactly on
  absent ids and never overwrites, \<open>remove\<close> exactly on present ones, and the replacement that
  \<open>promote\<close> performs (remove if present, then add) always succeeds with the effect of a map update.\<close>

theorem store_contract:
  assumes "store_ok bs"
  shows "((\<exists>bs'. store_add bs b = Inr bs') \<longleftrightarrow> store_lookup bs (bond_peer_id b) = None) \<and>
    ((\<exists>bs'. store_remove bs pid = Inr bs') \<longleftrightarrow> store_lookup bs pid \<noteq> None) \<and>
    (\<exists>bs'. result_bind
        (if store_lookup bs (bond_peer_id b) \<noteq> None then store_remove bs (bond_peer_id b) else Inr bs)
        (\<lambda>t. store_add t b) = Inr bs' \<and> store_ok bs' \<and>
      store_lookup bs' = (store_lookup bs)(bond_peer_id b \<mapsto> b))"
proof (intro conjI)
  show "(\<exists>bs'. store_add bs b = Inr bs') \<longleftrightarrow> store_lookup bs (bond_peer_id b) = None"
    using bonds.ins_fresh [OF assms] bonds.ins_present [OF assms] by (metis Inl_Inr_False)
  show "(\<exists>bs'. store_remove bs pid = Inr bs') \<longleftrightarrow> store_lookup bs pid \<noteq> None"
    using bonds.del_present [OF assms] bonds.del_absent [OF assms] by (metis Inl_Inr_False)
qed (rule bonds.replace_total [OF assms])

theorem store_contract_witness:
  "\<exists>bs'. result_bind
      (if store_lookup [sample_bond] (bond_peer_id sample_bond) \<noteq> None
       then store_remove [sample_bond] (bond_peer_id sample_bond) else Inr [sample_bond])
      (\<lambda>t. store_add t sample_bond) = Inr bs' \<and> store_ok bs' \<and>
    store_lookup bs' = (store_lookup [sample_bond])(bond_peer_id sample_bond \<mapsto> sample_bond)"
  using store_contract [of "[sample_bond]" sample_bond] by (simp add: store_ok_def)

text \<open>Revocation. \<open>mark_revoked\<close> of a known peer of a store without duplicate ids leaves every
  entry of that peer revoked, keeps an earlier reason, and changes no other bond; an unknown peer is
  an error.\<close>

lemma store_revocation:
  assumes "store_ok bs"
  shows "(\<exists>b. store_lookup bs pid = Some b \<and>
      (\<exists>bs'. store_mark_revoked bs pid reason = Inr bs' \<and>
         (\<forall>x. x \<in> set bs' \<and> bond_peer_id x = pid \<longrightarrow> is_revoked x) \<and>
         store_lookup bs' = (store_lookup bs)(pid \<mapsto>
           (if is_revoked b then b else b\<lparr>bond_status := Bond_Revoked reason\<rparr>)))) \<or>
    (store_lookup bs pid = None \<and> store_mark_revoked bs pid reason = Inl (UnknownPeer pid))"
proof (cases "store_find_index bs pid")
  case None
  then show ?thesis
    using store_lookup_None [of bs pid] store_find_index_None [of bs pid]
    by (simp add: store_mark_revoked_def)
next
  case (Some i)
  define b where "b = bs ! i"
  define b' where "b' = (if is_revoked b then b else b\<lparr>bond_status := Bond_Revoked reason\<rparr>)"
  have i: "i < length bs" "bond_peer_id b = pid"
    using position_SomeD [OF Some [unfolded store_find_index_def]] by (auto simp: b_def)
  have b': "bond_peer_id b' = pid" "is_revoked b'"
    using i by (auto simp: b'_def is_revoked_def)
  have mark: "store_mark_revoked bs pid reason = Inr (bs[i := b'])"
    using Some by (auto simp: store_mark_revoked_def b'_def b_def is_revoked_def split: bond_status.split)
  have look: "store_lookup (bs[i := b']) = (store_lookup bs)(pid \<mapsto> b')"
    and ok: "store_ok (bs[i := b'])"
    using store_lookup_update [OF assms Some b'(1)] by auto
  have "is_revoked x" if "x \<in> set (bs[i := b'])" "bond_peer_id x = pid" for x
    using store_lookup_in [OF ok that(1)] that(2) look b'(2) by auto
  moreover have "store_lookup bs pid = Some b"
    using store_lookup_in [OF assms, of b] i by (simp add: b_def)
  ultimately show ?thesis using mark look unfolding b'_def by blast
qed

lemma store_revocation_witness:
  "\<exists>bs'. store_mark_revoked [sample_bond] (bond_peer_id sample_bond) ''lost'' = Inr bs' \<and>
     (\<forall>x. x \<in> set bs' \<and> bond_peer_id x = bond_peer_id sample_bond \<longrightarrow> is_revoked x)"
  using store_revocation [of "[sample_bond]" "bond_peer_id sample_bond" "''lost''"]
  by (auto simp: store_ok_def store_lookup_def)

text \<open>Without that invariant, which \<open>load\<close> does not check, revocation misses a duplicate.\<close>

lemma duplicate_survives_revocation:
  "store_mark_revoked [sample_bond, sample_bond] (bond_peer_id sample_bond) r =
     Inr [sample_bond\<lparr>bond_status := Bond_Revoked r\<rparr>, sample_bond]"
  by (simp add: store_mark_revoked_def store_find_index_def sample_bond_def)

end
