(* ===== verification/Pair_Recovery.thy ===== *)
theory Pair_Recovery
  imports Bond_Store
begin

section \<open>Durable staging and recovery\<close>

text \<open>
  \<open>syauth-core/src/pair_recovery.rs\<close>: the staging area of a pairing (journal, pending store, pending
  key), its promotion into the active trust and its removal, over the file system under faults.
  The journal is text; a slice off a character boundary while parsing it is the error \<open>Rec_Panic\<close>.
\<close>

abbreviation newline :: string where "newline \<equiv> [CHR 0x0A]"

definition BONDS_FILE_NAME :: string where "BONDS_FILE_NAME = ''bonds.toml''"
definition KEYS_DIR_NAME :: string where "KEYS_DIR_NAME = ''keys''"
definition KEY_FILE_EXT :: string where "KEY_FILE_EXT = ''.bin''"
definition JOURNAL_FILE_NAME :: string where "JOURNAL_FILE_NAME = ''pairing-v2.journal''"
definition PENDING_BOND_FILE_NAME :: string where "PENDING_BOND_FILE_NAME = ''pairing-v2.pending''"
definition PENDING_KEY_PREFIX :: string where "PENDING_KEY_PREFIX = ''.pending-''"

datatype recovery_error =
    Rec_Io io_error
  | Rec_Bond bond_error
  | Rec_Malformed
  | Rec_Panic

datatype journal_state =
    J_PreCommit
  | J_CommitPending

primrec journal_state_str :: "journal_state \<Rightarrow> string" where
  "journal_state_str J_PreCommit = ''pre_commit''"
| "journal_state_str J_CommitPending = ''commit_pending''"

record journal_record =
  jr_transaction :: bytes
  jr_peer_id :: string
  jr_peer_address :: string
  jr_state :: journal_state

subsection \<open>Paths\<close>

definition bonds_path :: "path \<Rightarrow> path" where
  "bonds_path d = path_join d BONDS_FILE_NAME"

definition journal_path :: "path \<Rightarrow> path" where
  "journal_path d = path_join d JOURNAL_FILE_NAME"

definition pending_bond_path :: "path \<Rightarrow> path" where
  "pending_bond_path d = path_join d PENDING_BOND_FILE_NAME"

definition keys_dir :: "path \<Rightarrow> path" where
  "keys_dir d = path_join d KEYS_DIR_NAME"

definition active_key_path :: "path \<Rightarrow> string \<Rightarrow> path" where
  "active_key_path d pid = path_join (keys_dir d) (pid @ KEY_FILE_EXT)"

definition pending_key_path :: "path \<Rightarrow> string \<Rightarrow> path" where
  "pending_key_path d pid = path_join (keys_dir d) (PENDING_KEY_PREFIX @ pid @ KEY_FILE_EXT)"

subsection \<open>The journal\<close>

definition journal_text :: "bytes \<Rightarrow> string \<Rightarrow> string \<Rightarrow> journal_state \<Rightarrow> string" where
  "journal_text tid pid addr st =
     ''version=2'' @ newline @ ''transaction_id='' @ hex_encode tid @ newline @ ''peer_id='' @ pid @ newline
     @ ''peer_address='' @ addr @ newline @ ''state='' @ journal_state_str st @ newline"

definition write_journal ::
    "path \<Rightarrow> bytes \<Rightarrow> string \<Rightarrow> string \<Rightarrow> journal_state \<Rightarrow> (recovery_error, unit) prog" where
  "write_journal d tid pid addr st =
     io_bind (io_map_err Rec_Io (fs_create_dir_all d)) (\<lambda>_.
     io_bind (io_map_err Rec_Io (fs_set_permissions d 0x1C0)) (\<lambda>_.
     io_map_err Rec_Io (fs_write (journal_path d) (string_bytes (journal_text tid pid addr st)))))"

definition journal_field :: "string \<Rightarrow> string \<Rightarrow> string option" where
  "journal_field text name =
     find_map (\<lambda>line. Option.bind (strip_prefix name line) (strip_prefix ''='')) (lines text)"

definition parse_journal :: "string \<Rightarrow> (recovery_error, journal_record) result" where
  "parse_journal text =
     result_bind (ok_or Rec_Malformed (journal_field text ''transaction_id'')) (\<lambda>id_text.
     if length id_text \<noteq> 32 then Inl Rec_Malformed
     else result_bind
       (result_map_err (\<lambda>e. case e of Hex_Panic \<Rightarrow> Rec_Panic | Hex_Digit \<Rightarrow> Rec_Malformed)
         (hex_from id_text 0 16)) (\<lambda>tid.
     let st = (case journal_field text ''state'' of None \<Rightarrow> ''pre_commit'' | Some x \<Rightarrow> x) in
     result_bind
       (if st = ''pre_commit'' then Inr J_PreCommit
        else if st = ''commit_pending'' then Inr J_CommitPending else Inl Rec_Malformed) (\<lambda>state.
     result_bind (ok_or Rec_Malformed (journal_field text ''peer_id'')) (\<lambda>pid.
     result_bind (ok_or Rec_Malformed (journal_field text ''peer_address'')) (\<lambda>addr.
       Inr \<lparr>jr_transaction = tid, jr_peer_id = pid, jr_peer_address = addr, jr_state = state\<rparr>)))))"

definition read_journal :: "path \<Rightarrow> (recovery_error, journal_record option) prog" where
  "read_journal d =
     io_bind (io_try (fs_read_to_string (journal_path d))) (\<lambda>r.
       case r of
         Inr text \<Rightarrow> io_lift (result_bind (parse_journal text) (\<lambda>j. Inr (Some j)))
       | Inl e \<Rightarrow> if e = Io_NotFound then io_return None else io_fail (Rec_Io e))"

definition mark_commit_pending :: "path \<Rightarrow> (recovery_error, unit) prog" where
  "mark_commit_pending d =
     io_bind (read_journal d) (\<lambda>j.
       case j of
         None \<Rightarrow> io_fail Rec_Malformed
       | Some r \<Rightarrow> write_journal d (jr_transaction r) (jr_peer_id r) (jr_peer_address r) J_CommitPending)"

subsection \<open>Staging, promotion, removal\<close>

definition stage ::
    "serde \<Rightarrow> path \<Rightarrow> bytes \<Rightarrow> string \<Rightarrow> string \<Rightarrow> bond \<Rightarrow> bytes \<Rightarrow> (recovery_error, unit) prog" where
  "stage sd d tid pid addr b key =
     io_bind (io_map_err Rec_Io (fs_create_dir_all d)) (\<lambda>_.
     io_bind (io_map_err Rec_Io (fs_set_permissions d 0x1C0)) (\<lambda>_.
     io_bind (io_map_err Rec_Bond (io_lift (store_add store_empty b))) (\<lambda>pending.
     io_bind (io_map_err Rec_Bond (store_save sd pending (pending_bond_path d))) (\<lambda>_.
     let staged_key = pending_key_path d pid in
     io_bind (io_lift (ok_or Rec_Malformed (path_parent staged_key))) (\<lambda>parent.
     io_bind (io_map_err Rec_Io (fs_create_dir_all parent)) (\<lambda>_.
     io_bind (io_map_err Rec_Io (fs_set_permissions parent 0x1C0)) (\<lambda>_.
     let staged_tmp = with_extension staged_key ''bin.tmp'' in
     io_bind (io_map_err Rec_Io (fs_write staged_tmp key)) (\<lambda>_.
     io_bind (io_map_err Rec_Io (fs_set_permissions staged_tmp 0x180)) (\<lambda>_.
     io_bind (io_map_err Rec_Io (fs_rename staged_tmp staged_key)) (\<lambda>_.
     write_journal d tid pid addr J_PreCommit))))))))))"

definition discard :: "path \<Rightarrow> string \<Rightarrow> ('e, unit) prog" where
  "discard d pid =
     io_bind (io_ignore (fs_remove_file (journal_path d))) (\<lambda>_.
     io_bind (io_ignore (fs_remove_file (pending_bond_path d))) (\<lambda>_.
     io_ignore (fs_remove_file (pending_key_path d pid))))"

text \<open>The key part of \<open>promote\<close>: move the staged key into place, or find the final one there.\<close>

definition install_key :: "path \<Rightarrow> bytes \<Rightarrow> (recovery_error, unit) prog" where
  "install_key final_key key =
     io_bind (io_lift (ok_or Rec_Malformed (path_parent final_key))) (\<lambda>parent.
     io_bind (io_map_err Rec_Io (fs_create_dir_all parent)) (\<lambda>_.
     let final_tmp = with_extension final_key ''bin.tmp'' in
     io_bind (io_map_err Rec_Io (fs_write final_tmp key)) (\<lambda>_.
     io_bind (io_map_err Rec_Io (fs_set_permissions final_tmp 0x180)) (\<lambda>_.
     io_map_err Rec_Io (fs_rename final_tmp final_key)))))"

definition promote_key :: "path \<Rightarrow> string \<Rightarrow> (recovery_error, unit) prog" where
  "promote_key d pid =
     (let staged_key = pending_key_path d pid; final_key = active_key_path d pid in
      io_bind (fs_exists staged_key) (\<lambda>there.
        if there then
          io_bind (io_map_err Rec_Io (fs_read staged_key)) (\<lambda>key.
          if length key \<noteq> BOND_KEY_DERIVED_BYTES then io_fail Rec_Malformed
          else install_key final_key key)
        else
          io_bind (fs_exists final_key) (\<lambda>final_there.
            if final_there then io_return () else io_fail Rec_Malformed)))"

text \<open>The store part: replace the entry of the peer in the active store.\<close>

definition replace_bond :: "bond_store \<Rightarrow> bond \<Rightarrow> (bond_error, bond_store) result" where
  "replace_bond active b =
     result_bind
       (if list_ex (\<lambda>x. bond_peer_id x = bond_peer_id b) active
        then store_remove active (bond_peer_id b) else Inr active)
       (\<lambda>bs. store_add bs b)"

definition promote :: "crypto \<Rightarrow> serde \<Rightarrow> path \<Rightarrow> string \<Rightarrow> (recovery_error, unit) prog" where
  "promote cr sd d pid =
     io_bind (io_map_err Rec_Bond (store_load cr sd (pending_bond_path d))) (\<lambda>staged.
     io_bind (io_lift (ok_or Rec_Malformed (find (\<lambda>b. bond_peer_id b = pid) staged))) (\<lambda>b.
     io_bind (promote_key d pid) (\<lambda>_.
     io_bind (io_map_err Rec_Bond (store_load cr sd (bonds_path d))) (\<lambda>active.
     io_bind (io_lift (result_map_err Rec_Bond (replace_bond active b))) (\<lambda>bs.
     io_bind (io_map_err Rec_Bond (store_save sd bs (bonds_path d))) (\<lambda>_.
     discard d pid))))))"

primrec remove_pending_keys :: "path \<Rightarrow> bond_store \<Rightarrow> ('e, unit) prog" where
  "remove_pending_keys d [] = io_return ()"
| "remove_pending_keys d (b # bs) =
     io_bind (io_ignore (fs_remove_file (pending_key_path d (bond_peer_id b)))) (\<lambda>_.
     remove_pending_keys d bs)"

definition discard_all :: "crypto \<Rightarrow> serde \<Rightarrow> path \<Rightarrow> ('e, unit) prog" where
  "discard_all cr sd d =
     io_bind (io_try (store_load cr sd (pending_bond_path d))) (\<lambda>r.
     io_bind (case r of Inr bs \<Rightarrow> remove_pending_keys d bs | Inl e \<Rightarrow> io_return ()) (\<lambda>_.
     io_bind (io_ignore (fs_remove_file (journal_path d))) (\<lambda>_.
     io_ignore (fs_remove_file (pending_bond_path d)))))"

subsection \<open>Where each file is\<close>

text \<open>Peer ids are hexadecimal: no dot, no slash.\<close>

definition peer_name :: "string \<Rightarrow> bool" where
  "peer_name pid \<longleftrightarrow> pid \<noteq> [] \<and> CHR ''.'' \<notin> set pid \<and> CHR ''/'' \<notin> set pid"

lemma peer_name_hex: "bs \<noteq> [] \<Longrightarrow> peer_name (hex_encode bs)"
  using hex_encode_avoids [of "CHR ''.''" bs] hex_encode_avoids [of "CHR ''/''" bs]
  by (cases bs) (auto simp: peer_name_def hex_byte_def)

lemma peer_name_from_pubkey: "crypto_laws cr \<Longrightarrow> peer_name (peer_id_from_pubkey cr pk)"
  unfolding peer_id_from_pubkey_def
  by (rule peer_name_hex) (use crypto_lawsD(2) [of cr pk] in \<open>auto simp: wire_consts\<close>)

lemma layout [simp]:
  "bonds_path d = d @ [''bonds.toml'']"
  "journal_path d = d @ [''pairing-v2.journal'']"
  "pending_bond_path d = d @ [''pairing-v2.pending'']"
  "keys_dir d = d @ [''keys'']"
  by (simp_all add: bonds_path_def journal_path_def pending_bond_path_def keys_dir_def plain_name_def
      BONDS_FILE_NAME_def JOURNAL_FILE_NAME_def PENDING_BOND_FILE_NAME_def KEYS_DIR_NAME_def)

definition pending_name :: "string \<Rightarrow> string" where
  "pending_name pid = ''.pending-'' @ pid @ ''.bin''"

definition pending_tmp :: "string \<Rightarrow> string" where
  "pending_tmp pid = ''.pending-'' @ pid @ ''.bin.tmp''"

lemma layout_keys [simp]:
  assumes "peer_name pid"
  shows "active_key_path d pid = d @ [''keys'', pid @ ''.bin'']"
    and "pending_key_path d pid = d @ [''keys'', pending_name pid]"
    and "with_extension (d @ [''keys'', pending_name pid]) ''bin.tmp'' = d @ [''keys'', pending_tmp pid]"
    and "with_extension (d @ [''keys'', pid @ ''.bin'']) ''bin.tmp'' = d @ [''keys'', pid @ ''.bin.tmp'']"
proof -
  have plain: "plain_name (pid @ ''.bin'')" "plain_name (pending_name pid)"
    using assms by (auto simp: plain_name_def peer_name_def pending_name_def)
  show "active_key_path d pid = d @ [''keys'', pid @ ''.bin'']"
    using plain(1) by (simp add: active_key_path_def KEY_FILE_EXT_def)
  show "pending_key_path d pid = d @ [''keys'', pending_name pid]"
    using path_join_plain [OF plain(2), of "d @ [''keys'']"]
    by (simp add: pending_key_path_def KEY_FILE_EXT_def PENDING_KEY_PREFIX_def pending_name_def)
  have stem: "file_stem (pending_name pid) = ''.pending-'' @ pid" "file_stem (pid @ ''.bin'') = pid"
    using file_stem_dot [of "''.pending-'' @ pid" "''bin''"] file_stem_dot [of pid "''bin''"] assms
    by (auto simp: peer_name_def pending_name_def)
  show "with_extension (d @ [''keys'', pending_name pid]) ''bin.tmp'' = d @ [''keys'', pending_tmp pid]"
    "with_extension (d @ [''keys'', pid @ ''.bin'']) ''bin.tmp'' = d @ [''keys'', pid @ ''.bin.tmp'']"
    using stem by (simp_all add: with_extension_def butlast_append pending_tmp_def)
qed

lemma active_name_not_pending:
  assumes "peer_name p"
  shows "p @ ''.bin'' \<noteq> pending_name pid" and "p @ ''.bin'' \<noteq> pending_tmp pid"
  using assms by (cases p; auto simp: peer_name_def pending_name_def pending_tmp_def)+

text \<open>The paths an operation on the staging area of \<open>pid\<close> may write.\<close>

definition staging_area :: "path \<Rightarrow> string \<Rightarrow> path \<Rightarrow> bool" where
  "staging_area d pid q \<longleftrightarrow> (q \<noteq> [] \<and> prefix q (keys_dir d)) \<or> (\<exists>r. q = d @ [temp_name r]) \<or>
     q = pending_bond_path d \<or> q = journal_path d \<or> q = pending_key_path d pid \<or>
     q = with_extension (pending_key_path d pid) ''bin.tmp''"

text \<open>The active trust: the store of the bonds and the key of every peer.\<close>

definition active_trust :: "path \<Rightarrow> path \<Rightarrow> bool" where
  "active_trust d q \<longleftrightarrow> q = bonds_path d \<or> (\<exists>pid. peer_name pid \<and> q = active_key_path d pid)"

lemma active_not_staging:
  assumes "peer_name pid" and "active_trust d q"
  shows "\<not> staging_area d pid q"
proof -
  from assms(2) consider "q = d @ [''bonds.toml'']"
    | p where "peer_name p" "q = d @ [''keys'', p @ ''.bin'']"
    by (auto simp: active_trust_def)
  then show ?thesis
  proof cases
    case 1
    then show ?thesis using assms(1) by (simp add: staging_area_def temp_name_def)
  next
    case 2
    have "\<not> prefix q (d @ [''keys''])"
      using 2(2) prefix_length_le [of q "d @ [''keys'']"] by auto
    then show ?thesis
      using 2 assms(1) active_name_not_pending [OF 2(1)] by (auto simp: staging_area_def)
  qed
qed

lemma staging_paths:
  assumes "peer_name pid"
  shows "staging_area d pid (pending_bond_path d)" and "staging_area d pid (journal_path d)"
    and "staging_area d pid (pending_key_path d pid)"
    and "staging_area d pid (with_extension (pending_key_path d pid) ''bin.tmp'')"
    and "staging_area d pid (d @ [temp_name r])"
    and "q \<noteq> [] \<Longrightarrow> prefix q (keys_dir d) \<Longrightarrow> staging_area d pid q"
    and "q \<noteq> [] \<Longrightarrow> prefix q d \<Longrightarrow> staging_area d pid q"
  using assms by (auto simp: staging_area_def)

lemma keeps_write_journal:
  assumes "frame_on (staging_area d pid) P" and "peer_name pid" and "d \<noteq> []"
  shows "keeps P (write_journal d tid p addr st)"
proof -
  note w = keeps_writes [OF assms(1)] keeps_create_dirs [OF assms(1)] and a = staging_paths [OF assms(2)]
  have "keeps P (fs_create_dir_all d)" by (intro w a)
  moreover have "keeps P (fs_set_permissions d m)" for m by (intro w a assms(3) prefix_order.refl)
  moreover have "keeps P (fs_write (journal_path d) c)" for c by (intro w a)
  ultimately show ?thesis unfolding write_journal_def by (intro keeps_rules)
qed

lemma keeps_read_journal: "keeps P (read_journal d)"
  unfolding read_journal_def by (intro keeps_rules) (auto intro: keeps_rules split: sum.split)

lemma keeps_mark_commit_pending:
  assumes "frame_on (staging_area d pid) P" and "peer_name pid" and "d \<noteq> []"
  shows "keeps P (mark_commit_pending d)"
  unfolding mark_commit_pending_def
  by (intro keeps_bind keeps_read_journal)
     (auto intro: keeps_rules keeps_write_journal [OF assms] split: option.split)

lemma keeps_stage:
  assumes "frame_on (staging_area d pid) P" and "peer_name pid" and "d \<noteq> []"
  shows "keeps P (stage sd d tid pid addr b key)"
proof -
  note w = keeps_writes [OF assms(1)] keeps_create_dirs [OF assms(1)] keeps_rename [OF assms(1)]
    and a = staging_paths [OF assms(2)]
  have dir: "keeps P (fs_create_dir_all q)" "q \<noteq> [] \<Longrightarrow> keeps P (fs_set_permissions q m)"
    if "prefix q (keys_dir d)" for q m
    using that by (auto intro!: w a(6) intro: prefix_order.trans simp del: layout)
  have key: "keeps P (fs_write (with_extension (pending_key_path d pid) ''bin.tmp'') c)"
      "keeps P (fs_set_permissions (with_extension (pending_key_path d pid) ''bin.tmp'') m)"
      "keeps P (fs_rename (with_extension (pending_key_path d pid) ''bin.tmp'') (pending_key_path d pid))" for c m
    by (intro w a)+
  have save: "keeps P (store_save sd x (pending_bond_path d))" for x
    using assms(3) by (intro keeps_store_save [OF assms(1)]) (auto intro!: a [simplified])
  have parent: "path_parent (pending_key_path d pid) = Some (keys_dir d)"
    using assms(2) by (simp add: path_parent_def butlast_append)
  show ?thesis
    unfolding stage_def Let_def parent ok_or_def option.case io_bind_lift_Inr
    by (intro keeps_rules key save dir keeps_write_journal [OF assms]) (use assms(3) in auto)
qed

lemma keeps_discard:
  assumes "frame_on (staging_area d pid) P" and "peer_name pid"
  shows "keeps P (discard d pid)"
  unfolding discard_def by (intro keeps_rules keeps_writes [OF assms(1)] staging_paths [OF assms(2)])

lemma keeps_discard_all:
  assumes frame: "\<And>pid. peer_name pid \<Longrightarrow> frame_on (staging_area d pid) P" and "crypto_laws cr"
  shows "keeps P (discard_all cr sd d)"
proof -
  have rm: "keeps P (fs_remove_file q)" if "staging_area d pid q" "peer_name pid" for q pid
    by (rule keeps_writes [OF frame [OF that(2)] that(1)])
  have name: "peer_name (hex_encode [0])" by (rule peer_name_hex) simp
  have keys: "keeps P (remove_pending_keys d bs)" if "list_all (bond_wf cr) bs" for bs
    using that
  proof (induction bs)
    case (Cons b bs)
    then have "peer_name (bond_peer_id b)"
      using peer_name_from_pubkey [OF assms(2)] by (simp add: bond_wf_def)
    with Cons show ?case
      by (auto intro!: keeps_rules rm [OF staging_paths(3)] simp del: layout_keys)
  qed (simp add: keeps_rules)
  have load: "hoare P (store_load cr sd p) (\<lambda>bs N. P N \<and> list_all (bond_wf cr) bs) (\<lambda>_. P)" for p
    by (rule hoare_weaken [OF hoare_store_load]) (auto simp: store_at_def dest: parse_store_wf)
  let ?R = "\<lambda>r N. P N \<and> (case r of Inr bs \<Rightarrow> list_all (bond_wf cr) bs | Inl e \<Rightarrow> True)"
  have load': "hoare P (io_try (store_load cr sd (pending_bond_path d))) ?R (\<lambda>_. P)"
    by (rule hoare_try) (use load in simp)
  have each: "hoare (?R r) (case r of Inr bs \<Rightarrow> remove_pending_keys d bs | Inl e \<Rightarrow> io_return ())
      (\<lambda>_. P) (\<lambda>_. P)" for r
    by (cases r) (auto intro!: hoare_pure keys keeps_rules)
  have rest: "keeps P (io_bind (io_ignore (fs_remove_file (journal_path d))) (\<lambda>_.
     io_ignore (fs_remove_file (pending_bond_path d))))"
    by (intro keeps_rules rm [OF staging_paths(1) [OF name] name] rm [OF staging_paths(2) [OF name] name])
  show ?thesis
    unfolding discard_all_def by (rule hoare_bind [OF load']) (rule hoare_bind [OF each rest])
qed

subsection \<open>The journal and torn writes\<close>

definition line_safe :: "string \<Rightarrow> bool" where
  "line_safe s \<longleftrightarrow> CHR 0x0A \<notin> set s \<and> CHR 0x0D \<notin> set s"

lemma line_safe_append [simp]: "line_safe (a @ b) \<longleftrightarrow> line_safe a \<and> line_safe b"
  by (auto simp: line_safe_def)

lemma line_safe_hex [simp]: "line_safe (hex_encode bs)"
  by (simp add: line_safe_def hex_encode_avoids)

text \<open>The lines of a torn text: some whole lines, then a prefix of the next one.\<close>

lemma lines_no_newline: "CHR 0x0A \<notin> set l \<Longrightarrow> lines l = (if l = [] then [] else [l])"
proof -
  assume "CHR 0x0A \<notin> set l"
  then have dw: "dropWhile (\<lambda>c. c \<noteq> CHR 0x0A) l = []" by (auto simp: dropWhile_eq_Nil_conv)
  show ?thesis by (subst lines.simps, subst dw) simp
qed

lemma lines_torn:
  assumes "list_all line_safe ls"
  shows "\<exists>k p. lines (take n (concat (map (\<lambda>l. l @ newline) ls))) = take k ls @ (if p = [] then [] else [p]) \<and>
    k \<le> length ls \<and> (p \<noteq> [] \<longrightarrow> k < length ls \<and> prefix p (ls ! k))"
  using assms
proof (induction ls arbitrary: n)
  case Nil
  then show ?case by (intro exI [of _ 0] exI [of _ "[]"]) simp
next
  case (Cons l ls)
  have safe: "CHR 0x0A \<notin> set l" "strip_cr l = l" using Cons.prems by (auto simp: line_safe_def)
  show ?case
  proof (cases "n \<le> length l")
    case True
    then have "lines (take n (concat (map (\<lambda>l. l @ newline) (l # ls)))) = lines (take n l)" by simp
    also have "\<dots> = (if take n l = [] then [] else [take n l])"
      using safe(1) by (intro lines_no_newline) (auto dest: in_set_takeD)
    finally show ?thesis by (intro exI [of _ 0] exI [of _ "take n l"]) (simp add: take_is_prefix)
  next
    case False
    then obtain m where m: "n = length l + Suc m" by (metis less_natE not_le add_Suc_right)
    obtain k p where kp: "lines (take m (concat (map (\<lambda>l. l @ newline) ls))) = take k ls @ (if p = [] then [] else [p])"
      "k \<le> length ls" "p \<noteq> [] \<longrightarrow> k < length ls \<and> prefix p (ls ! k)"
      using Cons.IH [of m] Cons.prems by auto
    have "lines (take n (concat (map (\<lambda>l. l @ newline) (l # ls))))
        = l # take k ls @ (if p = [] then [] else [p])"
      using safe kp(1) m by simp
    then show ?thesis using kp by (intro exI [of _ "Suc k"] exI [of _ p]) simp
  qed
qed

definition journal_lines :: "bytes \<Rightarrow> string \<Rightarrow> string \<Rightarrow> journal_state \<Rightarrow> string list" where
  "journal_lines tid pid addr st =
     [''version=2'', ''transaction_id='' @ hex_encode tid, ''peer_id='' @ pid, ''peer_address='' @ addr,
      ''state='' @ journal_state_str st]"

lemma journal_text_lines:
  "journal_text tid pid addr st = concat (map (\<lambda>l. l @ newline) (journal_lines tid pid addr st))"
  by (simp add: journal_text_def journal_lines_def)

lemma journal_lines_safe:
  "line_safe pid \<Longrightarrow> line_safe addr \<Longrightarrow> list_all line_safe (journal_lines tid pid addr st)"
  by (cases st) (simp_all add: journal_lines_def, simp_all add: line_safe_def hex_encode_avoids)

lemma lines_journal_text:
  assumes "line_safe pid" and "line_safe addr"
  shows "lines (journal_text tid pid addr st) = journal_lines tid pid addr st"
proof -
  have "lines (concat (map (\<lambda>l. l @ newline) ls)) = ls" if "list_all line_safe ls" for ls
    using that by (induction ls) (auto simp: line_safe_def)
  then show ?thesis using journal_lines_safe [OF assms] by (simp add: journal_text_lines)
qed

lemma strip_prefix_SomeD: "strip_prefix q x = Some y \<Longrightarrow> x = q @ y"
  by (auto simp: strip_prefix_def split: if_splits) (metis append_take_drop_id)

lemma journal_fields:
  assumes "lines text = journal_lines tid pid addr st"
  shows "journal_field text ''transaction_id'' = Some (hex_encode tid)"
    and "journal_field text ''peer_id'' = Some pid"
    and "journal_field text ''peer_address'' = Some addr"
    and "journal_field text ''state'' = Some (journal_state_str st)"
  unfolding journal_field_def assms journal_lines_def by (simp_all add: strip_prefix_def)

lemma parse_journal_lines:
  assumes "lines text = journal_lines tid pid addr st" and "length tid = 16"
  shows "parse_journal text =
    Inr \<lparr>jr_transaction = tid, jr_peer_id = pid, jr_peer_address = addr, jr_state = st\<rparr>"
  using hex_from_encode [of "[]" tid] assms(2) journal_fields [OF assms(1)]
  by (cases st) (simp_all add: parse_journal_def ok_or_def result_map_err_def)

text \<open>A text that names a commit decision has a line that says so in full.\<close>

lemma parse_commit_line:
  assumes "parse_journal text = Inr r" and "jr_state r = J_CommitPending"
  shows "''state=commit_pending'' \<in> set (lines text)"
proof -
  have "journal_field text ''state'' = Some ''commit_pending''"
    using assms
    by (auto simp: parse_journal_def result_bind_Inr_iff Let_def split: if_splits option.splits)
  then obtain x y where "x \<in> set (lines text)" "strip_prefix ''state'' x = Some y"
    "strip_prefix ''='' y = Some ''commit_pending''"
    unfolding journal_field_def
    by (auto dest!: find_map_SomeD split: Option.bind_splits)
  then show ?thesis by (auto dest!: strip_prefix_SomeD)
qed

lemma torn_commit_is_whole:
  assumes "line_safe pid" and "line_safe addr"
    and "''state=commit_pending'' \<in> set (lines (take n (journal_text tid pid addr J_CommitPending)))"
  shows "lines (take n (journal_text tid pid addr J_CommitPending)) = journal_lines tid pid addr J_CommitPending"
proof -
  let ?ls = "journal_lines tid pid addr J_CommitPending"
  obtain k p where l: "lines (take n (journal_text tid pid addr J_CommitPending))
      = take k ?ls @ (if p = [] then [] else [p])"
    and k: "k \<le> length ?ls" and p: "p \<noteq> [] \<longrightarrow> k < length ?ls \<and> prefix p (?ls ! k)"
    using lines_torn [OF journal_lines_safe [OF assms(1,2)]] unfolding journal_text_lines by blast
  have len: "length ?ls = 5" by (simp add: journal_lines_def)
  have early: "k \<in> {0,1,2,3,4} \<Longrightarrow> ''state=commit_pending'' \<notin> set (take k ?ls)"
    by (auto simp: journal_lines_def)
  have other: "k \<in> {0,1,2,3} \<Longrightarrow> \<not> prefix ''state=commit_pending'' (?ls ! k)"
    by (auto simp: journal_lines_def)
  have "k = 5 \<or> k \<in> {0,1,2,3,4}" using k len by auto
  then show ?thesis
  proof
    assume "k = 5"
    then show ?thesis using l p len by auto
  next
    assume k4: "k \<in> {0,1,2,3,4}"
    then have pp: "p = ''state=commit_pending''" using assms(3) l early by (auto split: if_splits)
    then have "k = 4" using p other k4 by auto
    then show ?thesis using l pp by (simp add: journal_lines_def)
  qed
qed

subsection \<open>Promotion\<close>

text \<open>What promotion may leave behind besides its results: directories and temporary files.\<close>

definition promote_scratch :: "path \<Rightarrow> string \<Rightarrow> path \<Rightarrow> bool" where
  "promote_scratch d pid q \<longleftrightarrow> (q \<noteq> [] \<and> prefix q (keys_dir d)) \<or> (\<exists>r. q = d @ [temp_name r]) \<or>
     q = with_extension (active_key_path d pid) ''bin.tmp''"

definition same_but :: "(path \<Rightarrow> bool) \<Rightarrow> nodes \<Rightarrow> nodes \<Rightarrow> bool" where
  "same_but W N0 N \<longleftrightarrow> (\<forall>q. \<not> W q \<longrightarrow> N q = N0 q)"

lemma same_but_refl [simp]: "same_but W N N"
  by (simp add: same_but_def)

lemma same_but_update: "same_but W N0 N \<Longrightarrow> W q \<Longrightarrow> same_but W N0 (N(q := v))"
  by (auto simp: same_but_def)

lemma same_but_frame: "(\<And>q. V q \<Longrightarrow> W q) \<Longrightarrow> frame_on V (same_but W N0)"
  by (simp add: frame_on_def same_but_update)

lemma promote_scratch_not:
  assumes "peer_name pid"
  shows "\<not> promote_scratch d pid (bonds_path d)" and "\<not> promote_scratch d pid (pending_bond_path d)"
    and "\<not> promote_scratch d pid (pending_key_path d pid)"
    and "peer_name p \<Longrightarrow> \<not> promote_scratch d pid (active_key_path d p)"
proof -
  have long: "\<not> prefix (d @ [''keys'', x]) (d @ [''keys''])" for x :: string
    using prefix_length_le [of "d @ [''keys'', x]" "d @ [''keys'']"] by auto
  have dot: "pending_name pid \<noteq> pid @ ''.bin.tmp''"
    using assms by (cases pid) (auto simp: peer_name_def pending_name_def)
  have ext: "p @ ''.bin'' \<noteq> pid @ ''.bin.tmp''" if "peer_name p" for p
  proof
    assume e: "p @ ''.bin'' = pid @ ''.bin.tmp''"
    have "takeWhile (\<lambda>c. c \<noteq> CHR ''.'') (p @ ''.bin'') = p"
      "takeWhile (\<lambda>c. c \<noteq> CHR ''.'') (pid @ ''.bin.tmp'') = pid"
      using that assms by (auto simp: peer_name_def takeWhile_append)
    with e have "p = pid" by simp
    with e show False by simp
  qed
  show "\<not> promote_scratch d pid (bonds_path d)" "\<not> promote_scratch d pid (pending_bond_path d)"
    "\<not> promote_scratch d pid (pending_key_path d pid)"
    "peer_name p \<Longrightarrow> \<not> promote_scratch d pid (active_key_path d p)"
    using assms long dot ext by (auto simp: promote_scratch_def temp_name_def)
qed

definition key_done :: "path \<Rightarrow> string \<Rightarrow> nodes \<Rightarrow> nodes \<Rightarrow> bool" where
  "key_done d pid N0 N \<longleftrightarrow> N (active_key_path d pid) \<noteq> None \<and>
     (N (active_key_path d pid) = N0 (active_key_path d pid) \<or>
      (\<exists>k m. N0 (pending_key_path d pid) = Some (File k m) \<and> length k = BOND_KEY_DERIVED_BYTES \<and>
         N (active_key_path d pid) = Some (File k BOND_FILE_MODE)))"

lemma hoare_install_key:
  assumes pid: "peer_name pid" and fr: "frame_on (promote_scratch d pid) P"
    and fin: "\<And>N. P N \<Longrightarrow> Q () (N(active_key_path d pid \<mapsto> File k 0x180))"
  shows "hoare P (install_key (active_key_path d pid) k) Q (\<lambda>_. P)"
proof -
  let ?fin = "active_key_path d pid"
  let ?tmp = "with_extension ?fin ''bin.tmp''"
  have tmp: "P N \<Longrightarrow> P (N(?tmp := v))" for N v
    by (rule frame_onD [OF fr]) (simp_all add: promote_scratch_def)
  have par: "path_parent ?fin = Some (keys_dir d)" using pid by (simp add: path_parent_def butlast_append)
  have dirs: "keeps P (fs_create_dir_all (keys_dir d))"
    by (rule keeps_create_dirs [OF fr]) (simp add: promote_scratch_def)
  have wr: "hoare P (fs_write ?tmp k) (\<lambda>_ N. P N \<and> (\<exists>m. N ?tmp = Some (File k m))) (\<lambda>_. P)"
    by (rule hoare_write) (auto intro: tmp)
  have perm: "hoare (\<lambda>N. P N \<and> (\<exists>m. N ?tmp = Some (File k m))) (fs_set_permissions ?tmp 0x180)
      (\<lambda>_ N. P N \<and> N ?tmp = Some (File k 0x180)) (\<lambda>_. P)"
    by (rule hoare_set_permissions) (auto intro: tmp simp: with_mode_def)
  have rename: "hoare (\<lambda>N. P N \<and> N ?tmp = Some (File k 0x180)) (fs_rename ?tmp ?fin) Q (\<lambda>_. P)"
    by (rule hoare_rename) (auto intro!: fin tmp)
  show ?thesis
    unfolding install_key_def Let_def par ok_or_def option.case io_bind_lift_Inr
    by (intro hoare_bind [where R = "\<lambda>_. P"] hoare_bind [where R = "\<lambda>_ N. P N \<and> (\<exists>m. N ?tmp = Some (File k m))"]
        hoare_bind [where R = "\<lambda>_ N. P N \<and> N ?tmp = Some (File k 0x180)"];
        simp only: hoare_map_err dirs wr perm rename)
qed

lemma hoare_promote_key:
  assumes pid: "peer_name pid"
  shows "hoare (same_but (promote_scratch d pid) N0) (promote_key d pid)
    (\<lambda>_ N. same_but (\<lambda>q. promote_scratch d pid q \<or> q = active_key_path d pid) N0 N \<and> key_done d pid N0 N)
    (\<lambda>_. same_but (promote_scratch d pid) N0)"
    (is "hoare ?A _ ?Q ?E")
proof -
  let ?st = "pending_key_path d pid" and ?fin = "active_key_path d pid"
  let ?K = "\<lambda>k N. ?A N \<and> (\<exists>m. N0 ?st = Some (File k m))"
  have read: "hoare ?A (io_map_err Rec_Io (fs_read ?st)) ?K ?E"
    unfolding hoare_map_err
    by (rule hoare_read) (use promote_scratch_not(3) [OF pid, of d] in \<open>auto simp: same_but_def simp del: layout_keys\<close>)
  have move: "hoare (?K k) (if length k \<noteq> BOND_KEY_DERIVED_BYTES then io_fail Rec_Malformed
      else install_key ?fin k) ?Q ?E" for k
  proof (cases "length k = BOND_KEY_DERIVED_BYTES")
    case True
    then have "hoare (?K k) (install_key ?fin k) ?Q (\<lambda>_. ?K k)"
      by (intro hoare_install_key [OF pid])
         (auto simp: frame_on_def same_but_def key_done_def BOND_FILE_MODE_def simp del: layout_keys)
    with True show ?thesis by (auto intro: hoare_weaken)
  qed (auto intro: hoare_rules)
  have fin: "hoare ?A (fs_exists ?fin) (\<lambda>b N. ?A N \<and> (b \<longrightarrow> N ?fin \<noteq> None)) ?E"
    by (rule hoare_exists) auto
  have fin': "hoare (\<lambda>N. ?A N \<and> (b \<longrightarrow> N ?fin \<noteq> None)) (if b then io_return () else io_fail Rec_Malformed) ?Q ?E" for b
    using promote_scratch_not(4) [OF pid pid, of d]
    by (auto intro!: hoare_rules simp: same_but_def key_done_def simp del: layout_keys)
  show ?thesis
    unfolding promote_key_def Let_def
    by (rule hoare_bind [OF keeps_reads(4)])
       (simp add: hoare_bind [OF read move] hoare_bind [OF fin fin'] del: layout layout_keys)
qed

text \<open>The outcome of a promotion that succeeds: the new store is the old one with the staged bond in
  place of any entry of that peer, its key is there, and the keys of the others are as before.\<close>

definition promoted :: "crypto \<Rightarrow> serde \<Rightarrow> path \<Rightarrow> string \<Rightarrow> nodes \<Rightarrow> nodes \<Rightarrow> bool" where
  "promoted cr sd d pid N0 N \<longleftrightarrow>
     (\<exists>staged b active bs c.
        store_at cr sd N0 (pending_bond_path d) staged \<and> find (\<lambda>b. bond_peer_id b = pid) staged = Some b \<and>
        store_at cr sd N0 (bonds_path d) active \<and> replace_bond active b = Inr bs \<and>
        serialize_to_toml sd bs = Inr c \<and> N (bonds_path d) = Some (File c BOND_FILE_MODE)) \<and>
     key_done d pid N0 N \<and>
     (\<forall>p. peer_name p \<and> p \<noteq> pid \<longrightarrow> N (active_key_path d p) = N0 (active_key_path d p))"

lemma bonds_not_key [simp]: "peer_name p \<Longrightarrow> bonds_path d \<noteq> active_key_path d p"
  by simp

lemma promoted_cong:
  assumes "N' (bonds_path d) = N (bonds_path d)"
    and "\<And>p. peer_name p \<Longrightarrow> N' (active_key_path d p) = N (active_key_path d p)" and "peer_name pid"
  shows "promoted cr sd d pid N0 N' = promoted cr sd d pid N0 N"
  unfolding promoted_def key_done_def by (simp add: assms del: layout layout_keys)

lemma promoted_frame:
  assumes "peer_name pid"
  shows "frame_on (staging_area d pid) (promoted cr sd d pid N0)"
  unfolding frame_on_def
proof (intro allI impI)
  fix N :: nodes and q v
  assume q: "staging_area d pid q" and N: "promoted cr sd d pid N0 N"
  have "promoted cr sd d pid N0 (N(q := v)) = promoted cr sd d pid N0 N"
    using active_not_staging [OF assms, of d] q assms
    by (intro promoted_cong) (auto simp: active_trust_def simp del: layout layout_keys)
  with N show "promoted cr sd d pid N0 (N(q := v))" by simp
qed

lemma store_at_same: "N path = N0 path \<Longrightarrow> store_at cr sd N path bs = store_at cr sd N0 path bs"
  by (simp add: store_at_def)

lemma hoare_replace_and_save:
  assumes pid: "peer_name pid" and "d \<noteq> []"
    and staged: "store_at cr sd N0 (pending_bond_path d) staged" "find (\<lambda>b. bond_peer_id b = pid) staged = Some b"
    and active: "store_at cr sd N0 (bonds_path d) active"
    and bs: "replace_bond active b = Inr bs"
  shows "hoare (\<lambda>N. same_but (\<lambda>q. promote_scratch d pid q \<or> q = active_key_path d pid) N0 N \<and> key_done d pid N0 N)
    (store_save sd bs (bonds_path d)) (\<lambda>_. promoted cr sd d pid N0) (\<lambda>_ N. N (bonds_path d) = N0 (bonds_path d))"
    (is "hoare ?B _ _ _")
proof -
  have bonds: "\<not> promote_scratch d pid (bonds_path d)" "bonds_path d \<noteq> active_key_path d p" if "peer_name p" for p
    using promote_scratch_not(1) [OF pid] that by auto
  have frame: "?B (N(q := v))" if "promote_scratch d pid q" "?B N" for N q v
  proof -
    have "q \<noteq> active_key_path d pid" using that(1) promote_scratch_not(4) [OF pid pid] by auto
    with that show ?thesis by (auto simp: same_but_def key_done_def simp del: layout layout_keys)
  qed
  have "hoare ?B (store_save sd bs (bonds_path d)) (\<lambda>_. promoted cr sd d pid N0) (\<lambda>_. ?B)"
  proof (rule hoare_store_save)
    show "?B (N(q := v))" if "?B N" "q \<noteq> []" "prefix q (butlast (bonds_path d))" for N q v
      using that(2,3) by (intro frame [OF _ that(1)]) (auto simp: promote_scratch_def)
    show "?B (N(butlast (bonds_path d) @ [temp_name r] := v))" if "?B N" for N r v
      using frame [OF _ that, of "d @ [temp_name r]" v] by (auto simp: promote_scratch_def)
    show "promoted cr sd d pid N0 (N(bonds_path d \<mapsto> File c BOND_FILE_MODE))"
      if B: "?B N" and c: "serialize_to_toml sd bs = Inr c" for N c
    proof -
      have "key_done d pid N0 (N(bonds_path d \<mapsto> File c BOND_FILE_MODE))"
        using B bonds(2) [OF pid] by (simp add: key_done_def del: layout layout_keys)
      moreover have "(N(bonds_path d \<mapsto> File c BOND_FILE_MODE)) (active_key_path d p) = N0 (active_key_path d p)"
        if "peer_name p" "p \<noteq> pid" for p
        using B that pid promote_scratch_not(4) [OF pid that(1), of d] by (auto simp: same_but_def)
      moreover have "(N(bonds_path d \<mapsto> File c BOND_FILE_MODE)) (bonds_path d) = Some (File c BOND_FILE_MODE)"
        by simp
      ultimately show ?thesis
        unfolding promoted_def using staged active bs c by blast
    qed
  qed (use assms(2) in simp)
  then show ?thesis
    by (rule hoare_weaken) (use bonds [OF pid] in \<open>auto simp: same_but_def simp del: layout layout_keys\<close>)
qed

lemma hoare_load_known:
  assumes "\<And>N. P N \<Longrightarrow> N path = N0 path" and "\<And>e N. P N \<Longrightarrow> E e N"
  shows "hoare P (io_map_err Rec_Bond (store_load cr sd path)) (\<lambda>bs N. P N \<and> store_at cr sd N0 path bs) E"
  unfolding hoare_map_err
proof (rule hoare_weaken [OF hoare_store_load [where P = P]])
  show "P N \<and> store_at cr sd N0 path bs" if "P N \<and> store_at cr sd N path bs" for bs N
    using that store_at_same [of N path N0 cr sd bs] assms(1) [of N] by simp
qed (assumption, rule assms(2))

lemma hoare_lift_known:
  assumes "\<And>e N. P N \<Longrightarrow> E e N"
  shows "hoare P (io_lift r) (\<lambda>x N. P N \<and> r = Inr x) E"
  by (rule hoare_lift) (simp, rule assms)

lemma hoare_promote:
  assumes pid: "peer_name pid" and d: "d \<noteq> []"
  shows "hoare (\<lambda>N. N = N0) (promote cr sd d pid) (\<lambda>_. promoted cr sd d pid N0)
    (\<lambda>_ N. N (bonds_path d) = N0 (bonds_path d))"
proof -
  define A where "A = same_but (promote_scratch d pid) N0"
  define B where "B N \<longleftrightarrow> same_but (\<lambda>q. promote_scratch d pid q \<or> q = active_key_path d pid) N0 N
    \<and> key_done d pid N0 N" for N
  let ?E = "\<lambda>_ :: recovery_error. \<lambda>N :: nodes. N (bonds_path d) = N0 (bonds_path d)"
  let ?at = "store_at cr sd N0 (pending_bond_path d)" and ?find = "find (\<lambda>b. bond_peer_id b = pid)"
  have kept: "N (bonds_path d) = N0 (bonds_path d)" if "A N \<or> B N" for N
    using that promote_scratch_not(1) [OF pid, of d] bonds_not_key [OF pid]
    by (auto simp: same_but_def A_def B_def simp del: layout layout_keys)
  have load: "hoare (\<lambda>N. N = N0) (io_map_err Rec_Bond (store_load cr sd (pending_bond_path d)))
      (\<lambda>staged N. N = N0 \<and> ?at staged) ?E"
    by (rule hoare_load_known) simp_all
  have pick: "hoare (\<lambda>N. N = N0 \<and> ?at staged) (io_lift (ok_or Rec_Malformed (?find staged)))
      (\<lambda>b N. (N = N0 \<and> ?at staged) \<and> ok_or Rec_Malformed (?find staged) = Inr b) ?E" for staged
    by (rule hoare_lift_known) simp
  have key: "hoare (\<lambda>N. (N = N0 \<and> ?at staged) \<and> C) (promote_key d pid) (\<lambda>_ N. (B N \<and> ?at staged) \<and> C) ?E" for staged C
    by (intro hoare_pure_post, rule hoare_weaken [OF hoare_promote_key [OF pid, of d N0]])
       (simp, simp add: B_def, rule kept, simp add: A_def)
  have act: "hoare (\<lambda>N. (B N \<and> ?at staged) \<and> C) (io_map_err Rec_Bond (store_load cr sd (bonds_path d)))
      (\<lambda>active N. ((B N \<and> ?at staged) \<and> C) \<and> store_at cr sd N0 (bonds_path d) active) ?E" for staged C
    by (rule hoare_load_known) (use kept in blast)+
  have repl: "hoare (\<lambda>N. ((B N \<and> C) \<and> C') \<and> C'') (io_lift r)
      (\<lambda>bs N. (((B N \<and> C) \<and> C') \<and> C'') \<and> r = Inr bs) ?E"
    for C C' C'' and r :: "(recovery_error, bond_store) result"
    by (rule hoare_lift_known) (use kept in blast)
  have save: "hoare (\<lambda>N. ((((B N \<and> ?at staged) \<and> ok_or Rec_Malformed (?find staged) = Inr b)
      \<and> store_at cr sd N0 (bonds_path d) active) \<and> result_map_err Rec_Bond (replace_bond active b) = Inr bs))
      (io_map_err Rec_Bond (store_save sd bs (bonds_path d))) (\<lambda>_. promoted cr sd d pid N0) ?E" for staged b active bs
  proof -
    have pure: "hoare B (store_save sd bs (bonds_path d)) (\<lambda>_. promoted cr sd d pid N0)
        (\<lambda>_ N. N (bonds_path d) = N0 (bonds_path d))"
      if "?at staged" "ok_or Rec_Malformed (?find staged) = Inr b" "store_at cr sd N0 (bonds_path d) active"
        "result_map_err Rec_Bond (replace_bond active b) = Inr bs"
    proof -
      have "?find staged = Some b" using that(2) by (cases "?find staged") (simp_all add: ok_or_def)
      moreover have "replace_bond active b = Inr bs"
        using that(4) by (cases "replace_bond active b") (simp_all add: result_map_err_def)
      ultimately show ?thesis
        unfolding B_def by (rule hoare_replace_and_save [OF pid d that(1) _ that(3)])
    qed
    show ?thesis unfolding hoare_map_err by ((rule hoare_pure)+, rule pure)
  qed
  have clear: "hoare (promoted cr sd d pid N0) (discard d pid) (\<lambda>_. promoted cr sd d pid N0) ?E"
    using keeps_discard [OF promoted_frame [OF pid] pid]
    unfolding discard_def hoare_def io_bind_def io_ignore_def by simp
  show ?thesis
    unfolding promote_def
    by (rule hoare_bind, rule load, rule hoare_bind, rule pick, rule hoare_bind, rule key,
        rule hoare_bind, rule act, rule hoare_bind, rule repl, rule hoare_bind, rule save, rule clear)
qed

subsection \<open>Staging, then promotion\<close>

definition staged :: "serde \<Rightarrow> path \<Rightarrow> string \<Rightarrow> bond \<Rightarrow> bytes \<Rightarrow> nodes \<Rightarrow> bool" where
  "staged sd d pid b key N \<longleftrightarrow>
     (\<exists>c. serialize_to_toml sd [b] = Inr c \<and> N (pending_bond_path d) = Some (File c BOND_FILE_MODE)) \<and>
     N (pending_key_path d pid) = Some (File key 0x180)"

lemma hoare_write_journal:
  assumes "frame_on (\<lambda>q. q \<noteq> [] \<and> prefix q d) P" and "d \<noteq> []"
    and "\<And>N v. P N \<Longrightarrow> P (N(journal_path d := v))"
  shows "hoare P (write_journal d tid pid addr st)
    (\<lambda>_ N. P N \<and> (\<exists>m. N (journal_path d) = Some (File (string_bytes (journal_text tid pid addr st)) m))) (\<lambda>_. P)"
proof -
  have "keeps P (fs_create_dir_all d)" by (rule keeps_create_dirs [OF assms(1)]) simp
  moreover have "keeps P (fs_set_permissions d 0x1C0)" by (rule keeps_writes [OF assms(1)]) (use assms(2) in simp)
  moreover have "hoare P (fs_write (journal_path d) (string_bytes (journal_text tid pid addr st)))
    (\<lambda>_ N. P N \<and> (\<exists>m. N (journal_path d) = Some (File (string_bytes (journal_text tid pid addr st)) m))) (\<lambda>_. P)"
    by (rule hoare_write) (auto intro: assms(3) simp del: layout)
  ultimately show ?thesis
    unfolding write_journal_def by (intro hoare_bind [where R = "\<lambda>_. P"]; simp only: hoare_map_err)
qed

lemma hoare_stage:
  assumes pid: "peer_name pid" and d: "d \<noteq> []"
  shows "hoare (\<lambda>_. True) (stage sd d tid pid addr b key)
    (\<lambda>_ N. staged sd d pid b key N \<and>
       (\<exists>m. N (journal_path d) = Some (File (string_bytes (journal_text tid pid addr J_PreCommit)) m)))
    (\<lambda>_ _. True)"
proof -
  let ?st = "pending_key_path d pid"
  let ?tmp = "with_extension ?st ''bin.tmp''"
  let ?T = "\<lambda>_ :: nodes. True"
  define P where "P N \<longleftrightarrow> (\<exists>c. serialize_to_toml sd [b] = Inr c \<and>
    N (pending_bond_path d) = Some (File c BOND_FILE_MODE))" for N :: nodes
  have parent: "path_parent ?st = Some (keys_dir d)" using pid by (simp add: path_parent_def butlast_append)
  have long: "\<not> prefix (d @ [x]) d" for x :: string
    using prefix_length_le [of "d @ [x]" d] by auto
  have notpre: "q \<noteq> pending_bond_path d" "q \<noteq> ?st" if "prefix q (keys_dir d)" for q
    using that pid prefix_length_le [OF that] long by (auto simp: prefix_def)
  have fr: "frame_on (\<lambda>q. q \<noteq> [] \<and> prefix q (keys_dir d)) P"
    using notpre by (auto simp: frame_on_def P_def simp del: layout layout_keys)
  have tmp: "P N \<Longrightarrow> P (N(?tmp := v))" "P N \<Longrightarrow> P (N(?st := v))" for N v
    using pid by (auto simp: P_def)
  have save: "hoare ?T (store_save sd [b] (pending_bond_path d)) (\<lambda>_. P) (\<lambda>_. ?T)"
    by (rule hoare_store_save) (use d in \<open>auto simp: P_def\<close>)
  have dirs: "hoare P (fs_create_dir_all (keys_dir d)) (\<lambda>_. P) (\<lambda>_. ?T)"
    by (rule hoare_weaken [OF keeps_create_dirs [OF fr]]) auto
  have mode: "hoare P (fs_set_permissions (keys_dir d) 0x1C0) (\<lambda>_. P) (\<lambda>_. ?T)"
    by (rule hoare_weaken [OF keeps_writes(2) [OF fr]]) auto
  have wr: "hoare P (fs_write ?tmp key) (\<lambda>_ N. P N \<and> (\<exists>m. N ?tmp = Some (File key m))) (\<lambda>_. ?T)"
    by (rule hoare_write) (auto intro: tmp simp del: layout_keys)
  have perm: "hoare (\<lambda>N. P N \<and> (\<exists>m. N ?tmp = Some (File key m))) (fs_set_permissions ?tmp 0x180)
      (\<lambda>_ N. P N \<and> N ?tmp = Some (File key 0x180)) (\<lambda>_. ?T)"
    by (rule hoare_set_permissions) (auto intro: tmp simp: with_mode_def simp del: layout_keys)
  have ren: "hoare (\<lambda>N. P N \<and> N ?tmp = Some (File key 0x180)) (fs_rename ?tmp ?st)
      (\<lambda>_. staged sd d pid b key) (\<lambda>_. ?T)"
    by (rule hoare_rename) (use tmp in \<open>auto simp: staged_def P_def simp del: layout layout_keys\<close>)
  have jour: "hoare (staged sd d pid b key) (write_journal d tid pid addr J_PreCommit)
      (\<lambda>_ N. staged sd d pid b key N \<and>
       (\<exists>m. N (journal_path d) = Some (File (string_bytes (journal_text tid pid addr J_PreCommit)) m))) (\<lambda>_. ?T)"
  proof (rule hoare_weaken [OF hoare_write_journal [of d "staged sd d pid b key"]])
    show "frame_on (\<lambda>q. q \<noteq> [] \<and> prefix q d) (staged sd d pid b key)"
      using notpre by (auto simp: frame_on_def staged_def simp del: layout_keys)
    show "staged sd d pid b key (N(journal_path d := v))" if "staged sd d pid b key N" for N v
      using that pid by (simp add: staged_def)
  qed (use d in auto)
  have start: "keeps ?T m" for m :: "(io_error, unit) prog" by (simp add: hoare_def split: prod.split sum.split)
  have add: "io_map_err Rec_Bond (io_lift (store_add store_empty b)) = io_lift (Inr [b])"
    by (simp add: fun_eq_iff io_map_err_def io_lift_def store_add_def store_empty_def store_find_index_def)
  show ?thesis
    unfolding stage_def Let_def parent ok_or_def option.case add io_bind_lift_Inr
    by (rule hoare_bind, simp only: hoare_map_err, rule start, rule hoare_bind, simp only: hoare_map_err,
        rule start, rule hoare_bind, simp only: hoare_map_err, rule save, rule hoare_bind,
        simp only: hoare_map_err, rule dirs, rule hoare_bind, simp only: hoare_map_err, rule mode,
        rule hoare_bind, simp only: hoare_map_err, rule wr, rule hoare_bind, simp only: hoare_map_err,
        rule perm, rule hoare_bind, simp only: hoare_map_err, rule ren, rule jour)
qed

lemma replace_bond_lookup:
  assumes "store_ok active"
  shows "\<exists>bs. replace_bond active b = Inr bs \<and> store_ok bs \<and>
    store_lookup bs = (store_lookup active)(bond_peer_id b \<mapsto> b)"
proof -
  have "list_ex (\<lambda>x. bond_peer_id x = bond_peer_id b) active \<longleftrightarrow> store_lookup active (bond_peer_id b) \<noteq> None"
    unfolding store_lookup_None list_ex_iff by (metis image_iff)
  then show ?thesis unfolding replace_bond_def using bonds.replace_total [OF assms, of b] by simp
qed

lemma replace_bond_wf:
  "list_all (bond_wf cr) active \<Longrightarrow> bond_wf cr b \<Longrightarrow> replace_bond active b = Inr bs \<Longrightarrow> list_all (bond_wf cr) bs"
  using set_remove_at [of _ active]
  by (fastforce simp: replace_bond_def store_remove_def store_add_def list_all_iff result_bind_Inr_iff
      split: if_splits option.splits)

lemma store_at_wf: "store_at cr sd N p bs \<Longrightarrow> list_all (bond_wf cr) bs"
  by (auto simp: store_at_def dest: parse_store_wf)

lemma store_at_saved:
  assumes "serde_laws sd" and "list_all (bond_wf cr) bs" and "serialize_to_toml sd bs = Inr c"
    and "N p = Some (File c m)"
  shows "store_at cr sd N p bs' \<longleftrightarrow> bs' = bs"
proof -
  obtain raw where "from_utf8 c = Some raw" "parse_store cr sd raw = Inr bs"
    using parse_serialized [OF assms(1,3,2)] by blast
  moreover from this have "string_bytes raw = c" by (simp add: from_utf8_SomeD)
  ultimately show ?thesis using assms(4) bytes_string_bytes
    unfolding store_at_def by (metis Inr_inject node.inject(1) option.distinct(1) option.inject)
qed

lemma promoted_staged:
  assumes sd: "serde_laws sd" and wf: "bond_wf cr b" and pid_b: "bond_peer_id b = pid" and pid: "peer_name pid"
    and same: "\<And>q. active_trust d q \<Longrightarrow> N1 q = N0 q"
    and act_at: "store_at cr sd N0 (bonds_path d) active" and act_ok: "store_ok active"
    and no_key: "N0 (active_key_path d pid) = None"
    and st: "staged sd d pid b key N1" and prom: "promoted cr sd d pid N1 N2"
  shows "\<exists>bs. store_at cr sd N2 (bonds_path d) bs \<and> store_ok bs \<and>
      store_lookup bs = (store_lookup active)(pid \<mapsto> b) \<and> N2 (active_key_path d pid) = Some (File key BOND_FILE_MODE)"
proof -
  from prom obtain st' b' act bs c where st': "store_at cr sd N1 (pending_bond_path d) st'"
    "find (\<lambda>b. bond_peer_id b = pid) st' = Some b'" and act: "store_at cr sd N1 (bonds_path d) act"
    and bs: "replace_bond act b' = Inr bs" and c: "serialize_to_toml sd bs = Inr c"
    "N2 (bonds_path d) = Some (File c BOND_FILE_MODE)" and key: "key_done d pid N1 N2"
    unfolding promoted_def by blast
  have "st' = [b]"
    using st st'(1) store_at_saved [OF sd, of cr "[b]"] wf by (auto simp: staged_def simp del: layout)
  then have b': "b' = b" using st'(2) pid_b by simp
  have act': "store_at cr sd N1 (bonds_path d) x \<longleftrightarrow> store_at cr sd N0 (bonds_path d) x" for x
    by (rule store_at_same) (rule same, simp add: active_trust_def)
  have "act = active"
    using act act_at unfolding act' by (auto simp: store_at_def simp del: layout) (metis Inr_inject bytes_string_bytes)
  then obtain bs' where bs': "replace_bond active b = Inr bs'" "store_ok bs'"
    "store_lookup bs' = (store_lookup active)(pid \<mapsto> b)"
    using replace_bond_lookup [OF act_ok, of b] pid_b by auto
  have "bs' = bs" using bs bs'(1) b' \<open>act = active\<close> by simp
  have "list_all (bond_wf cr) bs"
    using replace_bond_wf [OF store_at_wf [OF act_at] wf] bs'(1) \<open>bs' = bs\<close> by simp
  then have "store_at cr sd N2 (bonds_path d) bs"
    using store_at_saved [OF sd _ c(1), of cr N2 "bonds_path d"] c(2) by blast
  moreover have "N2 (active_key_path d pid) = Some (File key BOND_FILE_MODE)"
  proof -
    have "active_trust d (active_key_path d pid)" using pid unfolding active_trust_def by blast
    then have "N1 (active_key_path d pid) = None" using same no_key by simp
    then show ?thesis
      using key st unfolding key_done_def staged_def by auto
  qed
  ultimately show ?thesis using bs' \<open>bs' = bs\<close> by blast
qed

subsection \<open>Properties\<close>

text \<open>C19: the staging operations never touch the active trust. Under every schedule of I/O errors and
  every crash point, after \<open>stage\<close>, \<open>mark_commit_pending\<close>, \<open>discard\<close> or \<open>discard_all\<close>, the active
  bond store and the key of every peer are exactly what they were.\<close>

theorem staging_keeps_active:
  assumes "peer_name pid" and "d \<noteq> []" and "crypto_laws cr" and "active_trust d q"
  shows "fs_nodes (snd (stage sd d tid pid addr b key s)) q = fs_nodes s q \<and>
    fs_nodes (snd (mark_commit_pending d s)) q = fs_nodes s q \<and>
    fs_nodes (snd (discard d pid s :: (recovery_error, unit) result \<times> fs)) q = fs_nodes s q \<and>
    fs_nodes (snd (discard_all cr sd d s :: (recovery_error, unit) result \<times> fs)) q = fs_nodes s q"
proof -
  let ?P = "\<lambda>N. N q = fs_nodes s q"
  have frame: "frame_on (staging_area d p) ?P" if "peer_name p" for p
    using active_not_staging [OF that assms(4)] by (auto simp: frame_on_def)
  note here = hoare_any [where P = ?P and R = ?P and s = s, OF _ refl]
  show ?thesis
    by (intro conjI here keeps_stage keeps_mark_commit_pending keeps_discard keeps_discard_all
        frame assms(1-3)) (auto intro: frame assms)
qed

theorem staging_keeps_active_witness:
  "fs_nodes (snd (stage sample_serde [''var''] (replicate 16 7) (bond_peer_id sample_bond) ''AA'' sample_bond
      (replicate 32 9) fresh_fs)) [''var'', ''bonds.toml''] = None"
  using staging_keeps_active [of "bond_peer_id sample_bond" "[''var'']" padding_crypto "[''var'', ''bonds.toml'']"
      sample_serde "replicate 16 7" "''AA''" sample_bond "replicate 32 9" fresh_fs]
    peer_name_hex [of "replicate 16 1"]
  by (simp add: padding_crypto_laws active_trust_def sample_bond_def) (simp add: fresh_fs_def)



text \<open>C21: a torn journal never claims a commit decision it does not have. If the write of the
  commit-pending journal stops after any number of bytes, what is left parses as a commit-pending
  record only if it is the record that was being written.\<close>

theorem torn_journal_never_lies:
  assumes "length tid = 16" and "line_safe pid" and "line_safe addr"
    and "parse_journal (take n (journal_text tid pid addr J_CommitPending)) = Inr r"
    and "jr_state r = J_CommitPending"
  shows "r = \<lparr>jr_transaction = tid, jr_peer_id = pid, jr_peer_address = addr, jr_state = J_CommitPending\<rparr>"
  using parse_journal_lines [OF torn_commit_is_whole [OF assms(2,3) parse_commit_line [OF assms(4,5)]] assms(1)]
    assms(4) by simp

theorem torn_journal_never_lies_witness:
  "\<exists>r. parse_journal (take 200 (journal_text (replicate 16 7) ''ab'' ''AA'' J_CommitPending)) = Inr r \<and>
     r = \<lparr>jr_transaction = replicate 16 7, jr_peer_id = ''ab'', jr_peer_address = ''AA'', jr_state = J_CommitPending\<rparr>"
proof -
  let ?r = "\<lparr>jr_transaction = replicate 16 7, jr_peer_id = ''ab'', jr_peer_address = ''AA'', jr_state = J_CommitPending\<rparr>"
  have safe: "line_safe ''ab''" "line_safe ''AA''" by (simp_all add: line_safe_def)
  have "parse_journal (take 200 (journal_text (replicate 16 7) ''ab'' ''AA'' J_CommitPending)) = Inr ?r"
    using parse_journal_lines [OF lines_journal_text [OF safe, of "replicate 16 7" J_CommitPending]]
    by (simp add: journal_text_def)
  then show ?thesis using torn_journal_never_lies [OF _ safe, of "replicate 16 7" 200 ?r] by simp
qed

text \<open>The sample pairing on an empty system: both steps succeed.\<close>

abbreviation sample_stage :: "fs \<Rightarrow> (recovery_error, unit) result \<times> fs" where
  "sample_stage \<equiv> stage sample_serde [''var''] (replicate 16 7) (bond_peer_id sample_bond) ''AA'' sample_bond
     (replicate 32 9)"

lemma sample_name: "peer_name (bond_peer_id sample_bond)"
  using peer_name_hex [of "replicate 16 1"] by (simp add: sample_bond_def)

lemma sample_stage_ok: "is_ok (fst (sample_stage fresh_fs))"
  by code_simp

lemma sample_promote_ok:
  "is_ok (fst (promote padding_crypto sample_serde [''var''] (bond_peer_id sample_bond)
     (snd (sample_stage fresh_fs))))"
  by code_simp

text \<open>Staging followed by promotion pairs the phone. If a bond of a peer without an active key
  has been staged and the promotion of what was staged succeeds, whatever else failed on the way,
  then the active store reads as the old one with exactly this bond added or replaced, and the
  active key of the peer is the staged key with mode 0600.\<close>

lemma stage_then_promote:
  assumes "serde_laws sd" and "bond_wf cr b" and "bond_peer_id b = pid" and "peer_name pid" and "d \<noteq> []"
    and "crypto_laws cr"
    and "store_at cr sd (fs_nodes s) (bonds_path d) active" and "store_ok active"
    and "fs_nodes s (active_key_path d pid) = None"
    and "is_ok (fst (stage sd d tid pid addr b key s))"
    and "fs_nodes s2 = fs_nodes (snd (stage sd d tid pid addr b key s))"
    and "is_ok (fst (promote cr sd d pid s2))"
  shows "\<exists>bs. store_at cr sd (fs_nodes (snd (promote cr sd d pid s2))) (bonds_path d) bs \<and>
      store_ok bs \<and> store_lookup bs = (store_lookup active)(pid \<mapsto> b) \<and>
      fs_nodes (snd (promote cr sd d pid s2)) (active_key_path d pid) = Some (File key BOND_FILE_MODE)"
proof -
  let ?N0 = "fs_nodes s" and ?N1 = "fs_nodes s2" and ?N2 = "fs_nodes (snd (promote cr sd d pid s2))"
  have frame: "frame_on (staging_area d pid) (\<lambda>N. N q = ?N0 q)" if "active_trust d q" for q
    using active_not_staging [OF assms(4) that] by (auto simp: frame_on_def)
  have same: "?N1 q = ?N0 q" if "active_trust d q" for q
    using hoare_any [OF keeps_stage [OF frame [OF that] assms(4,5)], where s = s] assms(11) by simp
  have st: "staged sd d pid b key ?N1"
    using hoare_ok [OF hoare_stage [OF assms(4,5)], where s = s] assms(10,11)
    by (cases "stage sd d tid pid addr b key s"; cases "fst (stage sd d tid pid addr b key s)") (auto simp: is_ok_def)
  have prom: "promoted cr sd d pid ?N1 ?N2"
    using hoare_ok [OF hoare_promote [OF assms(4,5), of ?N1 cr sd] refl] assms(12)
    by (cases "promote cr sd d pid s2"; cases "fst (promote cr sd d pid s2)") (auto simp: is_ok_def simp del: layout)
  show ?thesis by (rule promoted_staged [OF assms(1-4) same assms(7-9) st prom])
qed

lemma stage_then_promote_witness:
  "\<exists>bs. store_at padding_crypto sample_serde
       (fs_nodes (snd (promote padding_crypto sample_serde [''var''] (bond_peer_id sample_bond)
          (snd (sample_stage fresh_fs))))) (bonds_path [''var'']) bs \<and>
     store_ok bs \<and> store_lookup bs = (store_lookup [])(bond_peer_id sample_bond \<mapsto> sample_bond) \<and>
     fs_nodes (snd (promote padding_crypto sample_serde [''var''] (bond_peer_id sample_bond)
          (snd (sample_stage fresh_fs)))) (active_key_path [''var''] (bond_peer_id sample_bond))
       = Some (File (replicate 32 9) BOND_FILE_MODE)"
  by (rule stage_then_promote [OF _ sample_bond_wf refl sample_name _ padding_crypto_laws _ _ _ sample_stage_ok refl
        sample_promote_ok])
     (simp_all add: sample_serde_def one_file_serde_laws store_at_def store_ok_def fresh_fs_def)

end
