(* ===== verification/Peripheral.thy ===== *)
theory Peripheral
  imports Transport_Link
begin

section \<open>The desktop as a Bluetooth peripheral\<close>

text \<open>
  \<open>syauth-transport/src/peripheral.rs\<close>: the pair agent and its restore plan, the services the daemon
  registers, the routing of what a bonded phone writes, and the delivery of challenges. BlueZ is a
  parameter: the adapter flag is a pair of operations on a state of its own, registrations and
  advertisements consume a script of outcomes, and a delivery takes the outcomes of its waits as an
  argument; one delivery is modelled without a concurrent removal of its peer, and disconnecting stale
  links has no result the code uses. The exponential average of the signal strength is floating point and is left out.
\<close>

datatype peripheral_error =
    P_AdapterMissing string
  | P_UnknownPeer string
  | P_PeerAlreadyAdded string
  | P_Backend string
  | P_Cancelled
  | P_ResponseTimeout string u64

text \<open>\<open>From<TransportError>\<close>; \<open>display\<close> is the rendering of a transport error.\<close>

definition peripheral_error_from :: "(transport_error \<Rightarrow> string) \<Rightarrow> transport_error \<Rightarrow> peripheral_error" where
  "peripheral_error_from display err =
     (case err of T_AdapterMissing name \<Rightarrow> P_AdapterMissing name | other \<Rightarrow> P_Backend (display other))"

subsection \<open>What a bonded phone writes\<close>

definition PRESENCE_HEARTBEAT :: bytes where "PRESENCE_HEARTBEAT = string_bytes ''SYAUTH-PRESENCE-v1''"
definition RSSI_TELEMETRY_PREFIX :: bytes where "RSSI_TELEMETRY_PREFIX = string_bytes ''SYAUTH-RSSI-v1:''"
definition RESPONSE_BUFFER_DEPTH :: nat where "RESPONSE_BUFFER_DEPTH = 8"

definition revoke_peer_id :: "bytes \<Rightarrow> bytes option" where
  "revoke_peer_id bs =
     (case message_decode bs of
        Inr m \<Rightarrow> if msg_operation m = Op_Revoke then Some (msg_transaction m) else None
      | Inl e \<Rightarrow> None)"

definition parse_rssi :: "bytes \<Rightarrow> int option" where
  "parse_rssi bs =
     (if take (length RSSI_TELEMETRY_PREFIX) bs \<noteq> RSSI_TELEMETRY_PREFIX then None
      else
        let rest = drop (length RSSI_TELEMETRY_PREFIX) bs in
        if \<not> utf8_ok rest then None
        else case parse_i32 (str_trim rest) of
               None \<Rightarrow> None
             | Some v \<Rightarrow> if - 127 \<le> v \<and> v \<le> 0 then Some v else None)"

text \<open>The per-peer task. Its state is the notifier slot, whether a reader is open, the response channel,
  the revocations it sent, and its side effects on the runtime directory, in order.\<close>

datatype task_effect =
    Eff_Ready
  | Eff_ReadyCleared
  | Eff_Presence
  | Eff_Rssi int

record peer_task =
  pt_alive :: bool
  pt_notifier :: bool
  pt_reader :: bool
  pt_responses :: "bytes list"
  pt_revokes :: "bytes list"
  pt_effects :: "task_effect list"

definition task_new :: peer_task where
  "task_new = \<lparr>pt_alive = True, pt_notifier = False, pt_reader = False, pt_responses = [], pt_revokes = [], pt_effects = []\<rparr>"

text \<open>A subscription, with whether the ready marker could be written; an accepted or refused write
  request; what the reader delivered, and whether the commit channel had room for a revocation.\<close>

datatype task_event =
    Chal_Notify bool
  | Chal_Write
  | Chal_End
  | Resp_Write bool
  | Resp_Notify
  | Resp_End
  | Read_Bytes bytes bool
  | Read_Closed

definition task_read :: "peer_task \<Rightarrow> bytes \<Rightarrow> bool \<Rightarrow> peer_task" where
  "task_read t bs room =
     (if bs = [] then t\<lparr>pt_reader := False\<rparr>
      else if bs = PRESENCE_HEARTBEAT then t\<lparr>pt_effects := pt_effects t @ [Eff_Presence]\<rparr>
      else case revoke_peer_id bs of
             Some pid \<Rightarrow> if room then t\<lparr>pt_revokes := pt_revokes t @ [pid]\<rparr> else t
           | None \<Rightarrow>
               (case parse_rssi bs of
                  Some raw \<Rightarrow> t\<lparr>pt_effects := pt_effects t @ [Eff_Rssi raw]\<rparr>
                | None \<Rightarrow> t\<lparr>pt_responses := pt_responses t @ [bs]\<rparr>))"

fun task_step :: "peer_task \<Rightarrow> task_event \<Rightarrow> peer_task" where
  "task_step t (Chal_Notify ready) =
     (if pt_alive t
      then t\<lparr>pt_notifier := True, pt_effects := pt_effects t @ Eff_ReadyCleared # (if ready then [Eff_Ready] else [])\<rparr>
      else t)"
| "task_step t Chal_Write = t"
| "task_step t Chal_End =
     (if pt_alive t then t\<lparr>pt_alive := False, pt_notifier := False, pt_effects := pt_effects t @ [Eff_ReadyCleared]\<rparr> else t)"
| "task_step t (Resp_Write accepted) = (if pt_alive t \<and> accepted then t\<lparr>pt_reader := True\<rparr> else t)"
| "task_step t Resp_Notify = t"
| "task_step t Resp_End =
     (if pt_alive t then t\<lparr>pt_alive := False, pt_notifier := False, pt_effects := pt_effects t @ [Eff_ReadyCleared]\<rparr> else t)"
| "task_step t (Read_Bytes bs room) = (if pt_alive t \<and> pt_reader t then task_read t bs room else t)"
| "task_step t Read_Closed = (if pt_alive t then t\<lparr>pt_reader := False\<rparr> else t)"

definition task_run :: "peer_task \<Rightarrow> task_event list \<Rightarrow> peer_task" where
  "task_run t es = foldl task_step t es"

subsection \<open>The pair agent\<close>

definition ADAPTER_MODE_RETRIES :: nat where "ADAPTER_MODE_RETRIES = 10"

record 'a pairable_control =
  pairable :: "'a \<Rightarrow> (string, bool) result \<times> 'a"
  set_pairable :: "bool \<Rightarrow> 'a \<Rightarrow> (string, unit) result \<times> 'a"

definition unwrap_or :: "'b \<Rightarrow> ('e, 'b) result \<Rightarrow> 'b" where
  "unwrap_or d r = (case r of Inl e \<Rightarrow> d | Inr x \<Rightarrow> x)"

text \<open>The restore plan is the previous value, when the session changed it.\<close>

type_synonym pair_agent_restore = "bool option"

definition from_pairable :: "bool \<Rightarrow> bool \<Rightarrow> pair_agent_restore" where
  "from_pairable changed previous = (if changed then Some previous else None)"

record 'h pair_agent_session =
  pa_handle :: "'h option"
  pa_restore :: "pair_agent_restore option"

definition agent_session_new :: "'h pair_agent_session" where
  "agent_session_new = \<lparr>pa_handle = None, pa_restore = None\<rparr>"

definition is_held :: "'h pair_agent_session \<Rightarrow> bool" where
  "is_held s \<longleftrightarrow> pa_handle s \<noteq> None"

definition agent_begin :: "'h pair_agent_session \<Rightarrow> 'h \<Rightarrow> pair_agent_restore \<Rightarrow> 'h pair_agent_session" where
  "agent_begin s h r = s\<lparr>pa_handle := Some h, pa_restore := Some r\<rparr>"

definition agent_end :: "'h pair_agent_session \<Rightarrow> pair_agent_restore option \<times> 'h pair_agent_session" where
  "agent_end s = (case pa_handle s of None \<Rightarrow> (None, s) | Some h \<Rightarrow> (pa_restore s, s\<lparr>pa_handle := None, pa_restore := None\<rparr>))"

primrec ensure_retry :: "'a pairable_control \<Rightarrow> nat \<Rightarrow> 'a \<Rightarrow> (peripheral_error, bool) result \<times> 'a" where
  "ensure_retry pc 0 a = (Inl (P_Backend ''adapter Pairable could not be verified as true''), a)"
| "ensure_retry pc (Suc n) a =
     (case pairable pc (snd (set_pairable pc True a)) of (r, a') \<Rightarrow>
        if unwrap_or False r then (Inr True, a') else ensure_retry pc n a')"

definition ensure_pairable_with :: "'a pairable_control \<Rightarrow> nat \<Rightarrow> 'a \<Rightarrow> (peripheral_error, bool) result \<times> 'a" where
  "ensure_pairable_with pc retries a =
     (case pairable pc a of (r, a') \<Rightarrow> if unwrap_or False r then (Inr False, a') else ensure_retry pc retries a')"

definition ensure_pairable :: "'a pairable_control \<Rightarrow> 'a \<Rightarrow> (peripheral_error, bool) result \<times> 'a" where
  "ensure_pairable pc a = ensure_pairable_with pc ADAPTER_MODE_RETRIES a"

definition acquire_pair_agent_with ::
    "'a pairable_control \<Rightarrow> (string, 'h) result \<Rightarrow> 'h pair_agent_session \<Rightarrow> 'a \<Rightarrow>
     (peripheral_error, unit) result \<times> 'h pair_agent_session \<times> 'a" where
  "acquire_pair_agent_with pc register s a =
     (if is_held s then (Inr (), s, a)
      else case pairable pc a of (r, a1) \<Rightarrow>
        let previous = unwrap_or False r in
        (case ensure_pairable pc a1 of
           (Inl e, a2) \<Rightarrow> (Inl e, s, a2)
         | (Inr changed, a2) \<Rightarrow>
             (case register of
                Inl err \<Rightarrow>
                  (Inl (P_Backend (''register_agent: '' @ err)), s,
                   if changed then snd (set_pairable pc previous a2) else a2)
              | Inr h \<Rightarrow> (Inr (), agent_begin s h (from_pairable changed previous), a2))))"

definition release_pair_agent_with ::
    "'a pairable_control \<Rightarrow> 'h pair_agent_session \<Rightarrow> 'a \<Rightarrow> 'h pair_agent_session \<times> 'a" where
  "release_pair_agent_with pc s a =
     (case agent_end s of
        (None, s') \<Rightarrow> (s', a)
      | (Some restore, s') \<Rightarrow>
          (case restore of None \<Rightarrow> (s', a) | Some previous \<Rightarrow> (s', snd (set_pairable pc previous a))))"

subsection \<open>Registered services\<close>

record gatt_characteristic =
  gc_uuid :: uuid
  gc_notify :: bool
  gc_write :: bool
  gc_write_without_response :: bool
  gc_encrypt :: bool

definition peer_characteristics :: "gatt_characteristic list" where
  "peer_characteristics =
     [\<lparr>gc_uuid = SYAUTH_CHALLENGE_CHAR_UUID, gc_notify = True, gc_write = False, gc_write_without_response = False,
       gc_encrypt = False\<rparr>,
      \<lparr>gc_uuid = SYAUTH_RESPONSE_CHAR_UUID, gc_notify = False, gc_write = True, gc_write_without_response = True,
       gc_encrypt = False\<rparr>]"

datatype gatt_registration =
    Svc_Pair
  | Svc_Peer bytes "gatt_characteristic list"

record peer_char_set =
  pc_responses :: "bytes list"
  pc_notifier :: bool
  pc_task :: bool
  pc_bond_key :: bytes

text \<open>\<open>pp_serve\<close> and \<open>pp_advertise\<close> are the outcomes of the next registrations; past their end BlueZ accepts.\<close>

record persistent_peripheral =
  pp_app :: "gatt_registration list option"
  pp_pair_watcher :: bool
  pp_advertised :: "bytes set option"
  pp_peers :: "string \<rightharpoonup> peer_char_set"
  pp_serve :: "(string, unit) result list"
  pp_advertise :: "(string, unit) result list"

type_synonym 'x p_outcome = "(peripheral_error, 'x) result \<times> persistent_peripheral"

definition peer_service_uuid :: "crypto \<Rightarrow> bytes \<Rightarrow> bytes" where
  "peer_service_uuid cr bond_key = session_uuid_for cr bond_key 0"

definition serve_gatt_application :: "gatt_registration list \<Rightarrow> persistent_peripheral \<Rightarrow> unit p_outcome" where
  "serve_gatt_application svcs p =
     (case pp_serve p of
        [] \<Rightarrow> (Inr (), p\<lparr>pp_app := Some svcs\<rparr>)
      | Inr u # rs \<Rightarrow> (Inr (), p\<lparr>pp_app := Some svcs, pp_serve := rs\<rparr>)
      | Inl e # rs \<Rightarrow> (Inl (P_Backend (''serve_gatt_application: '' @ e)), p\<lparr>pp_serve := rs\<rparr>))"

definition rebuild_application :: "gatt_registration list \<Rightarrow> persistent_peripheral \<Rightarrow> unit p_outcome" where
  "rebuild_application peer_services p =
     (case serve_gatt_application (Svc_Pair # peer_services) (p\<lparr>pp_pair_watcher := False, pp_app := None\<rparr>) of
        (Inl e, p') \<Rightarrow> (Inl e, p')
      | (Inr u, p') \<Rightarrow> (Inr (), p'\<lparr>pp_pair_watcher := True\<rparr>))"

text \<open>The part of \<open>new\<close> after the adapter is powered and the host key is drawn.\<close>

definition peripheral_start :: "(string, unit) result list \<Rightarrow> (string, unit) result list \<Rightarrow> unit p_outcome" where
  "peripheral_start serve adv =
     rebuild_application [] \<lparr>pp_app = None, pp_pair_watcher = False, pp_advertised = None, pp_peers = Map.empty, pp_serve = serve, pp_advertise = adv\<rparr>"

definition build_and_register_peer :: "crypto \<Rightarrow> bytes \<Rightarrow> persistent_peripheral \<Rightarrow> peer_char_set p_outcome" where
  "build_and_register_peer cr bond_key p =
     (case serve_gatt_application [Svc_Peer (peer_service_uuid cr bond_key) peer_characteristics] p of
        (Inl e, p') \<Rightarrow> (Inl e, p')
      | (Inr u, p') \<Rightarrow>
          (Inr \<lparr>pc_responses = [], pc_notifier = False, pc_task = True, pc_bond_key = bond_key\<rparr>, p'))"

definition pp_add_peer :: "crypto \<Rightarrow> string \<Rightarrow> bytes \<Rightarrow> persistent_peripheral \<Rightarrow> unit p_outcome" where
  "pp_add_peer cr pid bond_key p =
     (if pp_peers p pid \<noteq> None then (Inl (P_PeerAlreadyAdded pid), p)
      else case build_and_register_peer cr bond_key (p\<lparr>pp_app := None\<rparr>) of
             (Inl e, p') \<Rightarrow> (Inl e, p')
           | (Inr cs, p') \<Rightarrow> (Inr (), p'\<lparr>pp_peers := (pp_peers p')(pid \<mapsto> cs)\<rparr>))"

definition pp_remove_peer :: "string \<Rightarrow> persistent_peripheral \<Rightarrow> unit p_outcome" where
  "pp_remove_peer pid p =
     (if pp_peers p pid = None then (Inl (P_UnknownPeer pid), p)
      else (Inr (), p\<lparr>pp_peers := (pp_peers p)(pid := None), pp_app := None\<rparr>))"

definition pp_set_session_uuids :: "bytes set \<Rightarrow> persistent_peripheral \<Rightarrow> unit p_outcome" where
  "pp_set_session_uuids uuids p =
     (case pp_advertise p of
        [] \<Rightarrow> (Inr (), p\<lparr>pp_advertised := Some uuids\<rparr>)
      | Inr u # rs \<Rightarrow> (Inr (), p\<lparr>pp_advertised := Some uuids, pp_advertise := rs\<rparr>)
      | Inl e # rs \<Rightarrow> (Inl (P_Backend (''advertise: '' @ e)), p\<lparr>pp_advertised := None, pp_advertise := rs\<rparr>))"

definition rebuild_peer_registration :: "crypto \<Rightarrow> string \<Rightarrow> persistent_peripheral \<Rightarrow> unit p_outcome" where
  "rebuild_peer_registration cr pid p =
     (case pp_peers p pid of
        None \<Rightarrow> (Inl (P_UnknownPeer pid), p)
      | Some cs \<Rightarrow>
          (case build_and_register_peer cr (pc_bond_key cs)
                  (p\<lparr>pp_peers := (pp_peers p)(pid \<mapsto> cs\<lparr>pc_task := False\<rparr>), pp_app := None\<rparr>) of
             (Inl e, p') \<Rightarrow> (Inl e, p')
           | (Inr cs', p') \<Rightarrow> (Inr (), p'\<lparr>pp_peers := (pp_peers p')(pid \<mapsto> cs')\<rparr>)))"

subsection \<open>Challenges\<close>

text \<open>What happens around one delivery: the outcome of each write, and whether the phone subscribes
  to the fresh characteristic before the deadline; the second write is \<open>None\<close> when the subscription is
  gone again by then. Breaking the link before the rebuild is best effort and has no result.\<close>

record delivery =
  dl_first_write :: "(string, unit) result"
  dl_resubscribes :: bool
  dl_second_write :: "(string, unit) result option"

text \<open>The result, the frames the phone was sent, and the peripheral afterwards. \<open>Option\<close> slots: the
  writer is dropped when the first write fails.\<close>

definition with_peer :: "string \<Rightarrow> (peer_char_set \<Rightarrow> peer_char_set) \<Rightarrow> persistent_peripheral \<Rightarrow> persistent_peripheral" where
  "with_peer pid f p = p\<lparr>pp_peers := (pp_peers p)(pid := map_option f (pp_peers p pid))\<rparr>"

definition notify_retry ::
    "crypto \<Rightarrow> delivery \<Rightarrow> string \<Rightarrow> bytes \<Rightarrow> persistent_peripheral \<Rightarrow> (peripheral_error, unit) result \<times> bytes list \<times> persistent_peripheral" where
  "notify_retry cr dl pid frame_bytes p =
     (case rebuild_peer_registration cr pid p of
        (Inl e, p') \<Rightarrow> (Inl e, [], p')
      | (Inr u, p') \<Rightarrow>
          if \<not> dl_resubscribes dl
          then (Inl (P_Backend (''fresh GATT subscription timeout for peer_id='' @ pid)), [], p')
          else
            let p2 = with_peer pid (\<lambda>cs. cs\<lparr>pc_notifier := True\<rparr>) p' in
            (case dl_second_write dl of
               None \<Rightarrow> (Inl (P_Backend (''no active GATT subscription after rebuild for peer_id='' @ pid)), [], p')
             | Some (Inr u) \<Rightarrow> (Inr (), [frame_bytes], p2)
             | Some (Inl e) \<Rightarrow> (Inl (P_Backend (''notify_challenge retry write: '' @ e)), [], p2)))"

definition pp_notify_challenge ::
    "crypto \<Rightarrow> delivery \<Rightarrow> string \<Rightarrow> bytes \<Rightarrow> persistent_peripheral \<Rightarrow> (peripheral_error, unit) result \<times> bytes list \<times> persistent_peripheral" where
  "pp_notify_challenge cr dl pid frame_bytes p =
     (case pp_peers p pid of
        None \<Rightarrow> (Inl (P_UnknownPeer pid), [], p)
      | Some cs \<Rightarrow>
          let p1 = with_peer pid (\<lambda>cs. cs\<lparr>pc_responses := []\<rparr>) p in
          if pc_notifier cs then
            (case dl_first_write dl of
               Inr u \<Rightarrow> (Inr (), [frame_bytes], p1)
             | Inl e \<Rightarrow> notify_retry cr dl pid frame_bytes (with_peer pid (\<lambda>cs. cs\<lparr>pc_notifier := False\<rparr>) p1))
          else notify_retry cr dl pid frame_bytes p1)"

text \<open>\<open>arrived\<close>: what the response channel yields before the deadline.\<close>

datatype response_wait =
    W_Bytes bytes
  | W_Closed
  | W_Elapsed

definition pp_wait_for_response ::
    "response_wait \<Rightarrow> string \<Rightarrow> nat \<Rightarrow> persistent_peripheral \<Rightarrow> bytes p_outcome" where
  "pp_wait_for_response arrived pid deadline_ms p =
     (case pp_peers p pid of
        None \<Rightarrow> (Inl (P_UnknownPeer pid), p)
      | Some cs \<Rightarrow>
          (case pc_responses cs of
             b # bs \<Rightarrow> (Inr b, with_peer pid (\<lambda>cs. cs\<lparr>pc_responses := bs\<rparr>) p)
           | [] \<Rightarrow>
               (case arrived of
                  W_Bytes b \<Rightarrow> (Inr b, p)
                | W_Closed \<Rightarrow> (Inl (P_Backend (''response channel closed for peer_id='' @ pid)), p)
                | W_Elapsed \<Rightarrow>
                    (Inl (P_ResponseTimeout pid (if deadline_ms < 2 ^ 64 then word_of_nat deadline_ms else - 1)), p))))"

subsection \<open>Lemmas\<close>

lemma revoke_peer_id_iff:
  "revoke_peer_id bs = Some pid \<longleftrightarrow>
     length pid = 16 \<and> bs = message_encode \<lparr>msg_transaction = pid, msg_operation = Op_Revoke\<rparr>"
proof
  assume "revoke_peer_id bs = Some pid"
  then obtain m where "message_decode bs = Inr m" "msg_operation m = Op_Revoke" "msg_transaction m = pid"
    by (auto simp: revoke_peer_id_def split: sum.splits if_splits)
  then show "length pid = 16 \<and> bs = message_encode \<lparr>msg_transaction = pid, msg_operation = Op_Revoke\<rparr>"
    using message_decode_InrD [of bs m] by (cases m) (auto simp: message_typed_def)
next
  assume a: "length pid = 16 \<and> bs = message_encode \<lparr>msg_transaction = pid, msg_operation = Op_Revoke\<rparr>"
  then have "message_decode bs = Inr \<lparr>msg_transaction = pid, msg_operation = Op_Revoke\<rparr>"
    using message_decode_encode [of "\<lparr>msg_transaction = pid, msg_operation = Op_Revoke\<rparr>"]
    by (simp add: message_typed_def)
  then show "revoke_peer_id bs = Some pid" by (simp add: revoke_peer_id_def)
qed

lemma heartbeat_not_revoke: "revoke_peer_id PRESENCE_HEARTBEAT = None"
  by code_simp

lemma task_run_snoc: "task_run t (es @ [e]) = task_step (task_run t es) e"
  by (simp add: task_run_def)

lemma task_step_revokes:
  "set (pt_revokes (task_step t e)) \<subseteq> set (pt_revokes t) \<union>
     {pid. length pid = 16 \<and> e = Read_Bytes (message_encode \<lparr>msg_transaction = pid, msg_operation = Op_Revoke\<rparr>) True}"
  by (cases e) (auto simp: task_read_def revoke_peer_id_iff split: option.splits if_splits)

lemma task_step_responses:
  "set (pt_responses (task_step t e)) \<subseteq> set (pt_responses t) \<union>
     {bs. (\<exists>room. e = Read_Bytes bs room) \<and> bs \<noteq> [] \<and> bs \<noteq> PRESENCE_HEARTBEAT \<and>
          revoke_peer_id bs = None \<and> parse_rssi bs = None}"
  by (cases e) (auto simp: task_read_def split: option.splits if_splits)

lemma task_run_revokes:
  "pid \<in> set (pt_revokes (task_run task_new es)) \<Longrightarrow> length pid = 16 \<and>
     Read_Bytes (message_encode \<lparr>msg_transaction = pid, msg_operation = Op_Revoke\<rparr>) True \<in> set es"
proof (induction es rule: rev_induct)
  case Nil
  then show ?case by (simp add: task_run_def task_new_def)
next
  case (snoc e es)
  then show ?case
    using task_step_revokes [of "task_run task_new es" e] by (auto simp: task_run_snoc)
qed

lemma task_run_responses:
  "bs \<in> set (pt_responses (task_run task_new es)) \<Longrightarrow>
     (\<exists>room. Read_Bytes bs room \<in> set es) \<and> bs \<noteq> PRESENCE_HEARTBEAT \<and> revoke_peer_id bs = None \<and> parse_rssi bs = None"
proof (induction es rule: rev_induct)
  case Nil
  then show ?case by (simp add: task_run_def task_new_def)
next
  case (snoc e es)
  then show ?case
    using task_step_responses [of "task_run task_new es" e] by (auto simp: task_run_snoc)
qed

text \<open>An adapter whose flag is read faithfully, and set by a call that succeeds.\<close>

definition adapter_laws :: "'a pairable_control \<Rightarrow> ('a \<Rightarrow> bool) \<Rightarrow> bool" where
  "adapter_laws pc flg \<longleftrightarrow>
     (\<forall>a. pairable pc a = (Inr (flg a), a)) \<and>
     (\<forall>v a. case set_pairable pc v a of (Inr u, a') \<Rightarrow> flg a' = v | (Inl e, a') \<Rightarrow> flg a' = flg a)"

lemma adapter_lawsD:
  assumes "adapter_laws pc flg"
  shows "pairable pc a = (Inr (flg a), a)"
    and "fst (set_pairable pc v a) = Inr () \<Longrightarrow> flg (snd (set_pairable pc v a)) = v"
    and "flg (snd (set_pairable pc v a)) = v \<or> flg (snd (set_pairable pc v a)) = flg a"
proof -
  show "pairable pc a = (Inr (flg a), a)" using assms by (simp add: adapter_laws_def)
  have s: "case set_pairable pc v a of (Inr u, a') \<Rightarrow> flg a' = v | (Inl e, a') \<Rightarrow> flg a' = flg a"
    using assms by (simp add: adapter_laws_def)
  show "fst (set_pairable pc v a) = Inr () \<Longrightarrow> flg (snd (set_pairable pc v a)) = v"
    using s by (cases "set_pairable pc v a") auto
  show "flg (snd (set_pairable pc v a)) = v \<or> flg (snd (set_pairable pc v a)) = flg a"
    using s by (cases "set_pairable pc v a"; cases "fst (set_pairable pc v a)") auto
qed

lemma ensure_retry_outcome:
  assumes "adapter_laws pc flg" and "\<not> flg a" and "ensure_retry pc n a = (r, a')"
  shows "(r = Inr True \<and> flg a') \<or> (\<exists>e. r = Inl e \<and> \<not> flg a')"
  using assms(2,3)
proof (induction n arbitrary: a)
  case 0
  then show ?case by auto
next
  case (Suc n)
  let ?a = "snd (set_pairable pc True a)"
  show ?case
  proof (cases "flg ?a")
    case True
    then show ?thesis using Suc.prems adapter_lawsD(1) [OF assms(1)] by (auto simp: unwrap_or_def)
  next
    case False
    then have "ensure_retry pc n ?a = (r, a')"
      using Suc.prems adapter_lawsD(1) [OF assms(1)] by (simp add: unwrap_or_def)
    with False Suc.IH show ?thesis by blast
  qed
qed

lemma ensure_pairable_outcome:
  assumes "adapter_laws pc flg" and "ensure_pairable pc a = (r, a')"
  shows "(r = Inr (\<not> flg a) \<and> flg a') \<or> (\<exists>e. r = Inl e \<and> \<not> flg a \<and> \<not> flg a')"
proof (cases "flg a")
  case True
  then show ?thesis
    using assms adapter_lawsD(1) [OF assms(1)]
    by (auto simp: ensure_pairable_def ensure_pairable_with_def unwrap_or_def)
next
  case False
  then have "ensure_retry pc ADAPTER_MODE_RETRIES a = (r, a')"
    using assms(2) adapter_lawsD(1) [OF assms(1)]
    by (simp add: ensure_pairable_def ensure_pairable_with_def unwrap_or_def)
  from ensure_retry_outcome [OF assms(1) False this] False show ?thesis by auto
qed

subsection \<open>Properties\<close>



text \<open>A pair session gives the adapter back. With an adapter whose flag reads true to its value and on
  which clearing the flag succeeds, a successful acquisition makes it pairable and holds the agent, the
  release that follows drops the agent and restores the value found, and a failed acquisition holds
  nothing and leaves the value found.\<close>

lemma pair_agent_restores:
  assumes laws: "adapter_laws pc flg" and clear: "\<And>x. fst (set_pairable pc False x) = Inr ()"
    and acq: "acquire_pair_agent_with pc register agent_session_new a = (r, s', a')"
    and rel: "release_pair_agent_with pc s' a' = (s'', a'')"
  shows "(if r = Inr () then is_held s' \<and> flg a' else \<not> is_held s' \<and> flg a' = flg a) \<and>
    \<not> is_held s'' \<and> flg a'' = flg a"
proof -
  obtain q a2 where e: "ensure_pairable pc a = (q, a2)" by force
  have reset: "\<not> flg (snd (set_pairable pc False x))" for x
    using adapter_lawsD(2) [OF laws] clear by blast
  note out = ensure_pairable_outcome [OF laws e]
  have acq': "acquire_pair_agent_with pc register agent_session_new a =
      (case q of Inl err \<Rightarrow> (Inl err, agent_session_new, a2)
       | Inr changed \<Rightarrow> (case register of
           Inl err \<Rightarrow> (Inl (P_Backend (''register_agent: '' @ err)), agent_session_new,
                       if changed then snd (set_pairable pc (flg a) a2) else a2)
         | Inr h \<Rightarrow> (Inr (), agent_begin agent_session_new h (from_pairable changed (flg a)), a2)))"
    using e adapter_lawsD(1) [OF laws]
    by (simp add: acquire_pair_agent_with_def is_held_def agent_session_new_def unwrap_or_def split: sum.splits)
  show ?thesis
  proof (cases q)
    case (Inl err)
    with out acq acq' rel show ?thesis
      by (auto simp: is_held_def agent_session_new_def release_pair_agent_with_def agent_end_def)
  next
    case (Inr changed)
    with out have c: "changed = (\<not> flg a)" "flg a2" by auto
    show ?thesis
    proof (cases register)
      case err: (Inl x)
      have "s' = agent_session_new" "a' = (if changed then snd (set_pairable pc (flg a) a2) else a2)" "r \<noteq> Inr ()"
        using acq acq' Inr err by auto
      then show ?thesis
        using c reset rel by (cases "flg a")
          (auto simp: is_held_def agent_session_new_def release_pair_agent_with_def agent_end_def)
    next
      case ok: (Inr h)
      have "s' = agent_begin agent_session_new h (from_pairable changed (flg a))" "a' = a2" "r = Inr ()"
        using acq acq' Inr ok by auto
      then show ?thesis
        using c reset rel by (cases "flg a")
          (auto simp: is_held_def agent_begin_def agent_session_new_def from_pairable_def
            release_pair_agent_with_def agent_end_def)
    qed
  qed
qed

definition plain_adapter :: "bool pairable_control" where
  "plain_adapter = \<lparr>pairable = (\<lambda>a. (Inr a, a)), set_pairable = (\<lambda>v a. (Inr (), v))\<rparr>"

lemma pair_agent_restores_witness:
  "case acquire_pair_agent_with plain_adapter (Inr ()) agent_session_new False of (r, s', a') \<Rightarrow>
     r = Inr () \<and> a' \<and> \<not> snd (release_pair_agent_with plain_adapter s' a')"
proof -
  have l: "adapter_laws plain_adapter id" by (simp add: adapter_laws_def plain_adapter_def)
  have c: "\<And>x. fst (set_pairable plain_adapter False x) = Inr ()" by (simp add: plain_adapter_def)
  obtain s' :: "unit pair_agent_session" and a' where
    a: "acquire_pair_agent_with plain_adapter (Inr ()) agent_session_new False = (Inr (), s', a')"
    by (simp add: acquire_pair_agent_with_def plain_adapter_def is_held_def agent_session_new_def ensure_pairable_def
        ensure_pairable_with_def ADAPTER_MODE_RETRIES_def unwrap_or_def numeral_eq_Suc)
  obtain s'' a'' where r: "release_pair_agent_with plain_adapter s' a' = (s'', a'')" by force
  from pair_agent_restores [OF l c a r] a r show ?thesis by simp
qed

text \<open>A read that fails after the flag was set: the acquisition fails and the adapter stays pairable.\<close>

definition unreadable_adapter :: "bool pairable_control" where
  "unreadable_adapter = \<lparr>pairable = (\<lambda>a. (Inl ''busy'', a)), set_pairable = (\<lambda>v a. (Inr (), v))\<rparr>"

lemma failed_acquisition_leaves_pairable:
  "\<exists>e. acquire_pair_agent_with unreadable_adapter (Inr ()) agent_session_new False = (Inl e, agent_session_new, True)"
  by (simp add: acquire_pair_agent_with_def unreadable_adapter_def is_held_def agent_session_new_def ensure_pairable_def
      ensure_pairable_with_def ADAPTER_MODE_RETRIES_def unwrap_or_def numeral_eq_Suc)

text \<open>What BlueZ serves. The peripheral starts with the pair service alone; after every successful
  \<open>add_peer\<close> the registered application is the service of the peer just added and nothing else, although
  the peers added before are still in the map; after every successful \<open>remove_peer\<close> nothing is registered.\<close>

lemma registered_services:
  "(peripheral_start serve adv = (Inr (), p0) \<longrightarrow> pp_app p0 = Some [Svc_Pair]) \<and>
   (pp_add_peer cr pid k p = (Inr (), p1) \<longrightarrow> pp_app p1 = Some [Svc_Peer (peer_service_uuid cr k) peer_characteristics] \<and>
      dom (pp_peers p1) = insert pid (dom (pp_peers p))) \<and>
   (pp_remove_peer pid p = (Inr (), p2) \<longrightarrow> pp_app p2 = None \<and> dom (pp_peers p2) = dom (pp_peers p) - {pid})"
proof (intro conjI impI)
  assume "peripheral_start serve adv = (Inr (), p0)"
  then show "pp_app p0 = Some [Svc_Pair]"
    by (auto simp: peripheral_start_def rebuild_application_def serve_gatt_application_def split: list.splits sum.splits)
next
  assume a: "pp_add_peer cr pid k p = (Inr (), p1)"
  show "pp_app p1 = Some [Svc_Peer (peer_service_uuid cr k) peer_characteristics]"
    using a by (auto simp: pp_add_peer_def build_and_register_peer_def serve_gatt_application_def
        split: if_splits list.splits sum.splits)
  show "dom (pp_peers p1) = insert pid (dom (pp_peers p))"
    using a by (auto simp: pp_add_peer_def build_and_register_peer_def serve_gatt_application_def
        split: if_splits list.splits sum.splits)
next
  assume "pp_remove_peer pid p = (Inr (), p2)"
  then show "pp_app p2 = None" "dom (pp_peers p2) = dom (pp_peers p) - {pid}"
    by (auto simp: pp_remove_peer_def split: if_splits)
qed

lemma registered_services_witness:
  "\<exists>p1 p2. pp_add_peer padding_crypto ''a'' [1] (snd (peripheral_start [] [])) = (Inr (), p1) \<and>
     pp_add_peer padding_crypto ''b'' [2] p1 = (Inr (), p2) \<and>
     pp_app p2 = Some [Svc_Peer (peer_service_uuid padding_crypto [2]) peer_characteristics] \<and> {''a'', ''b''} \<subseteq> dom (pp_peers p2)"
proof -
  obtain p1 where p1: "pp_add_peer padding_crypto ''a'' [1] (snd (peripheral_start [] [])) = (Inr (), p1)"
    and d1: "pp_peers p1 ''b'' = None" "pp_serve p1 = []"
    by (simp add: pp_add_peer_def build_and_register_peer_def serve_gatt_application_def peripheral_start_def
        rebuild_application_def)
  obtain p2 where p2: "pp_add_peer padding_crypto ''b'' [2] p1 = (Inr (), p2)"
    using d1 by (simp add: pp_add_peer_def build_and_register_peer_def serve_gatt_application_def)
  have "''a'' \<in> dom (pp_peers p1)"
    using registered_services [where pid = "''a''"] p1 by blast
  moreover have "pp_app p2 = Some [Svc_Peer (peer_service_uuid padding_crypto [2]) peer_characteristics]"
    "dom (pp_peers p2) = insert ''b'' (dom (pp_peers p1))"
    using registered_services [where pid = "''b''"] p2 by blast+
  ultimately show ?thesis using p1 p2 by auto
qed

text \<open>C35: a challenge is written out in full at most once, and exactly when the call succeeds; an earlier response
  never answers it, since the peer's buffer is empty once the challenge is out.\<close>

theorem challenge_delivered_once:
  assumes "pp_notify_challenge cr dl pid fb p = (r, sent, p')"
  shows "(r = Inr () \<longleftrightarrow> sent = [fb]) \<and> (r \<noteq> Inr () \<longrightarrow> sent = []) \<and>
    (r = Inr () \<longrightarrow> (\<exists>cs. pp_peers p' pid = Some cs \<and> pc_responses cs = [] \<and> pc_notifier cs))"
proof -
  have retry: "(r = Inr () \<longleftrightarrow> sent = [fb]) \<and> (r \<noteq> Inr () \<longrightarrow> sent = []) \<and>
      (r = Inr () \<longrightarrow> (\<exists>cs. pp_peers p' pid = Some cs \<and> pc_responses cs = [] \<and> pc_notifier cs))"
    if "notify_retry cr dl pid fb q = (r, sent, p')" for q
    using that
    by (auto simp: notify_retry_def rebuild_peer_registration_def build_and_register_peer_def
        serve_gatt_application_def with_peer_def Let_def split: option.splits if_splits sum.splits list.splits)
  show ?thesis
  proof (cases "pp_peers p pid")
    case None
    then show ?thesis using assms by (auto simp: pp_notify_challenge_def)
  next
    case (Some cs)
    show ?thesis
    proof (cases "pc_notifier cs \<and> dl_first_write dl = Inr ()")
      case True
      then show ?thesis using assms Some by (auto simp: pp_notify_challenge_def with_peer_def Let_def)
    next
      case False
      then obtain q where "notify_retry cr dl pid fb q = (r, sent, p')"
        using assms Some by (auto simp: pp_notify_challenge_def Let_def split: if_splits sum.splits)
      from retry [OF this] show ?thesis .
    qed
  qed
qed

theorem challenge_delivered_once_witness:
  "\<exists>p'. pp_notify_challenge padding_crypto \<lparr>dl_first_write = Inl ''dead'', dl_resubscribes = True, dl_second_write = Some (Inr ())\<rparr>
     ''a'' [9] (snd (pp_add_peer padding_crypto ''a'' [1] (snd (peripheral_start [] [])))) = (Inr (), [[9]], p')"
proof -
  let ?dl = "\<lparr>dl_first_write = Inl ''dead'', dl_resubscribes = True, dl_second_write = Some (Inr ())\<rparr>"
  obtain sent p' where n: "pp_notify_challenge padding_crypto ?dl ''a'' [9]
      (snd (pp_add_peer padding_crypto ''a'' [1] (snd (peripheral_start [] [])))) = (Inr (), sent, p')"
    by (simp add: pp_notify_challenge_def notify_retry_def rebuild_peer_registration_def pp_add_peer_def
        build_and_register_peer_def serve_gatt_application_def peripheral_start_def rebuild_application_def
        with_peer_def Let_def)
  from challenge_delivered_once [OF n] n show ?thesis by auto
qed

end
