(* ===== verification/Mobile.thy ===== *)
theory Mobile
  imports Transport_Link Bond_Store
begin

section \<open>The phone's library\<close>

text \<open>
  \<open>syauth-mobile/src/implementation.rs\<close>: what the Android app calls through UniFFI. The pairing
  transaction crosses that boundary as serialised bytes, so every call restores, steps and serialises.
  \<open>hex::decode\<close>, the foreign signer and the random source are parameters.
\<close>

definition INVITE_URI_SCHEME :: string where "INVITE_URI_SCHEME = ''syauth://''"
definition INVITE_URI_HOST_PATH :: string where "INVITE_URI_HOST_PATH = ''invite?''"
definition INVITE_QUERY_KEY_HOST :: string where "INVITE_QUERY_KEY_HOST = ''host''"
definition INVITE_QUERY_KEY_PUBKEY :: string where "INVITE_QUERY_KEY_PUBKEY = ''pubkey''"
definition INVITE_PUBKEY_LEN :: nat where [wire_consts]: "INVITE_PUBKEY_LEN = 32"
definition ED25519_SECRET_KEY_LEN :: nat where [wire_consts]: "ED25519_SECRET_KEY_LEN = 32"
definition MOBILE_BOND_KEY_LEN :: nat where [wire_consts]: "MOBILE_BOND_KEY_LEN = BOND_KEY_BYTES"
definition ED25519_SIGNATURE_LEN :: nat where [wire_consts]: "ED25519_SIGNATURE_LEN = 64"
definition MOBILE_HKDF_INFO_OOB_V1 :: bytes where "MOBILE_HKDF_INFO_OOB_V1 = string_bytes ''syauth-oob-v1''"
definition MOBILE_OOB_CODE_DIGITS :: nat where "MOBILE_OOB_CODE_DIGITS = 8"
definition MOBILE_OOB_CODE_SPACE :: u32 where "MOBILE_OOB_CODE_SPACE = 100000000"
definition OOB_CODE_BYTES :: nat where "OOB_CODE_BYTES = 4"
definition MOBILE_HKDF_INFO_SESSION_V1 :: bytes where
  "MOBILE_HKDF_INFO_SESSION_V1 = string_bytes ''syauth-session-v1''"
definition SESSION_UUID_BYTES_MOBILE :: nat where "SESSION_UUID_BYTES_MOBILE = 16"

record invite =
  inv_host_name :: string
  inv_host_pubkey :: bytes

datatype mobile_error =
    InvalidInvite string
  | InvalidKey string
  | M_BadFrame string
  | VerifyFailed string
  | SignFailed string

subsection \<open>Rendered errors\<close>

primrec frame_error_display :: "frame_error \<Rightarrow> string" where
  "frame_error_display (TooShort needed got) =
     ''frame too short: needed '' @ dec_string needed @ '' bytes, got '' @ dec_string got"
| "frame_error_display (BadVersion v) = ''unsupported wire-format version: 0x'' @ hex_byte v"
| "frame_error_display BadLength = ''frame payload exceeds maximum length''"

primrec transaction_error_display :: "transaction_error \<Rightarrow> string" where
  "transaction_error_display Incompatible = ''incompatible pairing protocol''"
| "transaction_error_display WrongTransaction = ''different pairing transaction''"
| "transaction_error_display InvalidTransition = ''invalid pairing transition''"

subsection \<open>Invites\<close>

text \<open>\<open>splitn(2, '=')\<close> with the missing second piece read as the empty string.\<close>

definition split_pair :: "string \<Rightarrow> string \<times> string" where
  "split_pair s = (takeWhile (\<lambda>c. c \<noteq> CHR ''='') s, drop 1 (dropWhile (\<lambda>c. c \<noteq> CHR ''='') s))"

fun invite_query ::
    "string list \<Rightarrow> string option \<times> string option \<Rightarrow> (mobile_error, string option \<times> string option) result" where
  "invite_query [] acc = Inr acc"
| "invite_query (p # ps) acc =
     (if p = [] then invite_query ps acc
      else case split_pair p of (k, v) \<Rightarrow>
        if k = INVITE_QUERY_KEY_HOST then
          if v = [] then Inl (InvalidInvite (''query key '' @ [CHR 0x27] @ INVITE_QUERY_KEY_HOST @ [CHR 0x27] @ '' has empty value''))
          else invite_query ps (Some v, snd acc)
        else if k = INVITE_QUERY_KEY_PUBKEY then invite_query ps (fst acc, Some v)
        else invite_query ps acc)"

definition missing_key :: "string \<Rightarrow> mobile_error" where
  "missing_key k = InvalidInvite (''missing required query key '' @ [CHR 0x27] @ k @ [CHR 0x27])"

definition parse_invite_uri :: "(string \<Rightarrow> bytes option) \<Rightarrow> string \<Rightarrow> (mobile_error, invite) result" where
  "parse_invite_uri hex_decode uri =
     result_bind (ok_or (InvalidInvite (''missing scheme prefix '' @ INVITE_URI_SCHEME))
         (strip_prefix INVITE_URI_SCHEME uri)) (\<lambda>after_scheme.
     result_bind (ok_or (InvalidInvite (''missing path segment '' @ [CHR 0x27] @ INVITE_URI_HOST_PATH @ [CHR 0x27]))
         (strip_prefix INVITE_URI_HOST_PATH after_scheme)) (\<lambda>query.
     result_bind (invite_query (split_on CHR ''&'' query) (None, None)) (\<lambda>(host, key).
     result_bind (ok_or (missing_key INVITE_QUERY_KEY_HOST) host) (\<lambda>host_name.
     result_bind (ok_or (missing_key INVITE_QUERY_KEY_PUBKEY) key) (\<lambda>host_pubkey_hex.
     result_bind (ok_or (InvalidInvite (''query key '' @ [CHR 0x27] @ INVITE_QUERY_KEY_PUBKEY @ [CHR 0x27] @
         '' is not lowercase hex'')) (hex_decode host_pubkey_hex)) (\<lambda>host_pubkey.
       if length host_pubkey \<noteq> INVITE_PUBKEY_LEN
       then Inl (InvalidInvite (''query key '' @ [CHR 0x27] @ INVITE_QUERY_KEY_PUBKEY @ [CHR 0x27] @
         '' must decode to '' @ dec_string INVITE_PUBKEY_LEN @ '' bytes, got '' @ dec_string (length host_pubkey)))
       else Inr \<lparr>inv_host_name = host_name, inv_host_pubkey = host_pubkey\<rparr>))))))"

subsection \<open>Challenge and response\<close>

definition bond_key_array :: "bytes \<Rightarrow> (mobile_error, bytes) result" where
  "bond_key_array k =
     (if length k \<noteq> MOBILE_BOND_KEY_LEN
      then Inl (InvalidKey (''bond_key must be '' @ dec_string MOBILE_BOND_KEY_LEN @ '' bytes, got '' @ dec_string (length k)))
      else Inr k)"

definition bad_frame :: "string \<Rightarrow> (frame_error, 'a) result \<Rightarrow> (mobile_error, 'a) result" where
  "bad_frame what r = result_map_err (\<lambda>e. M_BadFrame (what @ frame_error_display e)) r"

definition verify_challenge_frame :: "crypto \<Rightarrow> bytes \<Rightarrow> bytes \<Rightarrow> (mobile_error, bytes) result" where
  "verify_challenge_frame cr bond_key frame_bytes =
     result_bind (bond_key_array bond_key) (\<lambda>k.
     result_bind (bad_frame ''frame decode failed: '' (frame_decode frame_bytes)) (\<lambda>f.
     result_bind (bad_frame ''frame body encode failed: '' (frame_body_bytes f)) (\<lambda>body.
       if \<not> verify_tag cr k body (fr_tag f)
       then Inl (VerifyFailed ''frame MAC tag did not verify under the supplied bond key'')
       else Inr (fr_payload f))))"

definition sign_challenge_response :: "crypto \<Rightarrow> bytes \<Rightarrow> bytes \<Rightarrow> (mobile_error, bytes) result" where
  "sign_challenge_response cr signing_key frame_bytes =
     (if length signing_key \<noteq> ED25519_SECRET_KEY_LEN
      then Inl (InvalidKey (''signing_key must be '' @ dec_string ED25519_SECRET_KEY_LEN @ '' bytes, got '' @
        dec_string (length signing_key)))
      else
        result_bind (bad_frame ''frame decode failed: '' (frame_decode frame_bytes)) (\<lambda>f.
          result_map_err (\<lambda>e. SignFailed (''ed25519 sign failed: '' @ frame_error_display e))
            (sign_frame cr signing_key f)))"

text \<open>\<open>signer\<close> is the foreign callback; \<open>nonce\<close> the sixteen bytes drawn from the system.\<close>

definition build_response_frame ::
    "crypto \<Rightarrow> bytes \<Rightarrow> (bytes \<Rightarrow> bytes) \<Rightarrow> bytes \<Rightarrow> bytes \<Rightarrow> (mobile_error, bytes) result" where
  "build_response_frame cr bond_key signer nonce challenge_frame_bytes =
     result_bind (bond_key_array bond_key) (\<lambda>k.
     result_bind (bad_frame ''challenge decode failed: '' (frame_decode challenge_frame_bytes)) (\<lambda>challenge.
     result_bind (bad_frame ''challenge body encode failed: '' (frame_body_bytes challenge)) (\<lambda>unsigned_body.
       let sig_bytes = signer unsigned_body in
       if length sig_bytes \<noteq> ED25519_SIGNATURE_LEN
       then Inl (SignFailed (''foreign signer returned '' @ dec_string (length sig_bytes) @ '' bytes, expected '' @
         dec_string ED25519_SIGNATURE_LEN))
       else
         let body = [SYAUTH_WIRE_VERSION_V1] @ nonce @ sig_bytes;
             response = \<lparr>fr_version = SYAUTH_WIRE_VERSION_V1, fr_nonce = nonce, fr_payload = sig_bytes,
                         fr_tag = compute_tag cr k body\<rparr>
         in case frame_encode response [] of (r, out) \<Rightarrow>
              result_bind (result_map_err (\<lambda>e. SignFailed (''response frame encode failed: '' @ frame_error_display e)) r)
                (\<lambda>_. Inr out))))"

subsection \<open>Derivations\<close>

definition hkdf_failed :: mobile_error where
  "hkdf_failed = InvalidKey ''hkdf expand failed (unreachable in production)''"

definition mobile_oob_code_for_bond :: "crypto \<Rightarrow> bytes \<Rightarrow> (mobile_error, string) result" where
  "mobile_oob_code_for_bond cr bond_key =
     result_bind (bond_key_array bond_key) (\<lambda>k.
     result_bind (ok_or hkdf_failed (hkdf_sha256 cr k MOBILE_HKDF_INFO_OOB_V1 OOB_CODE_BYTES)) (\<lambda>out.
       Inr (pad_left MOBILE_OOB_CODE_DIGITS (dec_string (unat (u32_from_be out mod MOBILE_OOB_CODE_SPACE))))))"

definition session_uuid_for_bond :: "crypto \<Rightarrow> bytes \<Rightarrow> i64 \<Rightarrow> (mobile_error, bytes) result" where
  "session_uuid_for_bond cr bond_key minute =
     result_bind (bond_key_array bond_key) (\<lambda>k.
       ok_or hkdf_failed (hkdf_sha256 cr k (MOBILE_HKDF_INFO_SESSION_V1 @ u64_to_be minute) SESSION_UUID_BYTES_MOBILE))"

definition mobile_peer_id_from_pubkey :: "crypto \<Rightarrow> bytes \<Rightarrow> (mobile_error, string) result" where
  "mobile_peer_id_from_pubkey cr pubkey =
     (if length pubkey \<noteq> PUBKEY_LEN
      then Inl (InvalidKey (''pubkey must be '' @ dec_string PUBKEY_LEN @ '' bytes, got '' @ dec_string (length pubkey)))
      else Inr (peer_id_from_pubkey cr pubkey))"

subsection \<open>The transaction across the boundary\<close>

definition bad_tx :: "(transaction_error, 'a) result \<Rightarrow> (mobile_error, 'a) result" where
  "bad_tx r = result_map_err (\<lambda>e. M_BadFrame (transaction_error_display e)) r"

definition pair_transaction_create :: "bytes \<Rightarrow> byte \<Rightarrow> (mobile_error, bytes) result" where
  "pair_transaction_create transaction_id r =
     (if length transaction_id \<noteq> 16 then Inl (InvalidKey ''transaction id must be 16 bytes'')
      else if r = 0 then Inr (tx_serialize (tx_new transaction_id Coordinator))
      else if r = 1 then Inr (tx_serialize (tx_new transaction_id Participant))
      else Inl (InvalidKey ''invalid transaction role''))"

definition local_event_of_code :: "byte \<Rightarrow> local_event option" where
  "local_event_of_code c =
     map_of [(0, Ev_Capability), (1, Ev_VerifiedExchange), (2, Ev_Confirm), (3, Ev_Prepared), (4, Ev_Commit),
             (5, Ev_CommitAck), (6, Ev_Committed), (7, Ev_Disconnected), (8, Ev_Abort Op_Reject),
             (9, Ev_Abort Op_Cancel), (10, Ev_Abort Op_Timeout), (11, Ev_Abort Op_Error)] c"

text \<open>A step that fails returns its error; the stepped state is serialised only on success.\<close>

definition serialize_step :: "'a tx_outcome \<Rightarrow> (mobile_error, bytes) result" where
  "serialize_step o' = result_bind (bad_tx (fst o')) (\<lambda>_. Inr (tx_serialize (snd o')))"

definition pair_transaction_apply_local :: "bytes \<Rightarrow> byte \<Rightarrow> (mobile_error, bytes) result" where
  "pair_transaction_apply_local state event =
     result_bind (bad_tx (tx_restore state)) (\<lambda>tx.
     result_bind (ok_or (M_BadFrame ''invalid local transaction event'') (local_event_of_code event)) (\<lambda>e.
       serialize_step (tx_local tx e)))"

definition pair_transaction_apply_remote :: "bytes \<Rightarrow> bytes \<Rightarrow> (mobile_error, bytes) result" where
  "pair_transaction_apply_remote state msg =
     result_bind (bad_tx (tx_restore state)) (\<lambda>tx.
     result_bind (bad_tx (message_decode msg)) (\<lambda>m. serialize_step (tx_remote tx m)))"

definition pair_transaction_restore :: "bytes \<Rightarrow> (mobile_error, bytes) result" where
  "pair_transaction_restore state = result_bind (bad_tx (tx_restore state)) (\<lambda>tx. Inr (tx_serialize tx))"

text \<open>\<open>nonce < 0\<close> is the sign bit of the \<open>i64\<close>; \<open>nonce as u64\<close> keeps the bits.\<close>

definition pair_transaction_status_query :: "bytes \<Rightarrow> i64 \<Rightarrow> (mobile_error, bytes) result" where
  "pair_transaction_status_query transaction_id nonce =
     (if length transaction_id \<noteq> 16 \<or> sint nonce < 0 then Inl (InvalidKey ''invalid status query'')
      else Inr (status_encode (status_query transaction_id nonce)))"

definition pair_transaction_apply_status :: "bytes \<Rightarrow> bytes \<Rightarrow> i64 \<Rightarrow> (mobile_error, bytes) result" where
  "pair_transaction_apply_status state response nonce =
     (if sint nonce < 0 then Inl (InvalidKey ''invalid status nonce'')
      else
        result_bind (bad_tx (tx_restore state)) (\<lambda>tx.
        result_bind (bad_tx (status_decode response)) (\<lambda>r.
          if sm_state r = None then Inl (M_BadFrame ''status query is not a response'')
          else serialize_step (apply_status_response tx r nonce))))"

fun mobile_phase_code :: "phase \<Rightarrow> byte" where
  "mobile_phase_code Negotiating = 0"
| "mobile_phase_code OobPending = 1"
| "mobile_phase_code Preparing = 2"
| "mobile_phase_code Prepared = 3"
| "mobile_phase_code CommitPending = 4"
| "mobile_phase_code Committed = 5"
| "mobile_phase_code Bonded = 6"
| "mobile_phase_code (Aborted _) = 7"
| "mobile_phase_code Uncertain = 8"

definition pair_transaction_phase :: "bytes \<Rightarrow> (mobile_error, byte) result" where
  "pair_transaction_phase state = result_bind (bad_tx (tx_restore state)) (\<lambda>tx. Inr (mobile_phase_code (tx_phase tx)))"

subsection \<open>Calls of the app in sequence\<close>

datatype mobile_call =
    Call_Local byte
  | Call_Remote bytes
  | Call_Status bytes i64

primrec mobile_do :: "bytes \<Rightarrow> mobile_call \<Rightarrow> (mobile_error, bytes) result" where
  "mobile_do s (Call_Local e) = pair_transaction_apply_local s e"
| "mobile_do s (Call_Remote m) = pair_transaction_apply_remote s m"
| "mobile_do s (Call_Status r n) = pair_transaction_apply_status s r n"

primrec mobile_run :: "bytes \<Rightarrow> mobile_call list \<Rightarrow> (mobile_error, bytes) result" where
  "mobile_run s [] = Inr s"
| "mobile_run s (c # cs) = result_bind (mobile_do s c) (\<lambda>s'. mobile_run s' cs)"

text \<open>The event of the transaction a call stands for.\<close>

primrec call_event :: "mobile_call \<Rightarrow> tx_event option" where
  "call_event (Call_Local e) = map_option Local (local_event_of_code e)"
| "call_event (Call_Remote m) = map_option Remote (result_ok (message_decode m))"
| "call_event (Call_Status r n) = map_option (\<lambda>m. Response m n) (result_ok (status_decode r))"

subsection \<open>Lemmas\<close>

lemma bad_tx_Inr_iff [simp]: "bad_tx r = Inr x \<longleftrightarrow> r = Inr x"
  by (simp add: bad_tx_def)

lemma bad_frame_Inr [simp]: "bad_frame what (Inr x) = Inr x"
  by (simp add: bad_frame_def)

lemma serialize_step_InrD: "serialize_step out = Inr s \<Longrightarrow> s = tx_serialize (snd out)"
  by (auto simp: serialize_step_def result_bind_Inr_iff)

lemma restore_serialized: "tx_typed t \<Longrightarrow> tx_restore (tx_serialize t) = Inr t' \<Longrightarrow> t' = t"
  by (auto simp: tx_restore_serialize result_bind_Inr_iff split: if_splits)

lemma mobile_do_steps:
  assumes "tx_typed t" "mobile_do (tx_serialize t) c = Inr s"
  shows "\<exists>e. call_event c = Some e \<and> s = tx_serialize (tx_step t e)"
proof (cases c)
  case (Call_Local x)
  with assms obtain e where e: "local_event_of_code x = Some e" "serialize_step (tx_local t e) = Inr s"
    by (auto simp: pair_transaction_apply_local_def result_bind_Inr_iff dest: restore_serialized)
  with serialize_step_InrD [OF e(2)] Call_Local show ?thesis by auto
next
  case (Call_Remote x)
  with assms obtain m where m: "message_decode x = Inr m" "serialize_step (tx_remote t m) = Inr s"
    by (auto simp: pair_transaction_apply_remote_def result_bind_Inr_iff dest: restore_serialized)
  with serialize_step_InrD [OF m(2)] Call_Remote show ?thesis by auto
next
  case (Call_Status x n)
  with assms obtain m where m: "status_decode x = Inr m" "serialize_step (apply_status_response t m n) = Inr s"
    by (auto simp: pair_transaction_apply_status_def result_bind_Inr_iff dest: restore_serialized split: if_splits)
  with serialize_step_InrD [OF m(2)] Call_Status show ?thesis by auto
qed

lemma mobile_run_steps:
  "tx_typed t \<Longrightarrow> mobile_run (tx_serialize t) cs = Inr s \<Longrightarrow>
   \<exists>es. map call_event cs = map Some es \<and> s = tx_serialize (tx_run t es)"
proof (induction cs arbitrary: t)
  case Nil
  then show ?case by (auto simp: tx_run_def)
next
  case (Cons c cs)
  then obtain s1 where s1: "mobile_do (tx_serialize t) c = Inr s1" "mobile_run s1 cs = Inr s"
    by (auto simp: result_bind_Inr_iff)
  from mobile_do_steps [OF Cons.prems(1) s1(1)] obtain e where
    e: "call_event c = Some e" "s1 = tx_serialize (tx_step t e)" by blast
  have "tx_typed (tx_step t e)" using Cons.prems(1) by (simp add: tx_typed_def)
  with Cons.IH s1(2) e(2) obtain es where
    "map call_event cs = map Some es" "s = tx_serialize (tx_run (tx_step t e) es)" by blast
  with e(1) have "map call_event (c # cs) = map Some (e # es) \<and> s = tx_serialize (tx_run t (e # es))"
    by (simp add: tx_run_def)
  then show ?case by blast
qed

lemma length_compute_tag: "crypto_laws cr \<Longrightarrow> length (compute_tag cr k b) = 16"
  by (simp add: compute_tag_def wire_consts crypto_lawsD)

lemma verify_computed_tag: "crypto_laws cr \<Longrightarrow> verify_tag cr k b (compute_tag cr k b)"
  by (simp add: verify_tag_def crypto_lawsD)

subsection \<open>Properties\<close>

text \<open>C22: whatever sequence of calls the app makes on the bytes it stores, the bytes it ends with are
  the serialisation of a run of the verified transaction on the events those calls stand for; the
  byte-level interface adds no behaviour to the state machine.\<close>

theorem mobile_refines_transaction:
  assumes "pair_transaction_create i r = Inr s0" and "mobile_run s0 cs = Inr s"
  shows "\<exists>es. map call_event cs = map Some es \<and>
    s = tx_serialize (tx_run (tx_new i (if r = 0 then Coordinator else Participant)) es)"
proof -
  have "length i = 16" and s0: "s0 = tx_serialize (tx_new i (if r = 0 then Coordinator else Participant))"
    using assms(1) by (auto simp: pair_transaction_create_def split: if_splits)
  then have "tx_typed (tx_new i (if r = 0 then Coordinator else Participant))"
    by (simp add: tx_typed_def tx_new_def)
  from mobile_run_steps [OF this] assms(2) s0 show ?thesis by simp
qed

theorem mobile_refines_transaction_witness:
  "\<exists>s es. mobile_run (tx_serialize (tx_new (replicate 16 7) Participant))
       [Call_Remote (message_encode \<lparr>msg_transaction = replicate 16 7, msg_operation = Op_Capability\<rparr>), Call_Local 0] = Inr s \<and>
     s = tx_serialize (tx_run (tx_new (replicate 16 7) Participant) es) \<and> length es = 2"
proof -
  let ?cs = "[Call_Remote (message_encode \<lparr>msg_transaction = replicate 16 7, msg_operation = Op_Capability\<rparr>), Call_Local 0]"
  have c: "pair_transaction_create (replicate 16 7) 1 = Inr (tx_serialize (tx_new (replicate 16 7) Participant))"
    by (simp add: pair_transaction_create_def)
  have "is_ok (mobile_run (tx_serialize (tx_new (replicate 16 7) Participant)) ?cs)"
    by code_simp
  then obtain s where s: "mobile_run (tx_serialize (tx_new (replicate 16 7) Participant)) ?cs = Inr s"
    unfolding is_ok_iff by blast
  obtain es where "map call_event ?cs = map Some es"
    "s = tx_serialize (tx_run (tx_new (replicate 16 7) (if (1 :: byte) = 0 then Coordinator else Participant)) es)"
    using mobile_refines_transaction [OF c s] by blast
  moreover from this(1) have "length es = 2" by (metis length_map length_Cons list.size(3) numeral_2_eq_2)
  ultimately show ?thesis using s by auto
qed

text \<open>C27: the challenge and response round trip. For a challenge the desktop tags under the bond key,
  the phone accepts it and returns its payload; with a signer for the bonded key its response decodes,
  verifies under the bond key, and carries a signature the desktop's \<open>verify_frame\<close> accepts for the
  challenge it sent.\<close>

theorem challenge_response_round_trip:
  assumes "crypto_laws cr" and "length k = 32" and "length n = 16" and "length n' = 16"
    and "length payload \<le> MAX_PAYLOAD_LEN"
    and challenge: "ch = \<lparr>fr_version = SYAUTH_WIRE_VERSION_V1, fr_nonce = n, fr_payload = payload,
           fr_tag = compute_tag cr k ([SYAUTH_WIRE_VERSION_V1] @ n @ payload)\<rparr>"
    and sent: "frame_encode ch [] = (Inr (), wire)"
  shows "verify_challenge_frame cr k wire = Inr payload \<and>
    (\<exists>out f body. build_response_frame cr k (ed_sign cr sk) n' wire = Inr out \<and>
       frame_decode out = Inr f \<and> fr_nonce f = n' \<and>
       frame_body_bytes f = Inr body \<and> verify_tag cr k body (fr_tag f) \<and>
       verify_frame cr (ed_public cr sk) ch (fr_payload f) = Inr ())"
proof -
  let ?b = "[1] @ n @ payload"
  let ?sig = "ed_sign cr sk ?b"
  let ?r = "[1] @ n' @ ?sig"
  have w: "wire = [1] @ n @ payload @ compute_tag cr k ?b"
    using sent assms(5) by (simp add: challenge frame_encode_def wire_consts)
  have dec: "frame_decode wire = Inr ch"
    using frame_decode_layout [of n "compute_tag cr k ?b" payload] assms(1,3,5)
    by (simp add: w challenge length_compute_tag wire_consts)
  have body: "frame_body_bytes ch = Inr ?b"
    using assms(5) by (simp add: challenge frame_body_bytes_def wire_consts)
  have tag: "fr_tag ch = compute_tag cr k ?b" "fr_payload ch = payload"
    by (simp_all add: challenge wire_consts)
  have sig: "length ?sig = 64" by (rule crypto_lawsD(4) [OF assms(1)])
  let ?f = "\<lparr>fr_version = 1, fr_nonce = n', fr_payload = ?sig, fr_tag = compute_tag cr k ?r\<rparr>"
  have key: "bond_key_array k = Inr k"
    using assms(2) by (simp add: bond_key_array_def wire_consts)
  have out: "build_response_frame cr k (ed_sign cr sk) n' wire = Inr (?r @ compute_tag cr k ?r)"
    using sig by (simp add: build_response_frame_def key dec body Let_def frame_encode_def wire_consts)
  have decr: "frame_decode (?r @ compute_tag cr k ?r) = Inr ?f"
    using frame_decode_layout [of n' "compute_tag cr k ?r" ?sig] assms(1,4) sig
    by (simp add: length_compute_tag)
  have bodyr: "frame_body_bytes ?f = Inr ?r"
    using sig by (simp add: frame_body_bytes_def wire_consts)
  have "verify_challenge_frame cr k wire = Inr payload"
    using assms(1) tag by (simp add: verify_challenge_frame_def key dec body verify_computed_tag)
  moreover have "verify_frame cr (ed_public cr sk) ch ?sig = Inr ()"
    using crypto_lawsD(8) [OF assms(1)] by (simp add: verify_frame_def body)
  ultimately show ?thesis
    using out decr bodyr verify_computed_tag [OF assms(1), of k ?r] by auto
qed

theorem challenge_response_round_trip_witness:
  "\<exists>wire out. verify_challenge_frame padding_crypto (replicate 32 9) wire = Inr [1, 2, 3] \<and>
     build_response_frame padding_crypto (replicate 32 9) (ed_sign padding_crypto [5]) (replicate 16 4) wire = Inr out"
proof -
  define ch where "ch = \<lparr>fr_version = SYAUTH_WIRE_VERSION_V1, fr_nonce = replicate 16 3, fr_payload = [1, 2, 3],
    fr_tag = compute_tag padding_crypto (replicate 32 9) ([SYAUTH_WIRE_VERSION_V1] @ replicate 16 3 @ [1, 2, 3])\<rparr>"
  obtain wire where "frame_encode ch [] = (Inr (), wire)"
    by (simp add: ch_def frame_encode_def MAX_PAYLOAD_LEN_def)
  from challenge_response_round_trip [OF padding_crypto_laws _ _ _ _ ch_def this, of "replicate 16 4" "[5]"]
  show ?thesis by (auto simp: MAX_PAYLOAD_LEN_def)
qed

text \<open>C37: the two ends derive the same values. For a bond key of 32 bytes and a derivation that
  succeeds, the phone shows the code the desktop shows, and scans for the very session identifier the
  desktop advertises in that minute; a key of any other length is refused by the phone.\<close>

theorem derivations_agree:
  fixes k :: bytes
  shows "(length k = 32 \<and> hkdf_sha256 cr k HKDF_INFO_OOB_V1 4 \<noteq> None \<longrightarrow>
      mobile_oob_code_for_bond cr k = Inr (cli_oob_code_for_bond cr k)) \<and>
   (length k = 32 \<and> hkdf_sha256 cr k (HKDF_INFO_SESSION_V1 @ u64_to_be m) 16 \<noteq> None \<longrightarrow>
      session_uuid_for_bond cr k m = Inr (session_uuid_for cr k m)) \<and>
   (length k \<noteq> 32 \<longrightarrow> \<not> is_ok (mobile_oob_code_for_bond cr k) \<and> \<not> is_ok (session_uuid_for_bond cr k m))"
  by (auto simp: mobile_oob_code_for_bond_def cli_oob_code_for_bond_def session_uuid_for_bond_def
      session_uuid_for_def bond_key_array_def MOBILE_BOND_KEY_LEN_def BOND_KEY_BYTES_def
      MOBILE_HKDF_INFO_OOB_V1_def HKDF_INFO_OOB_V1_def OOB_CODE_BYTES_def OOB_HKDF_BYTES_def
      MOBILE_OOB_CODE_DIGITS_def OOB_CODE_DIGITS_def MOBILE_OOB_CODE_SPACE_def OOB_CODE_SPACE_def
      MOBILE_HKDF_INFO_SESSION_V1_def HKDF_INFO_SESSION_V1_def SESSION_UUID_BYTES_MOBILE_def SESSION_UUID_BYTES_def)

theorem derivations_agree_witness:
  "mobile_oob_code_for_bond padding_crypto (replicate 32 1) = Inr (cli_oob_code_for_bond padding_crypto (replicate 32 1))"
proof -
  have "hkdf_sha256 padding_crypto (replicate 32 1) HKDF_INFO_OOB_V1 4 \<noteq> None"
    by (simp add: padding_crypto_def)
  with derivations_agree [of "replicate 32 1" padding_crypto 0] show ?thesis by simp
qed

lemma split_on_append: "c \<notin> set a \<Longrightarrow> split_on c (a @ c # b) = a # split_on c b"
  by (induction a) auto

lemma split_pair_eq: "CHR ''='' \<notin> set k \<Longrightarrow> split_pair (k @ CHR ''='' # v) = (k, v)"
  by (induction k) (auto simp: split_pair_def)

text \<open>An invite built from a non-empty host name without an ampersand and a 32-byte key parses back
  to that name and key, for every hexadecimal decoder that inverts the encoder on that key.\<close>

lemma invite_round_trip:
  assumes "hex_decode (hex_encode pk) = Some pk" and "length pk = 32"
    and "host \<noteq> []" and "CHR ''&'' \<notin> set host"
  shows "parse_invite_uri hex_decode (''syauth://invite?host='' @ host @ ''&pubkey='' @ hex_encode pk) =
    Inr \<lparr>inv_host_name = host, inv_host_pubkey = pk\<rparr>"
proof -
  have uri: "''syauth://invite?host='' @ host @ ''&pubkey='' @ hex_encode pk =
      INVITE_URI_SCHEME @ INVITE_URI_HOST_PATH @ (''host='' @ host) @ CHR ''&'' # (''pubkey='' @ hex_encode pk)"
    by (simp add: INVITE_URI_SCHEME_def INVITE_URI_HOST_PATH_def)
  have amp: "CHR ''&'' \<notin> set (hex_encode pk)"
    by (rule hex_encode_avoids) simp
  have pieces: "split_on CHR ''&'' ((''host='' @ host) @ CHR ''&'' # (''pubkey='' @ hex_encode pk)) =
      [''host='' @ host, ''pubkey='' @ hex_encode pk]"
    using assms(4) amp split_on_append [of "CHR ''&''" "''host='' @ host"]
      split_on_none [of "CHR ''&''" "''pubkey='' @ hex_encode pk"] by simp
  have pairs: "split_pair (''host='' @ host) = (''host'', host)"
    "split_pair (''pubkey='' @ hex_encode pk) = (''pubkey'', hex_encode pk)"
    using split_pair_eq [of "''host''" host] split_pair_eq [of "''pubkey''" "hex_encode pk"] by simp_all
  have "invite_query [''host='' @ host, ''pubkey='' @ hex_encode pk] (None, None) = Inr (Some host, Some (hex_encode pk))"
    using assms(3) pairs by (simp add: INVITE_QUERY_KEY_HOST_def INVITE_QUERY_KEY_PUBKEY_def)
  then show ?thesis
    unfolding uri parse_invite_uri_def strip_prefix_append ok_or_simps result_bind_simps pieces
    using assms(1,2) by (simp add: INVITE_PUBKEY_LEN_def)
qed

lemma invite_round_trip_witness:
  "parse_invite_uri (\<lambda>s. if s = hex_encode (replicate 32 7) then Some (replicate 32 7) else None)
     (''syauth://invite?host='' @ ''desk=1'' @ ''&pubkey='' @ hex_encode (replicate 32 7)) =
   Inr \<lparr>inv_host_name = ''desk=1'', inv_host_pubkey = replicate 32 7\<rparr>"
  by (rule invite_round_trip) simp_all

end
