(* ===== verification/Orchestrator.thy ===== *)
theory Orchestrator
  imports Peripheral Mobile Rpc "HOL-Library.List_Lexorder" "HOL-Library.Char_ord"
begin

section \<open>The daemon's orchestrator\<close>

text \<open>
  \<open>syauth-presenced/src/orchestrator.rs\<close> and \<open>audit.rs\<close>: the live peers, the challenge transaction, the
  reload of the bonds, the rotation of the advertised identifiers, and the audit trail. The peers are
  the ordered map of the source as a list sorted by identifier. The nonce cache, the semaphore and the
  liveness stamp of a peer are shared: a challenge in flight keeps the ones it looked up even when a
  reload replaces the entry. They live in cells of an explicit store, and an entry holds the index of
  its cell. What the clock, the random source and the client did during one challenge is the record
  \<open>challenge_env\<close>; the order in which a hash set is traversed is a parameter.
\<close>

definition ORCH_SECONDS_PER_MINUTE :: nat where "ORCH_SECONDS_PER_MINUTE = 60"
definition SHORT_UUID_HEX_LEN :: nat where "SHORT_UUID_HEX_LEN = 8"
definition NONCE_BYTES :: nat where "NONCE_BYTES = NONCE_LEN"
definition OUTCOME_REASON_OK :: string where "OUTCOME_REASON_OK = ''ok''"
definition OUTCOME_REASON_DENIED :: string where "OUTCOME_REASON_DENIED = ''denied''"
definition OUTCOME_REASON_REPLAY :: string where "OUTCOME_REASON_REPLAY = ''replay''"
definition OUTCOME_REASON_BAD_SIGNATURE :: string where "OUTCOME_REASON_BAD_SIGNATURE = ''bad-signature''"
definition OUTCOME_REASON_RESPONSE_TIMEOUT :: string where "OUTCOME_REASON_RESPONSE_TIMEOUT = ''response-timeout''"
definition OUTCOME_REASON_UNKNOWN_PEER :: string where "OUTCOME_REASON_UNKNOWN_PEER = ''unknown-peer''"
definition OUTCOME_REASON_TRANSPORT_ERROR :: string where "OUTCOME_REASON_TRANSPORT_ERROR = ''transport-error''"
definition OUTCOME_REASON_BUSY :: string where "OUTCOME_REASON_BUSY = ''busy''"
definition NONCE_LRU_CAP :: nat where "NONCE_LRU_CAP = 64"
definition DAEMON_AUTH_TIMEOUT_MS :: nat where "DAEMON_AUTH_TIMEOUT_MS = 20000"
definition ZERO_NONCE_HEX :: string where "ZERO_NONCE_HEX = ''00000000000000000000000000000000''"
definition PAIR_MODE_ZERO_BOND_KEY :: bytes where "PAIR_MODE_ZERO_BOND_KEY = replicate BOND_KEY_BYTES 0"
definition ORCH_BOND_KEY_FILE_EXT :: string where "ORCH_BOND_KEY_FILE_EXT = ''.bin''"

lemmas outcome_reasons =
  OUTCOME_REASON_OK_def OUTCOME_REASON_DENIED_def OUTCOME_REASON_REPLAY_def OUTCOME_REASON_BAD_SIGNATURE_def
  OUTCOME_REASON_RESPONSE_TIMEOUT_def OUTCOME_REASON_UNKNOWN_PEER_def OUTCOME_REASON_TRANSPORT_ERROR_def
  OUTCOME_REASON_BUSY_def

subsection \<open>The audit log\<close>

definition AUDIT_FSYNC_EVERY :: u64 where "AUDIT_FSYNC_EVERY = 32"
definition AUDIT_FIELD_SEPARATOR :: string where "AUDIT_FIELD_SEPARATOR = '',''"

record audit_record =
  ar_peer_id :: string
  ar_nonce_hex :: string
  ar_t_start_ms :: nat
  ar_t_end_ms :: nat
  ar_outcome :: string
  ar_reason :: string

text \<open>\<open>al_script\<close>: for each coming append, how many bytes reach the file if the write fails, and the
  outcome of the synchronisation; past its end both succeed.\<close>

record audit_log =
  al_content :: string
  al_appended_since_fsync :: u64
  al_script :: "(nat option \<times> (string, unit) result) list"

definition format_record :: "audit_record \<Rightarrow> string" where
  "format_record r =
     ar_peer_id r @ AUDIT_FIELD_SEPARATOR @ ar_nonce_hex r @ AUDIT_FIELD_SEPARATOR @ dec_string (ar_t_start_ms r) @
     AUDIT_FIELD_SEPARATOR @ dec_string (ar_t_end_ms r) @ AUDIT_FIELD_SEPARATOR @ ar_outcome r @
     AUDIT_FIELD_SEPARATOR @ ar_reason r @ [CHR 0x0A]"

definition audit_append :: "audit_log \<Rightarrow> audit_record \<Rightarrow> (string, unit) result \<times> audit_log" where
  "audit_append log r =
     (case (case al_script log of [] \<Rightarrow> ((None, Inr ()), []) | x # xs \<Rightarrow> (x, xs)) of ((wr, sy), rest) \<Rightarrow>
        (case wr of
           Some n \<Rightarrow> (Inl ''write'', log\<lparr>al_content := al_content log @ take n (format_record r), al_script := rest\<rparr>)
         | None \<Rightarrow>
             let n = al_appended_since_fsync log + 1;
                 log' = log\<lparr>al_content := al_content log @ format_record r, al_appended_since_fsync := n, al_script := rest\<rparr>
             in (if n mod AUDIT_FSYNC_EVERY = 0 then sy else Inr (), log')))"

subsection \<open>Nonces, outcomes, time\<close>

type_synonym nonce_cache = "bytes list"

definition cache_contains :: "nonce_cache \<Rightarrow> bytes \<Rightarrow> bool" where
  "cache_contains c n = list_ex (\<lambda>x. x = n) c"

definition cache_insert :: "nonce_cache \<Rightarrow> bytes \<Rightarrow> nonce_cache" where
  "cache_insert c n = (let c' = c @ [n] in if length c' > NONCE_LRU_CAP then drop 1 c' else c')"

datatype challenge_outcome =
    CO_Ok bytes
  | CO_Denied
  | CO_Replay
  | CO_BadSignature
  | CO_TimedOut
  | CO_UnknownPeer
  | CO_Busy
  | CO_TransportError peripheral_error

primrec reason_str :: "challenge_outcome \<Rightarrow> string" where
  "reason_str (CO_Ok s) = OUTCOME_REASON_OK"
| "reason_str CO_Denied = OUTCOME_REASON_DENIED"
| "reason_str CO_Replay = OUTCOME_REASON_REPLAY"
| "reason_str CO_BadSignature = OUTCOME_REASON_BAD_SIGNATURE"
| "reason_str CO_TimedOut = OUTCOME_REASON_RESPONSE_TIMEOUT"
| "reason_str CO_UnknownPeer = OUTCOME_REASON_UNKNOWN_PEER"
| "reason_str CO_Busy = OUTCOME_REASON_BUSY"
| "reason_str (CO_TransportError e) = OUTCOME_REASON_TRANSPORT_ERROR"

definition signature_bytes :: "challenge_outcome \<Rightarrow> bytes option" where
  "signature_bytes oc = (case oc of CO_Ok s \<Rightarrow> Some s | _ \<Rightarrow> None)"

primrec peripheral_error_display :: "peripheral_error \<Rightarrow> string" where
  "peripheral_error_display (P_AdapterMissing name) = ''bluetooth adapter '' @ [CHR 0x27] @ name @ [CHR 0x27] @ '' not found''"
| "peripheral_error_display (P_UnknownPeer pid) = ''unknown peer: peer_id='' @ pid"
| "peripheral_error_display (P_PeerAlreadyAdded pid) = ''peer already added: peer_id='' @ pid"
| "peripheral_error_display (P_Backend reason) = ''peripheral backend error: '' @ reason"
| "peripheral_error_display P_Cancelled = ''challenge cancelled''"
| "peripheral_error_display (P_ResponseTimeout pid ms) =
     ''response timed out: peer_id='' @ pid @ '' deadline='' @ dec_string (unat ms) @ ''ms''"

definition challenge_outcome_for_transport :: "peripheral_error \<Rightarrow> challenge_outcome" where
  "challenge_outcome_for_transport err =
     (case err of
        P_UnknownPeer pid \<Rightarrow> CO_UnknownPeer
      | P_ResponseTimeout pid ms \<Rightarrow> CO_TimedOut
      | other \<Rightarrow> CO_TransportError (P_Backend (peripheral_error_display other)))"

definition parse_signature :: "crypto \<Rightarrow> bytes \<Rightarrow> bytes option" where
  "parse_signature cr bs =
     (if length bs \<noteq> SIGNATURE_LEN then None else if ed_signature_ok cr bs then Some bs else None)"

text \<open>Whole seconds, milliseconds and minutes of a clock reading; a reading before the epoch is clamped
  as each function does.\<close>

definition epoch_secs :: "system_time \<Rightarrow> nat" where
  "epoch_secs t = nat (t div NANOS_PER_SEC)"

definition align_to_next_minute :: "system_time \<Rightarrow> nat" where
  "align_to_next_minute now =
     (if now < 0 then ORCH_SECONDS_PER_MINUTE
      else ORCH_SECONDS_PER_MINUTE - epoch_secs now mod ORCH_SECONDS_PER_MINUTE)"

definition minute_index :: "system_time \<Rightarrow> i64" where
  "minute_index now =
     (if now < 0 then 0
      else let m = epoch_secs now div ORCH_SECONDS_PER_MINUTE
           in if m < 2 ^ 63 then word_of_nat m else 0x7FFFFFFFFFFFFFFF)"

definition epoch_millis :: "system_time \<Rightarrow> nat" where
  "epoch_millis t = (if t < 0 then 0 else nat (t div 1000000))"

definition ms_since :: "system_time \<Rightarrow> system_time option \<Rightarrow> u64 option" where
  "ms_since now t =
     (case t of
        None \<Rightarrow> None
      | Some t \<Rightarrow>
          if now < t then None
          else let ms = nat ((now - t) div 1000000) in Some (if ms < 2 ^ 64 then word_of_nat ms else - 1))"

fun short_hex_loop :: "bytes \<Rightarrow> string \<Rightarrow> string" where
  "short_hex_loop [] acc = acc"
| "short_hex_loop (b # bs) acc =
     (let acc' = acc @ hex_byte b in if length acc' \<ge> SHORT_UUID_HEX_LEN then acc' else short_hex_loop bs acc')"

definition short_hex :: "bytes \<Rightarrow> string" where
  "short_hex uuid = take SHORT_UUID_HEX_LEN (short_hex_loop uuid [])"

subsection \<open>State\<close>

record peer_liveness =
  lv_last_challenge_at :: "system_time option"
  lv_last_connect_at :: "system_time option"

record peer_cell =
  pl_nonce_cache :: nonce_cache
  pl_challenge_slot :: nat
  pl_liveness :: peer_liveness

record peer_entry =
  pe_bond_key :: bytes
  pe_phone_pubkey :: "bytes option"
  pe_cell :: nat

record peer_state =
  st_phone_pubkey :: bytes
  st_bond_key :: bytes
  st_cell :: nat

definition cell_new :: peer_cell where
  "cell_new = \<lparr>pl_nonce_cache = [], pl_challenge_slot = 1,
     pl_liveness = \<lparr>lv_last_challenge_at = None, lv_last_connect_at = None\<rparr>\<rparr>"

text \<open>Allocates the cell of the new entry at the end of the store.\<close>

definition peer_entry_new :: "bytes \<Rightarrow> bytes option \<Rightarrow> peer_cell list \<Rightarrow> peer_entry \<times> peer_cell list" where
  "peer_entry_new key pk cells =
     (\<lparr>pe_bond_key = key, pe_phone_pubkey = pk, pe_cell = length cells\<rparr>, cells @ [cell_new])"

text \<open>\<open>BTreeMap\<close> by identifier.\<close>

fun btree_insert :: "string \<Rightarrow> 'v \<Rightarrow> (string \<times> 'v) list \<Rightarrow> (string \<times> 'v) list" where
  "btree_insert k v [] = [(k, v)]"
| "btree_insert k v ((k', v') # m) =
     (if k = k' then (k, v) # m else if k < k' then (k, v) # (k', v') # m else (k', v') # btree_insert k v m)"

definition btree_remove :: "string \<Rightarrow> (string \<times> 'v) list \<Rightarrow> (string \<times> 'v) list" where
  "btree_remove k m = filter (\<lambda>(k', _). k' \<noteq> k) m"

record orchestrator =
  oc_peripheral :: persistent_peripheral
  oc_peers :: "(string \<times> peer_entry) list"
  oc_cells :: "peer_cell list"
  oc_bonds_file :: path
  oc_keys_dir :: path
  oc_exit_when_empty :: bool
  oc_reload_rx :: bool
  oc_audit_log :: "audit_log option"
  oc_sigterm :: bool

primrec seed_peers ::
    "(bond \<times> bytes) list \<Rightarrow> (string \<times> peer_entry) list \<times> peer_cell list \<Rightarrow> (string \<times> peer_entry) list \<times> peer_cell list" where
  "seed_peers [] mc = mc"
| "seed_peers (x # xs) mc =
     (case peer_entry_new (snd x) (Some (bond_pubkey (fst x))) (snd mc) of
        (e, cells) \<Rightarrow> seed_peers xs (btree_insert (bond_peer_id (fst x)) e (fst mc), cells))"

definition with_peers_and_audit ::
    "persistent_peripheral \<Rightarrow> (bond \<times> bytes) list \<Rightarrow> path \<Rightarrow> path \<Rightarrow> audit_log option \<Rightarrow> orchestrator" where
  "with_peers_and_audit p peers bonds keys log =
     (case seed_peers peers ([], []) of
        (m, cells) \<Rightarrow>
          \<lparr>oc_peripheral = p, oc_peers = m, oc_cells = cells, oc_bonds_file = bonds, oc_keys_dir = keys,
           oc_exit_when_empty = False, oc_reload_rx = True, oc_audit_log = log, oc_sigterm = False\<rparr>)"

definition with_peers :: "persistent_peripheral \<Rightarrow> (bond \<times> bytes) list \<Rightarrow> path \<Rightarrow> path \<Rightarrow> orchestrator" where
  "with_peers p peers bonds keys = with_peers_and_audit p peers bonds keys None"

definition orchestrator_new :: "persistent_peripheral \<Rightarrow> bond \<Rightarrow> bytes \<Rightarrow> orchestrator" where
  "orchestrator_new p b key = with_peers p [(b, key)] [] []"

definition set_exit_when_empty :: "orchestrator \<Rightarrow> bool \<Rightarrow> orchestrator" where
  "set_exit_when_empty oc b = oc\<lparr>oc_exit_when_empty := b\<rparr>"

definition attach_audit_log :: "orchestrator \<Rightarrow> audit_log \<Rightarrow> audit_log option \<times> orchestrator" where
  "attach_audit_log oc log = (oc_audit_log oc, oc\<lparr>oc_audit_log := Some log\<rparr>)"

definition audit_at :: "string \<Rightarrow> string \<Rightarrow> nat \<Rightarrow> nat \<Rightarrow> string \<Rightarrow> orchestrator \<Rightarrow> orchestrator" where
  "audit_at pid nonce_hex t0 t1 reason oc =
     (case oc_audit_log oc of
        None \<Rightarrow> oc
      | Some log \<Rightarrow>
          oc\<lparr>oc_audit_log := Some (snd (audit_append log
            \<lparr>ar_peer_id = pid, ar_nonce_hex = nonce_hex, ar_t_start_ms = t0, ar_t_end_ms = t1,
             ar_outcome = reason, ar_reason = reason\<rparr>))\<rparr>)"

definition audit_outcome :: "string \<Rightarrow> string \<Rightarrow> nat \<Rightarrow> string \<Rightarrow> orchestrator \<Rightarrow> orchestrator" where
  "audit_outcome pid nonce_hex t0 reason oc = audit_at pid nonce_hex t0 t0 reason oc"

subsection \<open>One challenge\<close>

text \<open>A cancellation carries the peripheral the interrupted call left behind.\<close>

record challenge_env =
  ce_started :: system_time
  ce_stamped :: system_time
  ce_random :: "(string, bytes) result"
  ce_notify_cancelled :: "persistent_peripheral option"
  ce_delivery :: delivery
  ce_wait_cancelled :: "persistent_peripheral option"
  ce_arrived :: response_wait
  ce_ended :: system_time

definition challenge_frame :: "bytes \<Rightarrow> bytes \<Rightarrow> frame" where
  "challenge_frame nonce tag =
     \<lparr>fr_version = SYAUTH_WIRE_VERSION_V1, fr_nonce = nonce, fr_payload = [], fr_tag = tag\<rparr>"

definition set_cell :: "nat \<Rightarrow> (peer_cell \<Rightarrow> peer_cell) \<Rightarrow> orchestrator \<Rightarrow> orchestrator" where
  "set_cell c f oc = oc\<lparr>oc_cells := (oc_cells oc)[c := f (oc_cells oc ! c)]\<rparr>"

text \<open>After the response arrived: parse, load the key, verify, and only then consult the cache.\<close>

definition judge_response :: "crypto \<Rightarrow> frame \<Rightarrow> bytes \<Rightarrow> nonce_cache \<Rightarrow> bytes \<Rightarrow> challenge_outcome" where
  "judge_response cr challenge pubkey cache response =
     (case parse_signature cr response of
        None \<Rightarrow> CO_BadSignature
      | Some signature \<Rightarrow>
          if \<not> ed_verifying_key_ok cr pubkey then CO_BadSignature
          else case verify_frame cr pubkey challenge signature of
                 Inl e \<Rightarrow> CO_BadSignature
               | Inr u \<Rightarrow> if cache_contains cache (fr_nonce challenge) then CO_Replay else CO_Ok signature)"

definition settle_response :: "crypto \<Rightarrow> frame \<Rightarrow> peer_state \<Rightarrow> bytes \<Rightarrow> orchestrator \<Rightarrow> challenge_outcome \<times> orchestrator" where
  "settle_response cr challenge st response oc =
     (let out = judge_response cr challenge (st_phone_pubkey st) (pl_nonce_cache (oc_cells oc ! st_cell st)) response
      in (out, case out of
                 CO_Ok s \<Rightarrow> set_cell (st_cell st)
                   (\<lambda>e. e\<lparr>pl_nonce_cache := cache_insert (pl_nonce_cache e) (fr_nonce challenge)\<rparr>) oc
               | _ \<Rightarrow> oc))"

definition exchange ::
    "crypto \<Rightarrow> challenge_env \<Rightarrow> string \<Rightarrow> bytes \<Rightarrow> nat \<Rightarrow> persistent_peripheral \<Rightarrow> (peripheral_error, bytes) result \<times> persistent_peripheral" where
  "exchange cr env pid encoded deadline_ms p =
     (case (case ce_notify_cancelled env of
              Some p' \<Rightarrow> (Inl P_Cancelled, p')
            | None \<Rightarrow> (case pp_notify_challenge cr (ce_delivery env) pid encoded p of (r, _, p') \<Rightarrow> (r, p'))) of
        (Inl e, p1) \<Rightarrow> (Inl e, p1)
      | (Inr u, p1) \<Rightarrow>
          (case ce_wait_cancelled env of
             Some p' \<Rightarrow> (Inl P_Cancelled, p')
           | None \<Rightarrow> pp_wait_for_response (ce_arrived env) pid deadline_ms p1))"

definition run_challenge ::
    "crypto \<Rightarrow> challenge_env \<Rightarrow> string \<Rightarrow> bytes \<Rightarrow> nat \<Rightarrow> peer_state \<Rightarrow> orchestrator \<Rightarrow> challenge_outcome \<times> orchestrator" where
  "run_challenge cr env pid nonce deadline_ms st oc =
     (let finish = (\<lambda>out oc'. (out, audit_at pid (hex_encode nonce) (epoch_millis (ce_started env))
                                  (epoch_millis (ce_ended env)) (reason_str out) oc'))
      in case frame_body_bytes (challenge_frame nonce (replicate TAG_LEN 0)) of
           Inl e \<Rightarrow> finish (CO_TransportError (P_Backend (''challenge body_bytes: '' @ frame_error_display e))) oc
         | Inr body \<Rightarrow>
             let challenge = challenge_frame nonce (compute_tag cr (st_bond_key st) body) in
             (case frame_encode challenge [] of
                (Inl e, _) \<Rightarrow> finish (CO_TransportError (P_Backend (''encode challenge frame: '' @ frame_error_display e))) oc
              | (Inr u, encoded) \<Rightarrow>
                  (case exchange cr env pid encoded deadline_ms (oc_peripheral oc) of
                     (Inl e, p') \<Rightarrow> finish (challenge_outcome_for_transport e) (oc\<lparr>oc_peripheral := p'\<rparr>)
                   | (Inr response, p') \<Rightarrow>
                       (case settle_response cr challenge st response (oc\<lparr>oc_peripheral := p'\<rparr>) of
                          (out, oc2) \<Rightarrow> finish out oc2))))"

definition lookup_peer :: "orchestrator \<Rightarrow> string \<Rightarrow> peer_state option" where
  "lookup_peer oc pid =
     (case map_of (oc_peers oc) pid of
        None \<Rightarrow> None
      | Some e \<Rightarrow>
          (case pe_phone_pubkey e of
             None \<Rightarrow> None
           | Some pk \<Rightarrow> Some \<lparr>st_phone_pubkey = pk, st_bond_key = pe_bond_key e, st_cell = pe_cell e\<rparr>))"

definition stamp_liveness :: "nat \<Rightarrow> system_time \<Rightarrow> orchestrator \<Rightarrow> orchestrator" where
  "stamp_liveness c now oc =
     set_cell c (\<lambda>e. e\<lparr>pl_liveness := \<lparr>lv_last_challenge_at = Some now, lv_last_connect_at = Some now\<rparr>\<rparr>) oc"

text \<open>\<open>None\<close> when no permit became free within the queue deadline.\<close>

definition acquire_challenge_slot :: "nat \<Rightarrow> orchestrator \<Rightarrow> orchestrator option" where
  "acquire_challenge_slot c oc =
     (if pl_challenge_slot (oc_cells oc ! c) = 0 then None
      else Some (set_cell c (\<lambda>e. e\<lparr>pl_challenge_slot := pl_challenge_slot e - 1\<rparr>) oc))"

definition drop_permit :: "nat \<Rightarrow> orchestrator \<Rightarrow> orchestrator" where
  "drop_permit c oc = set_cell c (\<lambda>e. e\<lparr>pl_challenge_slot := pl_challenge_slot e + 1\<rparr>) oc"

definition issue_challenge_cancellable ::
    "crypto \<Rightarrow> challenge_env \<Rightarrow> string \<Rightarrow> nat \<Rightarrow> orchestrator \<Rightarrow> challenge_outcome \<times> orchestrator" where
  "issue_challenge_cancellable cr env pid deadline_ms oc =
     (let t0 = epoch_millis (ce_started env); t1 = epoch_millis (ce_ended env) in
      case lookup_peer oc pid of
        None \<Rightarrow> (CO_UnknownPeer, audit_outcome pid ZERO_NONCE_HEX t0 OUTCOME_REASON_UNKNOWN_PEER oc)
      | Some st \<Rightarrow>
          (case acquire_challenge_slot (st_cell st) oc of
             None \<Rightarrow> (CO_Busy, audit_at pid ZERO_NONCE_HEX t0 t1 OUTCOME_REASON_BUSY oc)
           | Some oc0 \<Rightarrow>
               let oc1 = stamp_liveness (st_cell st) (ce_stamped env) oc0 in
               (case ce_random env of
                  Inl err \<Rightarrow> (CO_TransportError (P_Backend (''nonce rng: '' @ err)),
                              drop_permit (st_cell st) (audit_at pid ZERO_NONCE_HEX t0 t1 OUTCOME_REASON_TRANSPORT_ERROR oc1))
                | Inr nonce \<Rightarrow>
                    (case run_challenge cr env pid nonce deadline_ms st oc1 of
                       (outcome, oc2) \<Rightarrow> (outcome, drop_permit (st_cell st) oc2)))))"

definition issue_challenge_with_nonce_cancellable ::
    "crypto \<Rightarrow> challenge_env \<Rightarrow> string \<Rightarrow> bytes \<Rightarrow> nat \<Rightarrow> orchestrator \<Rightarrow> challenge_outcome \<times> orchestrator" where
  "issue_challenge_with_nonce_cancellable cr env pid nonce deadline_ms oc =
     (let t0 = epoch_millis (ce_started env); t1 = epoch_millis (ce_ended env) in
      case lookup_peer oc pid of
        None \<Rightarrow> (CO_UnknownPeer, audit_outcome pid ZERO_NONCE_HEX t0 OUTCOME_REASON_UNKNOWN_PEER oc)
      | Some st \<Rightarrow>
          (case acquire_challenge_slot (st_cell st) oc of
             None \<Rightarrow> (CO_Busy, audit_at pid ZERO_NONCE_HEX t0 t1 OUTCOME_REASON_BUSY oc)
           | Some oc0 \<Rightarrow>
               (case run_challenge cr env pid nonce deadline_ms st (stamp_liveness (st_cell st) (ce_stamped env) oc0) of
                  (outcome, oc2) \<Rightarrow> (outcome, drop_permit (st_cell st) oc2))))"

subsection \<open>Rotation and reload\<close>

definition snapshot_peers :: "orchestrator \<Rightarrow> (string \<times> bytes) list" where
  "snapshot_peers oc = map (\<lambda>(k, e). (k, pe_bond_key e)) (oc_peers oc)"

definition build_uuid_union :: "crypto \<Rightarrow> (string \<times> bytes) list \<Rightarrow> i64 \<Rightarrow> bytes set" where
  "build_uuid_union cr snapshot minute =
     insert (session_uuid_for cr PAIR_MODE_ZERO_BOND_KEY minute)
       (set (map (\<lambda>(k, key). session_uuid_for cr key minute) snapshot))"

definition rotate_once :: "crypto \<Rightarrow> system_time \<Rightarrow> orchestrator \<Rightarrow> orchestrator" where
  "rotate_once cr now oc =
     oc\<lparr>oc_peripheral := snd (pp_set_session_uuids (build_uuid_union cr (snapshot_peers oc) (minute_index now)) (oc_peripheral oc))\<rparr>"

text \<open>The source renders these two errors as text for the log.\<close>

datatype key_load_error =
    KL_Read path io_error
  | KL_WrongLength path nat nat

definition load_bond_key :: "path \<Rightarrow> string \<Rightarrow> (key_load_error, bytes) prog" where
  "load_bond_key keys_dir pid =
     (let path = path_join keys_dir (pid @ ORCH_BOND_KEY_FILE_EXT) in
      io_bind (io_map_err (KL_Read path) (fs_read path)) (\<lambda>bs.
        if length bs \<noteq> BOND_KEY_BYTES then io_fail (KL_WrongLength path BOND_KEY_BYTES (length bs)) else io_return bs))"

text \<open>\<open>HashMap\<close> insertion overwrites.\<close>

definition hash_insert :: "string \<Rightarrow> 'v \<Rightarrow> (string \<times> 'v) list \<Rightarrow> (string \<times> 'v) list" where
  "hash_insert k v m = (k, v) # filter (\<lambda>(k', _). k' \<noteq> k) m"

primrec compute_new_set :: "path \<Rightarrow> bond_store \<Rightarrow> (string \<times> bytes) list \<Rightarrow> fs \<Rightarrow> (string \<times> bytes) list \<times> fs" where
  "compute_new_set keys_dir [] m s = (m, s)"
| "compute_new_set keys_dir (b # bs) m s =
     (if is_revoked b then compute_new_set keys_dir bs m s
      else case load_bond_key keys_dir (bond_peer_id b) s of
             (Inr key, s') \<Rightarrow> compute_new_set keys_dir bs (hash_insert (bond_peer_id b) key m) s'
           | (Inl e, s') \<Rightarrow> compute_new_set keys_dir bs m s')"

text \<open>\<open>traverse\<close>: the order in which a hash set yields its elements.\<close>

definition compute_diff ::
    "(string list \<Rightarrow> string list) \<Rightarrow> (string \<times> bytes) list \<Rightarrow> orchestrator \<Rightarrow> string list \<times> string list" where
  "compute_diff traverse new_set oc =
     (traverse (filter (\<lambda>k. k \<notin> fst ` set (oc_peers oc)) (map fst new_set)),
      traverse (filter (\<lambda>k. k \<notin> fst ` set new_set) (map fst (oc_peers oc))))"

definition do_remove_peer :: "string \<Rightarrow> orchestrator \<Rightarrow> orchestrator" where
  "do_remove_peer pid oc =
     (case pp_remove_peer pid (oc_peripheral oc) of
        (Inr u, p') \<Rightarrow> oc\<lparr>oc_peripheral := p', oc_peers := btree_remove pid (oc_peers oc)\<rparr>
      | (Inl e, p') \<Rightarrow> oc\<lparr>oc_peripheral := p'\<rparr>)"

definition do_add_peer :: "crypto \<Rightarrow> bond_store \<Rightarrow> string \<Rightarrow> bytes \<Rightarrow> orchestrator \<Rightarrow> orchestrator" where
  "do_add_peer cr store pid key oc =
     (case find (\<lambda>b. bond_peer_id b = pid) store of
        None \<Rightarrow> oc
      | Some b \<Rightarrow>
          (case pp_add_peer cr pid key (oc_peripheral oc) of
             (Inr u, p') \<Rightarrow>
               (case peer_entry_new key (Some (bond_pubkey b)) (oc_cells oc) of
                  (e, cells) \<Rightarrow> oc\<lparr>oc_peripheral := p', oc_peers := btree_insert pid e (oc_peers oc), oc_cells := cells\<rparr>)
           | (Inl e, p') \<Rightarrow> oc\<lparr>oc_peripheral := p'\<rparr>))"

definition revoke_notice :: "crypto \<Rightarrow> (string \<Rightarrow> bytes option) \<Rightarrow> delivery \<Rightarrow> string \<Rightarrow> orchestrator \<Rightarrow> orchestrator" where
  "revoke_notice cr hex_decode dl pid oc =
     (case hex_decode pid of
        None \<Rightarrow> oc
      | Some bs \<Rightarrow>
          if length bs = 16
          then oc\<lparr>oc_peripheral := snd (snd (pp_notify_challenge cr dl pid
                 (message_encode \<lparr>msg_transaction = bs, msg_operation = Op_Revoke\<rparr>) (oc_peripheral oc)))\<rparr>
          else oc)"

text \<open>The two loops of the reload.\<close>

definition removals :: "crypto \<Rightarrow> (string \<Rightarrow> bytes option) \<Rightarrow> (string \<Rightarrow> delivery) \<Rightarrow> string list \<Rightarrow> orchestrator \<Rightarrow> orchestrator" where
  "removals cr hx dls rs oc = foldl (\<lambda>o1 pid. do_remove_peer pid (revoke_notice cr hx (dls pid) pid o1)) oc rs"

definition additions :: "crypto \<Rightarrow> bond_store \<Rightarrow> (string \<times> bytes) list \<Rightarrow> string list \<Rightarrow> orchestrator \<Rightarrow> orchestrator" where
  "additions cr store new_set xs oc =
     foldl (\<lambda>o2 pid. case map_of new_set pid of Some key \<Rightarrow> do_add_peer cr store pid key o2 | None \<Rightarrow> o2) oc xs"

definition reload_bonds_with_trigger ::
    "crypto \<Rightarrow> (string \<Rightarrow> bytes option) \<Rightarrow> (string list \<Rightarrow> string list) \<Rightarrow> (string \<Rightarrow> delivery) \<Rightarrow> system_time \<Rightarrow>
     bond_store \<Rightarrow> orchestrator \<Rightarrow> fs \<Rightarrow> orchestrator \<times> fs" where
  "reload_bonds_with_trigger cr hex_decode traverse dls now store oc s =
     (case compute_new_set (oc_keys_dir oc) store [] s of (new_set, s') \<Rightarrow>
      case compute_diff traverse new_set oc of (to_add, to_remove) \<Rightarrow>
        let oc1 = removals cr hex_decode dls to_remove oc;
            oc2 = additions cr store new_set to_add oc1;
            oc3 = (if oc_peers oc2 = [] \<and> oc_exit_when_empty oc2 then oc2\<lparr>oc_sigterm := True\<rparr> else oc2)
        in (rotate_once cr now oc3, s'))"

definition run_reload ::
    "crypto \<Rightarrow> serde \<Rightarrow> (string \<Rightarrow> bytes option) \<Rightarrow> (string list \<Rightarrow> string list) \<Rightarrow> (string \<Rightarrow> delivery) \<Rightarrow> system_time \<Rightarrow>
     orchestrator \<Rightarrow> fs \<Rightarrow> orchestrator \<times> fs" where
  "run_reload cr sd hex_decode traverse dls now oc s =
     (case store_load cr sd (oc_bonds_file oc) s of
        (Inl e, s') \<Rightarrow> (oc, s')
      | (Inr store, s') \<Rightarrow> reload_bonds_with_trigger cr hex_decode traverse dls now store oc s')"

text \<open>The loop of \<open>run\<close> over the events its \<open>select!\<close> picks; a second call finds the channel taken.\<close>

datatype reload_trigger = RT_Sighup | RT_Rpc | RT_Inotify | RT_Pair | RT_Test

primrec trigger_str :: "reload_trigger \<Rightarrow> string" where
  "trigger_str RT_Sighup = ''sighup''"
| "trigger_str RT_Rpc = ''rpc''"
| "trigger_str RT_Inotify = ''inotify''"
| "trigger_str RT_Pair = ''pair''"
| "trigger_str RT_Test = ''test''"

datatype run_event =
    Ev_Shutdown
  | Ev_Tick system_time
  | Ev_Reload reload_trigger system_time "string \<Rightarrow> delivery"

fun run_loop ::
    "crypto \<Rightarrow> serde \<Rightarrow> (string \<Rightarrow> bytes option) \<Rightarrow> (string list \<Rightarrow> string list) \<Rightarrow> run_event list \<Rightarrow>
     orchestrator \<Rightarrow> fs \<Rightarrow> orchestrator \<times> fs" where
  "run_loop cr sd hx tv [] oc s = (oc, s)"
| "run_loop cr sd hx tv (Ev_Shutdown # evs) oc s = (oc, s)"
| "run_loop cr sd hx tv (Ev_Tick now # evs) oc s = run_loop cr sd hx tv evs (rotate_once cr now oc) s"
| "run_loop cr sd hx tv (Ev_Reload trigger now dls # evs) oc s =
     (case run_reload cr sd hx tv dls now oc s of (oc', s') \<Rightarrow> run_loop cr sd hx tv evs oc' s')"

definition orchestrator_run ::
    "crypto \<Rightarrow> serde \<Rightarrow> (string \<Rightarrow> bytes option) \<Rightarrow> (string list \<Rightarrow> string list) \<Rightarrow> system_time \<Rightarrow> run_event list \<Rightarrow>
     orchestrator \<Rightarrow> fs \<Rightarrow> orchestrator \<times> fs" where
  "orchestrator_run cr sd hx tv now evs oc s =
     (if \<not> oc_reload_rx oc then (oc, s)
      else run_loop cr sd hx tv evs (rotate_once cr now (oc\<lparr>oc_reload_rx := False\<rparr>)) s)"

definition challenge_slot_in_flight :: "nat \<Rightarrow> u32" where
  "challenge_slot_in_flight permits = (if permits = 0 then 1 else 0)"

definition peers_snapshot :: "crypto \<Rightarrow> system_time \<Rightarrow> orchestrator \<Rightarrow> peer_status list" where
  "peers_snapshot cr now oc =
     map (\<lambda>(pid, e).
       \<lparr>ps_peer_id = pid,
        ps_last_challenge_ms_ago = ms_since now (lv_last_challenge_at (pl_liveness (oc_cells oc ! pe_cell e))),
        ps_last_connect_ms_ago = ms_since now (lv_last_connect_at (pl_liveness (oc_cells oc ! pe_cell e))),
        ps_current_session_uuid = session_uuid_for cr (pe_bond_key e) (minute_index now),
        ps_in_flight_challenges = challenge_slot_in_flight (pl_challenge_slot (oc_cells oc ! pe_cell e))\<rparr>) (oc_peers oc)"

subsection \<open>Lemmas on one challenge\<close>

lemma audit_at_simps [simp]:
  "oc_peers (audit_at pid n t0 t1 r oc) = oc_peers oc"
  "oc_cells (audit_at pid n t0 t1 r oc) = oc_cells oc"
  "oc_peripheral (audit_at pid n t0 t1 r oc) = oc_peripheral oc"
  by (simp_all add: audit_at_def split: option.splits)

lemma set_cell_simps [simp]:
  "oc_peers (set_cell c f oc) = oc_peers oc"
  "oc_peripheral (set_cell c f oc) = oc_peripheral oc"
  "length (oc_cells (set_cell c f oc)) = length (oc_cells oc)"
  "c < length (oc_cells oc) \<Longrightarrow> oc_cells (set_cell c f oc) ! c = f (oc_cells oc ! c)"
  "d \<noteq> c \<Longrightarrow> oc_cells (set_cell c f oc) ! d = oc_cells oc ! d"
  by (simp_all add: set_cell_def)

lemma map_set_cell:
  "(\<And>x. g (f x) = g x) \<Longrightarrow> map g (oc_cells (set_cell c f oc)) = map g (oc_cells oc)"
  by (simp add: set_cell_def map_update) (metis list_update_beyond list_update_id map_update not_le nth_map)

lemma cache_contains_iff [simp]: "cache_contains c n \<longleftrightarrow> n \<in> set c"
  by (auto simp: cache_contains_def list_ex_iff)

lemma challenge_frame_body [simp]: "frame_body_bytes (challenge_frame n t) = Inr ([SYAUTH_WIRE_VERSION_V1] @ n)"
  by (simp add: challenge_frame_def frame_body_bytes_def)

lemma challenge_frame_encode [simp]: "frame_encode (challenge_frame n t) [] = (Inr (), [SYAUTH_WIRE_VERSION_V1] @ n @ t)"
  by (simp add: challenge_frame_def frame_encode_def)

lemma challenge_frame_nonce [simp]: "fr_nonce (challenge_frame n t) = n"
  by (simp add: challenge_frame_def)

lemma judge_response_ok_iff:
  "judge_response cr ch pk cache resp = CO_Ok sig \<longleftrightarrow>
     resp = sig \<and> length sig = SIGNATURE_LEN \<and> ed_signature_ok cr sig \<and> ed_verifying_key_ok cr pk \<and>
     verify_frame cr pk ch sig = Inr () \<and> fr_nonce ch \<notin> set cache"
  by (auto simp: judge_response_def parse_signature_def split: sum.splits if_splits)

lemma transport_never_ok [simp]: "challenge_outcome_for_transport e \<noteq> CO_Ok s"
  by (cases e) (simp_all add: challenge_outcome_for_transport_def)

lemma run_challenge_eq:
  "run_challenge cr env pid nonce d st oc =
     (case exchange cr env pid ([SYAUTH_WIRE_VERSION_V1] @ nonce @ compute_tag cr (st_bond_key st) ([SYAUTH_WIRE_VERSION_V1] @ nonce))
             d (oc_peripheral oc) of
        (r, p') \<Rightarrow>
          (case (case r of
                   Inl e \<Rightarrow> (challenge_outcome_for_transport e, oc\<lparr>oc_peripheral := p'\<rparr>)
                 | Inr response \<Rightarrow>
                     settle_response cr (challenge_frame nonce (compute_tag cr (st_bond_key st) ([SYAUTH_WIRE_VERSION_V1] @ nonce)))
                       st response (oc\<lparr>oc_peripheral := p'\<rparr>)) of
             (out, oc2) \<Rightarrow>
               (out, audit_at pid (hex_encode nonce) (epoch_millis (ce_started env)) (epoch_millis (ce_ended env)) (reason_str out) oc2)))"
  by (simp add: run_challenge_def Let_def split: prod.splits sum.splits)

definition cells_ok :: "orchestrator \<Rightarrow> bool" where
  "cells_ok oc \<longleftrightarrow> (\<forall>(pid, e) \<in> set (oc_peers oc). pe_cell e < length (oc_cells oc))"

lemma lookup_peer_cell:
  "cells_ok oc \<Longrightarrow> lookup_peer oc pid = Some st \<Longrightarrow> st_cell st < length (oc_cells oc)"
  by (auto simp: cells_ok_def lookup_peer_def split: option.splits dest!: map_of_SomeD)

lemma acquire_slot_Some:
  "acquire_challenge_slot c oc = Some oc0 \<longleftrightarrow>
     0 < pl_challenge_slot (oc_cells oc ! c) \<and>
     oc0 = set_cell c (\<lambda>e. e\<lparr>pl_challenge_slot := pl_challenge_slot e - 1\<rparr>) oc"
  by (auto simp: acquire_challenge_slot_def)

lemma settle_response_caches:
  "(\<And>sig. fst (settle_response cr ch st r oc) \<noteq> CO_Ok sig) \<Longrightarrow>
   map pl_nonce_cache (oc_cells (snd (settle_response cr ch st r oc))) = map pl_nonce_cache (oc_cells oc)"
  by (simp add: settle_response_def Let_def split: challenge_outcome.splits)

lemma in_cache_insert: "n \<in> set (cache_insert c n)"
  by (cases c) (auto simp: cache_insert_def Let_def NONCE_LRU_CAP_def)

lemma settle_response_ok:
  assumes "settle_response cr ch st r oc = (CO_Ok sig, oc')"
  shows "r = sig \<and> length sig = SIGNATURE_LEN \<and> verify_frame cr (st_phone_pubkey st) ch sig = Inr () \<and>
    fr_nonce ch \<notin> set (pl_nonce_cache (oc_cells oc ! st_cell st)) \<and>
    oc' = set_cell (st_cell st) (\<lambda>e. e\<lparr>pl_nonce_cache := cache_insert (pl_nonce_cache e) (fr_nonce ch)\<rparr>) oc"
proof -
  have j: "judge_response cr ch (st_phone_pubkey st) (pl_nonce_cache (oc_cells oc ! st_cell st)) r = CO_Ok sig"
    using assms by (simp add: settle_response_def Let_def)
  have "oc' = set_cell (st_cell st) (\<lambda>e. e\<lparr>pl_nonce_cache := cache_insert (pl_nonce_cache e) (fr_nonce ch)\<rparr>) oc"
    using assms by (simp add: settle_response_def Let_def j)
  with judge_response_ok_iff [THEN iffD1, OF j] show ?thesis by blast
qed

lemma issue_challenge_ok:
  assumes "issue_challenge_cancellable cr env pid d oc = (CO_Ok sig, oc')"
  obtains st nonce and oc1 :: orchestrator where "lookup_peer oc pid = Some st" "ce_random env = Inr nonce"
    "0 < pl_challenge_slot (oc_cells oc ! st_cell st)"
    "length (oc_cells oc1) = length (oc_cells oc)"
    "map pl_nonce_cache (oc_cells oc1) = map pl_nonce_cache (oc_cells oc)"
    "length sig = SIGNATURE_LEN"
    "verify_frame cr (st_phone_pubkey st)
       (challenge_frame nonce (compute_tag cr (st_bond_key st) ([SYAUTH_WIRE_VERSION_V1] @ nonce))) sig = Inr ()"
    "nonce \<notin> set (pl_nonce_cache (oc_cells oc1 ! st_cell st))"
    "map pl_nonce_cache (oc_cells oc') =
       (map pl_nonce_cache (oc_cells oc1))[st_cell st := cache_insert (pl_nonce_cache (oc_cells oc1 ! st_cell st)) nonce]"
proof -
  from assms obtain st oc0 nonce oc2 where
    st: "lookup_peer oc pid = Some st" and acq: "acquire_challenge_slot (st_cell st) oc = Some oc0" and
    rnd: "ce_random env = Inr nonce" and
    run: "run_challenge cr env pid nonce d st (stamp_liveness (st_cell st) (ce_stamped env) oc0) = (CO_Ok sig, oc2)" and
    fin: "oc' = drop_permit (st_cell st) oc2"
    by (auto simp: issue_challenge_cancellable_def Let_def split: option.splits sum.splits prod.splits)
  define oc1 where "oc1 = stamp_liveness (st_cell st) (ce_stamped env) oc0"
  from run obtain r p' oc3 where
    settle: "settle_response cr (challenge_frame nonce (compute_tag cr (st_bond_key st) ([SYAUTH_WIRE_VERSION_V1] @ nonce)))
       st r (oc1\<lparr>oc_peripheral := p'\<rparr>) = (CO_Ok sig, oc3)"
    and cells: "oc_cells oc2 = oc_cells oc3"
    by (auto simp: run_challenge_eq oc1_def split: prod.splits sum.splits)
  note ok = settle_response_ok [OF settle]
  have len: "length (oc_cells oc1) = length (oc_cells oc)"
    using acq by (simp add: oc1_def acquire_slot_Some stamp_liveness_def)
  have caches: "map pl_nonce_cache (oc_cells oc1) = map pl_nonce_cache (oc_cells oc)"
    using acq by (simp add: oc1_def acquire_slot_Some stamp_liveness_def map_set_cell)
  have "map pl_nonce_cache (oc_cells oc') = map pl_nonce_cache (oc_cells oc3)"
    by (simp add: fin drop_permit_def map_set_cell cells)
  also have "\<dots> = (map pl_nonce_cache (oc_cells oc1))[st_cell st := cache_insert (pl_nonce_cache (oc_cells oc1 ! st_cell st)) nonce]"
    using ok by (simp add: set_cell_def map_update)
  finally show ?thesis
    using ok acq by (intro that [OF st rnd _ len caches]) (simp_all add: acquire_slot_Some)
qed

lemma accepted_signature:
  assumes "cells_ok oc" and "issue_challenge_cancellable cr env pid d oc = (CO_Ok sig, oc')"
  shows "\<exists>st nonce. lookup_peer oc pid = Some st \<and> ce_random env = Inr nonce \<and> length sig = 64 \<and>
    ed_verify_strict cr (st_phone_pubkey st) ([1] @ nonce) sig \<and>
    nonce \<notin> set (pl_nonce_cache (oc_cells oc ! st_cell st)) \<and>
    nonce \<in> set (pl_nonce_cache (oc_cells oc' ! st_cell st))"
proof -
  from assms(2) obtain st nonce and oc1 :: orchestrator where st: "lookup_peer oc pid = Some st" and rnd: "ce_random env = Inr nonce"
    and len: "length (oc_cells oc1) = length (oc_cells oc)"
    and same: "map pl_nonce_cache (oc_cells oc1) = map pl_nonce_cache (oc_cells oc)"
    and sig: "length sig = SIGNATURE_LEN"
      "verify_frame cr (st_phone_pubkey st)
         (challenge_frame nonce (compute_tag cr (st_bond_key st) ([SYAUTH_WIRE_VERSION_V1] @ nonce))) sig = Inr ()"
    and fresh: "nonce \<notin> set (pl_nonce_cache (oc_cells oc1 ! st_cell st))"
    and after: "map pl_nonce_cache (oc_cells oc') =
       (map pl_nonce_cache (oc_cells oc1))[st_cell st := cache_insert (pl_nonce_cache (oc_cells oc1 ! st_cell st)) nonce]"
    by (rule issue_challenge_ok)
  have c: "st_cell st < length (oc_cells oc)" by (rule lookup_peer_cell [OF assms(1) st])
  have "pl_nonce_cache (oc_cells oc1 ! st_cell st) = pl_nonce_cache (oc_cells oc ! st_cell st)"
    using arg_cong [OF same, of "\<lambda>xs. xs ! st_cell st"] c len by simp
  moreover have "length (oc_cells oc') = length (oc_cells oc)"
    using arg_cong [OF after, of length] len by simp
  then have "pl_nonce_cache (oc_cells oc' ! st_cell st) = cache_insert (pl_nonce_cache (oc_cells oc1 ! st_cell st)) nonce"
    using arg_cong [OF after, of "\<lambda>xs. xs ! st_cell st"] c len by simp
  ultimately show ?thesis
    using st rnd sig fresh in_cache_insert
    by (auto simp: verify_frame_def SIGNATURE_LEN_def SYAUTH_WIRE_VERSION_V1_def split: if_splits)
qed

text \<open>C2: the daemon accepts only a verified, fresh signature. Whatever the radio, the client and the
  clock do, when a challenge to a peer ends in \<open>Ok\<close>, the peer is registered with a public key, the
  returned 64 bytes are a valid signature under that key of the version byte followed by the very
  nonce the daemon drew for this challenge, that nonce was not in the peer's cache before, and it is
  there afterwards.\<close>

theorem challenge_ok_sound:
  assumes "cells_ok oc" and "issue_challenge_cancellable cr env pid d oc = (CO_Ok sig, oc')"
  shows "\<exists>st nonce. lookup_peer oc pid = Some st \<and> ce_random env = Inr nonce \<and> length sig = 64 \<and>
    ed_verify_strict cr (st_phone_pubkey st) ([1] @ nonce) sig \<and>
    nonce \<notin> set (pl_nonce_cache (oc_cells oc ! st_cell st)) \<and>
    nonce \<in> set (pl_nonce_cache (oc_cells oc' ! st_cell st))"
  by (rule accepted_signature [OF assms])

text \<open>The nonce cache is a sliding window. After any sequence of insertions it holds exactly the
  last 64 nonces in order, so a nonce is recognised exactly while fewer than 64 later ones were
  accepted.\<close>

lemma nonce_cache_window:
  "foldl cache_insert [] ns = drop (length ns - NONCE_LRU_CAP) ns \<and>
   (cache_contains (foldl cache_insert [] ns) n \<longleftrightarrow> (\<exists>i < length ns. ns ! i = n \<and> length ns - i \<le> NONCE_LRU_CAP))"
proof -
  have window: "foldl cache_insert [] ns = drop (length ns - NONCE_LRU_CAP) ns"
  proof (induction ns rule: rev_induct)
    case (snoc x xs)
    then show ?case
      by (cases "length xs < NONCE_LRU_CAP") (auto simp: cache_insert_def Let_def Suc_diff_le)
  qed simp
  moreover have "n \<in> set (drop k ns) \<longleftrightarrow> (\<exists>i < length ns. ns ! i = n \<and> k \<le> i)" for k
    by (auto simp: in_set_conv_nth) (metis add.commute le_add_diff_inverse2 less_diff_conv le_add1 nth_drop)+
  ultimately show ?thesis by (auto simp: le_diff_conv)
qed

text \<open>The rotation is aligned to the wall clock. The wait is between one second and one minute, and
  from a reading after the epoch it ends on a minute boundary, in the minute after the current one.\<close>

lemma next_minute_aligned:
  "1 \<le> align_to_next_minute now \<and> align_to_next_minute now \<le> 60 \<and>
   (if now < 0 then align_to_next_minute now = 60
    else 60 dvd epoch_secs now + align_to_next_minute now \<and>
         (epoch_secs now + align_to_next_minute now) div 60 = epoch_secs now div 60 + 1)"
proof -
  let ?s = "epoch_secs now"
  have "?s mod 60 < 60" by simp
  moreover have "?s + (60 - ?s mod 60) = 60 * (?s div 60 + 1)"
    using \<open>?s mod 60 < 60\<close> mult_div_mod_eq [of 60 ?s] by presburger
  then have "60 dvd ?s + (60 - ?s mod 60)" "(?s + (60 - ?s mod 60)) div 60 = ?s div 60 + 1"
    by (metis dvd_triv_left, metis nonzero_mult_div_cancel_left zero_neq_numeral)
  ultimately show ?thesis
    by (auto simp: align_to_next_minute_def ORCH_SECONDS_PER_MINUTE_def)
qed

lemma signed_response_settles:
  assumes "crypto_laws cr" and "st_phone_pubkey st = ed_public cr sk"
    and "nonce \<notin> set (pl_nonce_cache (oc_cells oc ! st_cell st))"
  shows "fst (settle_response cr (challenge_frame nonce t) st (ed_sign cr sk ([SYAUTH_WIRE_VERSION_V1] @ nonce)) oc) =
    CO_Ok (ed_sign cr sk ([SYAUTH_WIRE_VERSION_V1] @ nonce))"
  using assms by (simp add: settle_response_def Let_def judge_response_ok_iff verify_frame_def crypto_lawsD SIGNATURE_LEN_def)

lemma run_challenge_signed:
  assumes "crypto_laws cr" and "st_phone_pubkey st = ed_public cr sk"
    and "nonce \<notin> set (pl_nonce_cache (oc_cells oc ! st_cell st))"
    and "\<And>bs. fst (exchange cr env pid bs d (oc_peripheral oc)) = Inr (ed_sign cr sk ([SYAUTH_WIRE_VERSION_V1] @ nonce))"
  shows "fst (run_challenge cr env pid nonce d st oc) = CO_Ok (ed_sign cr sk ([SYAUTH_WIRE_VERSION_V1] @ nonce))"
proof -
  let ?t = "compute_tag cr (st_bond_key st) ([SYAUTH_WIRE_VERSION_V1] @ nonce)"
  obtain p where "exchange cr env pid ([SYAUTH_WIRE_VERSION_V1] @ nonce @ ?t) d (oc_peripheral oc) =
      (Inr (ed_sign cr sk ([SYAUTH_WIRE_VERSION_V1] @ nonce)), p)"
    using assms(4) by (metis prod.collapse)
  moreover have "fst (settle_response cr (challenge_frame nonce ?t) st (ed_sign cr sk ([SYAUTH_WIRE_VERSION_V1] @ nonce))
      (oc\<lparr>oc_peripheral := p\<rparr>)) = CO_Ok (ed_sign cr sk ([SYAUTH_WIRE_VERSION_V1] @ nonce))"
    using assms(3) by (intro signed_response_settles [OF assms(1,2)]) simp
  ultimately show ?thesis
    by (simp add: run_challenge_eq case_prod_beta)
qed

lemma phone_answers:
  assumes "crypto_laws cr" and "length sk = 32" and "length k = 32" and "length nonce = 16"
  defines "body \<equiv> [SYAUTH_WIRE_VERSION_V1] @ nonce"
  shows "verify_challenge_frame cr k (body @ compute_tag cr k body) = Inr []"
    and "sign_challenge_response cr sk (body @ compute_tag cr k body) = Inr (ed_sign cr sk body)"
proof -
  have dec: "frame_decode (body @ compute_tag cr k body) =
      Inr \<lparr>fr_version = 1, fr_nonce = nonce, fr_payload = [], fr_tag = compute_tag cr k body\<rparr>"
    using frame_decode_layout [of nonce "compute_tag cr k body" "[]"] assms(1,4)
    by (simp add: length_compute_tag body_def wire_consts)
  have b: "frame_body_bytes \<lparr>fr_version = 1, fr_nonce = nonce, fr_payload = [], fr_tag = compute_tag cr k body\<rparr> = Inr body"
    by (simp add: frame_body_bytes_def body_def wire_consts)
  show "verify_challenge_frame cr k (body @ compute_tag cr k body) = Inr []"
    using assms(3) verify_computed_tag [OF assms(1)]
    by (simp add: verify_challenge_frame_def bond_key_array_def MOBILE_BOND_KEY_LEN_def wire_consts dec b bad_frame_def)
  show "sign_challenge_response cr sk (body @ compute_tag cr k body) = Inr (ed_sign cr sk body)"
    using assms(2)
    by (simp add: sign_challenge_response_def ED25519_SECRET_KEY_LEN_def wire_consts dec b sign_frame_def bad_frame_def)
qed

lemma notify_subscribed:
  assumes "pp_peers p pid = Some cs" and "pc_notifier cs" and "dl_first_write dl = Inr ()"
  shows "pp_notify_challenge cr dl pid bs p = (Inr (), [bs], with_peer pid (\<lambda>cs. cs\<lparr>pc_responses := []\<rparr>) p)"
  using assms by (simp add: pp_notify_challenge_def Let_def)

lemma wait_after_drain:
  assumes "pp_peers p pid = Some cs"
  shows "fst (pp_wait_for_response (W_Bytes b) pid d (with_peer pid (\<lambda>cs. cs\<lparr>pc_responses := []\<rparr>) p)) = Inr b"
  using assms by (simp add: pp_wait_for_response_def with_peer_def)

lemma exchange_subscribed:
  assumes "pp_peers p pid = Some cs" and "pc_notifier cs" and "dl_first_write (ce_delivery env) = Inr ()"
    and "ce_notify_cancelled env = None" and "ce_wait_cancelled env = None" and "ce_arrived env = W_Bytes b"
  shows "fst (exchange cr env pid bs d p) = Inr b"
  using assms wait_after_drain [OF assms(1)] by (simp add: exchange_def notify_subscribed)


text \<open>A daemon with one subscribed peer, and a challenge nothing disturbs.\<close>

abbreviation sample_pid :: string where
  "sample_pid \<equiv> bond_peer_id sample_bond"

definition sample_orchestrator :: orchestrator where
  "sample_orchestrator =
     orchestrator_new
       \<lparr>pp_app = None, pp_pair_watcher = True, pp_advertised = None,
        pp_peers = [sample_pid \<mapsto> \<lparr>pc_responses = [], pc_notifier = True, pc_task = True, pc_bond_key = replicate 32 9\<rparr>],
        pp_serve = [], pp_advertise = []\<rparr>
       sample_bond (replicate 32 9)"

definition sample_env :: challenge_env where
  "sample_env = \<lparr>ce_started = 0, ce_stamped = 0, ce_random = Inr (replicate 16 3), ce_notify_cancelled = None,
     ce_delivery = \<lparr>dl_first_write = Inr (), dl_resubscribes = True, dl_second_write = Some (Inr ())\<rparr>,
     ce_wait_cancelled = None, ce_arrived = W_Elapsed, ce_ended = 0\<rparr>"

lemma sample_orchestrator_facts:
  "cells_ok sample_orchestrator"
  "lookup_peer sample_orchestrator sample_pid =
     Some \<lparr>st_phone_pubkey = replicate 32 1, st_bond_key = replicate 32 9, st_cell = 0\<rparr>"
  "oc_cells sample_orchestrator = [cell_new]"
  "pp_peers (oc_peripheral sample_orchestrator) sample_pid =
     Some \<lparr>pc_responses = [], pc_notifier = True, pc_task = True, pc_bond_key = replicate 32 9\<rparr>"
  by (simp_all add: sample_orchestrator_def orchestrator_new_def with_peers_def with_peers_and_audit_def peer_entry_new_def
      cells_ok_def lookup_peer_def sample_bond_def)


definition sample_sig :: bytes where
  "sample_sig = ed_sign padding_crypto (replicate 32 1) ([1] @ replicate 16 3)"

lemma sample_challenge_ok:
  "\<exists>oc'. issue_challenge_cancellable padding_crypto (sample_env\<lparr>ce_arrived := W_Bytes sample_sig\<rparr>) sample_pid d sample_orchestrator
     = (CO_Ok sample_sig, oc')"
proof -
  let ?env = "sample_env\<lparr>ce_arrived := W_Bytes sample_sig\<rparr>"
  let ?st = "\<lparr>st_phone_pubkey = replicate 32 1, st_bond_key = replicate 32 9, st_cell = 0\<rparr>"
  have ex: "fst (exchange padding_crypto ?env sample_pid bs d (oc_peripheral sample_orchestrator)) = Inr sample_sig" for bs
    by (rule exchange_subscribed [OF sample_orchestrator_facts(4)]) (simp_all add: sample_env_def)
  have pk: "st_phone_pubkey ?st = ed_public padding_crypto (replicate 32 1)"
    by (simp add: padding_crypto_def fit_def)
  define oc1 where "oc1 = stamp_liveness 0 0 (set_cell 0 (\<lambda>e. e\<lparr>pl_challenge_slot := pl_challenge_slot e - 1\<rparr>) sample_orchestrator)"
  have oc1: "oc_peripheral oc1 = oc_peripheral sample_orchestrator" "pl_nonce_cache (oc_cells oc1 ! 0) = []"
    by (simp_all add: oc1_def stamp_liveness_def sample_orchestrator_facts(3) cell_new_def)
  have "fst (run_challenge padding_crypto ?env sample_pid (replicate 16 3) d ?st oc1) = CO_Ok sample_sig"
    using run_challenge_signed [OF padding_crypto_laws pk, of "replicate 16 3" oc1 ?env sample_pid d] ex oc1
    by (simp add: SYAUTH_WIRE_VERSION_V1_def sample_sig_def)
  then have "fst (issue_challenge_cancellable padding_crypto ?env sample_pid d sample_orchestrator) = CO_Ok sample_sig"
    by (simp add: issue_challenge_cancellable_def sample_orchestrator_facts(2,3) acquire_challenge_slot_def cell_new_def
        oc1_def sample_env_def Let_def case_prod_beta)
  then show ?thesis by (metis prod.collapse)
qed

theorem challenge_ok_sound_witness:
  "\<exists>sig st nonce. lookup_peer sample_orchestrator sample_pid = Some st \<and> ce_random sample_env = Inr nonce \<and>
     ed_verify_strict padding_crypto (st_phone_pubkey st) ([1] @ nonce) sig"
proof -
  obtain oc' where "issue_challenge_cancellable padding_crypto (sample_env\<lparr>ce_arrived := W_Bytes sample_sig\<rparr>) sample_pid 1000
      sample_orchestrator = (CO_Ok sample_sig, oc')"
    using sample_challenge_ok by blast
  from challenge_ok_sound [OF sample_orchestrator_facts(1) this] show ?thesis by auto
qed

end
