(* ===== verification/Pair_Daemon.thy ===== *)
theory Pair_Daemon
  imports Pair_Driver Pair_Recovery Orchestrator
begin

section \<open>The daemon's side of a pairing: \<open>runtime.rs\<close> of syauth-presenced\<close>

text \<open>
  The consumer at the other end of the engine's commit channel, which turns each request into writes
  of the recovery protocol; the start of the orchestrator; the loop that waits for signals; and the
  listener that scopes the pairing agent to a client connection. The properties put the consumer
  behind the driver of \<open>Pair_Driver\<close>, so that they speak of the files on disk after an attempt.
\<close>

subsection \<open>Revocation by the phone\<close>

datatype action_error =
    Act_Recovery recovery_error
  | Act_Bond bond_error
  | Act_NoBond string

text \<open>\<open>bond_dir_has_a_bonded_peer\<close>\<close>

definition bond_dir_has_a_bonded_peer :: "crypto \<Rightarrow> serde \<Rightarrow> path \<Rightarrow> ('e, bool) prog" where
  "bond_dir_has_a_bonded_peer cr sd d =
     io_bind (io_try (store_load cr sd (path_join d ''bonds.toml''))) (\<lambda>r.
       io_return (case r of Inl e \<Rightarrow> False | Inr bs \<Rightarrow> list_ex (\<lambda>b. bond_status b = Bond_Bonded) bs))"

definition revoke_bond_by_peer_id :: "crypto \<Rightarrow> serde \<Rightarrow> path \<Rightarrow> string \<Rightarrow> (action_error, unit) prog" where
  "revoke_bond_by_peer_id cr sd d pid =
     (let path = path_join d ''bonds.toml'' in
      io_bind (io_map_err Act_Bond (store_load cr sd path)) (\<lambda>bs.
      if \<not> list_ex (\<lambda>b. bond_peer_id b = pid) bs then io_fail (Act_NoBond pid)
      else
        io_bind (io_map_err Act_Bond (io_lift (store_mark_revoked bs pid ''phone: device dissociated''))) (\<lambda>bs'.
        io_bind (io_map_err Act_Bond (store_save sd bs' path)) (\<lambda>_.
        io_ignore (fs_remove_file (active_key_path d pid))))))"

subsection \<open>The commit consumer\<close>

text \<open>What the consumer finds outside: the clock, the Bluetooth name of a device, and whether the
  orchestrator takes the reload command.\<close>

record daemon_env =
  de_now :: int
  de_display_name :: "string \<Rightarrow> string option"
  de_reload_open :: bool

record consumer =
  cs_fs :: fs
  cs_reloads :: nat
  cs_sigterm :: bool

definition staged_bond :: "crypto \<Rightarrow> daemon_env \<Rightarrow> pair_commit_request \<Rightarrow> bond" where
  "staged_bond cr de q = \<lparr>bond_peer_id = peer_id_from_pubkey cr (pq_phone_pubkey q), bond_pubkey = pq_phone_pubkey q,
     bond_name = (case de_display_name de (pq_peer q) of Some n \<Rightarrow> n | None \<Rightarrow> pq_peer q),
     bond_created_at = de_now de, bond_status = Bond_Bonded\<rparr>"

definition stage_pair_trust :: "crypto \<Rightarrow> serde \<Rightarrow> daemon_env \<Rightarrow> path \<Rightarrow> pair_commit_request \<Rightarrow> (action_error, unit) prog" where
  "stage_pair_trust cr sd de d q =
     (let bond_key = bond_key_from_pubkeys cr (pq_host_pubkey q) (pq_phone_pubkey q) in
      io_map_err Act_Recovery
        (stage sd d (pq_transaction q) (peer_id_from_pubkey cr (pq_phone_pubkey q)) (pq_peer q) (staged_bond cr de q) bond_key))"

definition consumer_action :: "crypto \<Rightarrow> serde \<Rightarrow> daemon_env \<Rightarrow> path \<Rightarrow> pair_commit_request \<Rightarrow> (action_error, unit) prog" where
  "consumer_action cr sd de d q =
     (let pid = peer_id_from_pubkey cr (pq_phone_pubkey q) in
      case pq_phase q of
        PC_Stage \<Rightarrow> stage_pair_trust cr sd de d q
      | PC_MarkCommit \<Rightarrow> io_map_err Act_Recovery (mark_commit_pending d)
      | PC_Promote \<Rightarrow> io_map_err Act_Recovery (promote cr sd d pid)
      | PC_Discard \<Rightarrow> discard d pid
      | PC_Revoke \<Rightarrow> revoke_bond_by_peer_id cr sd d (hex_encode (pq_transaction q)))"

text \<open>One round of the loop of \<open>pair_commit_consumer\<close>: the reply, and the state after it. When the last
  bond has been revoked, the daemon raises \<open>SIGTERM\<close> for itself; after a promotion it asks the
  orchestrator to reload.\<close>

definition commit_step ::
    "crypto \<Rightarrow> serde \<Rightarrow> daemon_env \<Rightarrow> path \<Rightarrow> pair_commit_request \<Rightarrow> consumer \<Rightarrow> bool \<times> consumer" where
  "commit_step cr sd de d q cs =
     (case consumer_action cr sd de d q (cs_fs cs) of
        (outcome, s1) \<Rightarrow>
          (case (if pq_phase q = PC_Revoke \<and> is_ok outcome
                 then (case bond_dir_has_a_bonded_peer cr sd d s1 :: (action_error, bool) result \<times> fs of
                         (r, s2) \<Rightarrow> (r = Inr False, s2))
                 else (False, s1)) of
             (stop, s2) \<Rightarrow>
               let cs1 = cs\<lparr>cs_fs := s2, cs_sigterm := cs_sigterm cs \<or> stop\<rparr> in
               if is_ok outcome
               then (True, if pq_phase q = PC_Promote \<and> de_reload_open de then cs1\<lparr>cs_reloads := Suc (cs_reloads cs1)\<rparr> else cs1)
               else (False, cs1)))"

text \<open>The requests are handled one at a time, in the order in which they were sent.\<close>

primrec pair_commit_consumer ::
    "crypto \<Rightarrow> serde \<Rightarrow> daemon_env \<Rightarrow> path \<Rightarrow> pair_commit_request list \<Rightarrow> consumer \<Rightarrow> bool list \<times> consumer" where
  "pair_commit_consumer cr sd de d [] cs = ([], cs)"
| "pair_commit_consumer cr sd de d (q # qs) cs =
     (case commit_step cr sd de d q cs of
        (ok, cs1) \<Rightarrow> (case pair_commit_consumer cr sd de d qs cs1 of (oks, cs2) \<Rightarrow> (ok # oks, cs2)))"

subsection \<open>The start of the orchestrator\<close>

datatype runtime_key_error = Run_Key_Read io_error | Run_Key_Length nat

definition runtime_load_bond_key :: "path \<Rightarrow> string \<Rightarrow> (runtime_key_error, bytes) prog" where
  "runtime_load_bond_key kd pid =
     io_bind (io_map_err Run_Key_Read (fs_read (path_join kd (pid @ ''.bin'')))) (\<lambda>bs.
     if length bs \<noteq> 32 then io_fail (Run_Key_Length (length bs)) else io_return bs)"

text \<open>The attempts to open the adapter: success, or a failure after which the wait of five seconds
  passes or ends with the daemon's shutdown. Past the end of the list the daemon is shut down.\<close>

datatype adapter_attempt = Adapter_Ready persistent_peripheral | Adapter_Retry | Adapter_Shutdown

fun open_adapter :: "adapter_attempt list \<Rightarrow> persistent_peripheral option" where
  "open_adapter (Adapter_Ready p # as) = Some p"
| "open_adapter (Adapter_Retry # as) = open_adapter as"
| "open_adapter _ = None"

record runtime_config =
  rc_bonds_file :: path
  rc_keys_dir :: path

text \<open>\<open>log\<close> is the outcome of opening the audit log. The second component of the result is whether the
  commit consumer runs.\<close>

definition maybe_spawn_orchestrator ::
    "crypto \<Rightarrow> serde \<Rightarrow> runtime_config \<Rightarrow> adapter_attempt list \<Rightarrow> audit_log option \<Rightarrow> fs \<Rightarrow> (orchestrator \<times> bool) option \<times> fs" where
  "maybe_spawn_orchestrator cr sd cfg attempts log s =
     (case store_load cr sd (rc_bonds_file cfg) s of
        (Inl e, s1) \<Rightarrow> (None, s1)
      | (Inr bs, s1) \<Rightarrow>
          (case open_adapter attempts of
             None \<Rightarrow> (None, s1)
           | Some p \<Rightarrow>
               let seeded = (case find (\<lambda>b. bond_status b = Bond_Bonded) bs of
                     None \<Rightarrow> (Some (p, []), s1)
                   | Some b \<Rightarrow>
                       (case runtime_load_bond_key (rc_keys_dir cfg) (bond_peer_id b) s1 of
                          (Inr k, s2) \<Rightarrow>
                            (case pp_add_peer cr (bond_peer_id b) k p of
                               (Inl e, p1) \<Rightarrow> (None, s2)
                             | (Inr u, p1) \<Rightarrow> (Some (p1, [(b, k)]), s2))
                        | (Inl e, s2) \<Rightarrow> (Some (p, []), s2)))
               in (case seeded of
                     (None, s2) \<Rightarrow> (None, s2)
                   | (Some (p1, seeds), s2) \<Rightarrow>
                       (Some (set_exit_when_empty (with_peers_and_audit p1 seeds (rc_bonds_file cfg) (rc_keys_dir cfg) log) True,
                          path_parent (rc_bonds_file cfg) \<noteq> None), s2))))"

subsection \<open>Signals\<close>

datatype shutdown_reason = Sigterm | Sigint

text \<open>Each entry is the set of signals that are ready when the \<open>select\<close> wakes, and whether a reload
  channel has been published by then; the number counts the reload commands sent. \<open>None\<close>: no
  terminating signal in the script.\<close>

record ready_signals =
  rs_term :: bool
  rs_int :: bool
  rs_hup :: bool
  rs_backend :: bool

fun wait_for_reason :: "ready_signals list \<Rightarrow> nat \<Rightarrow> (shutdown_reason option \<times> nat)" where
  "wait_for_reason [] reloads = (None, reloads)"
| "wait_for_reason (w # ws) reloads =
     (if rs_term w then (Some Sigterm, reloads)
      else if rs_int w then (Some Sigint, reloads)
      else wait_for_reason ws (if rs_hup w \<and> rs_backend w then Suc reloads else reloads))"

subsection \<open>The pair-session listener\<close>

text \<open>The body of the task the listener spawns for a connection, split where it waits for the client:
  acquire the agent on connecting (and give up when that fails), release it when the read returns.
  The state has the clients that are waiting, the lease and the adapter.\<close>

record ('h, 'a) session_listener =
  sl_waiting :: "nat list"
  sl_lease :: "'h pair_agent_session"
  sl_adapter :: 'a

datatype 'h session_event =
    Session_Open nat "(string, 'h) result"
  | Session_Closed nat

primrec session_step :: "'a pairable_control \<Rightarrow> ('h, 'a) session_listener \<Rightarrow> 'h session_event \<Rightarrow> ('h, 'a) session_listener" where
  "session_step pc sl (Session_Open c register) =
     (case acquire_pair_agent_with pc register (sl_lease sl) (sl_adapter sl) of
        (Inl e, lease, a) \<Rightarrow> sl\<lparr>sl_lease := lease, sl_adapter := a\<rparr>
      | (Inr u, lease, a) \<Rightarrow> sl\<lparr>sl_waiting := c # sl_waiting sl, sl_lease := lease, sl_adapter := a\<rparr>)"
| "session_step pc sl (Session_Closed c) =
     (if c \<in> set (sl_waiting sl) then
        (case release_pair_agent_with pc (sl_lease sl) (sl_adapter sl) of
           (lease, a) \<Rightarrow> sl\<lparr>sl_waiting := remove1 c (sl_waiting sl), sl_lease := lease, sl_adapter := a\<rparr>)
      else sl)"

text \<open>The lease is shared by all connections and not counted: the first client that disconnects releases
  it, whoever else is still waiting.\<close>

lemma first_disconnect_releases:
  assumes "c \<in> set (sl_waiting sl)"
  shows "\<not> is_held (sl_lease (session_step pc sl (Session_Closed c))) \<and>
    sl_waiting (session_step pc sl (Session_Closed c)) = remove1 c (sl_waiting sl)"
  using assms by (auto simp: release_pair_agent_with_def agent_end_def is_held_def split: prod.splits option.splits)

subsection \<open>The files during an attempt\<close>

text \<open>What holds of the files, given what the driver has asked for since the attempt began with the
  nodes \<open>N0\<close>, as long as no revocation has come in.\<close>

definition files_after ::
    "crypto \<Rightarrow> serde \<Rightarrow> path \<Rightarrow> bond \<Rightarrow> bytes \<Rightarrow> nodes \<Rightarrow> (pair_commit_phase \<times> bool) list \<Rightarrow> nodes \<Rightarrow> bool" where
  "files_after cr sd d b key N0 reqs N \<longleftrightarrow>
     (PC_Promote \<notin> fst ` set reqs \<longrightarrow> (\<forall>q. active_trust d q \<longrightarrow> N q = N0 q)) \<and>
     (reqs = [(PC_Stage, True)] \<or> reqs = [(PC_Stage, True), (PC_MarkCommit, True)] \<longrightarrow> staged sd d (bond_peer_id b) b key N) \<and>
     (reqs = [(PC_Stage, True), (PC_MarkCommit, True), (PC_Promote, False)] \<longrightarrow> N (bonds_path d) = N0 (bonds_path d)) \<and>
     (reqs = [(PC_Stage, True), (PC_MarkCommit, True), (PC_Promote, True)] \<longrightarrow>
        (\<exists>N1. (\<forall>q. active_trust d q \<longrightarrow> N1 q = N0 q) \<and> staged sd d (bond_peer_id b) b key N1 \<and>
           promoted cr sd d (bond_peer_id b) N1 N))"

lemma keeps_active:
  assumes "peer_name pid" "d \<noteq> []"
  shows "keeps (\<lambda>N. \<forall>q. active_trust d q \<longrightarrow> N q = N0 q) (stage sd d tid pid addr b key)"
    and "keeps (\<lambda>N. \<forall>q. active_trust d q \<longrightarrow> N q = N0 q) (mark_commit_pending d)"
    and "keeps (\<lambda>N. \<forall>q. active_trust d q \<longrightarrow> N q = N0 q) (discard d pid)"
proof -
  have "frame_on (staging_area d pid) (\<lambda>N. \<forall>q. active_trust d q \<longrightarrow> N q = N0 q)"
    using active_not_staging [OF assms(1)] by (auto simp: frame_on_def)
  then show "keeps (\<lambda>N. \<forall>q. active_trust d q \<longrightarrow> N q = N0 q) (stage sd d tid pid addr b key)"
    "keeps (\<lambda>N. \<forall>q. active_trust d q \<longrightarrow> N q = N0 q) (mark_commit_pending d)"
    "keeps (\<lambda>N. \<forall>q. active_trust d q \<longrightarrow> N q = N0 q) (discard d pid)"
    using assms by (auto intro: keeps_stage keeps_mark_commit_pending keeps_discard)
qed

lemma keeps_staged_mark:
  assumes "peer_name pid" "d \<noteq> []"
  shows "keeps (staged sd d pid b key) (mark_commit_pending d)"
proof -
  have notpre: "q \<noteq> pending_bond_path d" "q \<noteq> pending_key_path d pid" if "prefix q d" for q
    using that assms(1) prefix_length_le [OF that] by auto
  have "keeps (staged sd d pid b key) (write_journal d tid p addr st)" for tid p addr st
  proof (rule hoare_weaken [OF hoare_write_journal [of d "staged sd d pid b key"]])
    show "frame_on (\<lambda>q. q \<noteq> [] \<and> prefix q d) (staged sd d pid b key)"
      using notpre by (auto simp: frame_on_def staged_def simp del: layout layout_keys)
    show "staged sd d pid b key (N(journal_path d := v))" if "staged sd d pid b key N" for N v
      using that assms(1) by (simp add: staged_def)
  qed (use assms(2) in auto)
  then show ?thesis
    unfolding mark_commit_pending_def
    by (intro keeps_bind keeps_read_journal) (auto intro: keeps_rules split: option.split)
qed

lemma commit_step_files:
  assumes pid: "crypto_laws cr" "d \<noteq> []" and q: "pq_phase q = ph" "ph \<noteq> PC_Revoke"
    and b: "b = staged_bond cr de q" and key: "key = bond_key_from_pubkeys cr (pq_host_pubkey q) (pq_phone_pubkey q)"
    and before: "files_after cr sd d b key N0 reqs (fs_nodes (cs_fs cs))"
    and step: "commit_step cr sd de d q cs = (ok, cs')"
  shows "files_after cr sd d b key N0 (reqs @ [(ph, ok)]) (fs_nodes (cs_fs cs'))"
proof -
  define p where "p = peer_id_from_pubkey cr (pq_phone_pubkey q)"
  define s where "s = cs_fs cs"
  define act where "act = consumer_action cr sd de d q"
  have p: "peer_name p" "bond_peer_id b = p" using peer_name_from_pubkey [OF pid(1)] by (simp_all add: p_def b staged_bond_def)
  have after: "fs_nodes (cs_fs cs') = fs_nodes (snd (act s))" "ok \<longleftrightarrow> is_ok (fst (act s))"
    using step q by (auto simp: commit_step_def act_def s_def Let_def split: prod.splits if_splits)
  let ?A = "\<lambda>N. \<forall>q. active_trust d q \<longrightarrow> N q = N0 q"
  have any: "P (fs_nodes (snd (act s)))" if "keeps P act" "P (fs_nodes s)" for P by (rule hoare_any [OF that])
  have ok: "Q (fs_nodes (snd (act s)))" if "hoare P act (\<lambda>_. Q) E" "P (fs_nodes s)" ok for P Q E
    using that after(2) by (cases "act s"; cases "fst (act s)") (auto simp: hoare_def is_ok_def)
  have err: "E (fs_nodes (snd (act s)))" if "hoare P act Q (\<lambda>_. E)" "P (fs_nodes s)" "\<not> ok" for P Q E
    using that after(2) by (cases "act s"; cases "fst (act s)") (auto simp: hoare_def is_ok_def)
  have acts: "ph = PC_Stage \<Longrightarrow> act = io_map_err Act_Recovery (stage sd d (pq_transaction q) p (pq_peer q) b key)"
    "ph = PC_MarkCommit \<Longrightarrow> act = io_map_err Act_Recovery (mark_commit_pending d)"
    "ph = PC_Promote \<Longrightarrow> act = io_map_err Act_Recovery (promote cr sd d p)"
    "ph = PC_Discard \<Longrightarrow> act = discard d p"
    using q by (simp_all add: act_def consumer_action_def stage_pair_trust_def p_def b key Let_def)
  have "ph \<noteq> PC_Promote \<Longrightarrow> keeps ?A act"
    using keeps_active [OF p(1) pid(2)] q(2) acts by (cases ph) (auto intro: keeps_rules)
  then have active: "PC_Promote \<notin> fst ` set (reqs @ [(ph, ok)]) \<longrightarrow> ?A (fs_nodes (snd (act s)))"
    using before any [of ?A] by (auto simp: files_after_def s_def)
  have stage: "staged sd d p b key (fs_nodes (snd (act s)))" if "ph = PC_Stage" ok
  proof (rule ok [OF _ _ that(2)])
    show "hoare (\<lambda>_. True) act (\<lambda>_. staged sd d p b key) (\<lambda>_ _. True)"
      unfolding acts(1) [OF that(1)] hoare_map_err
      by (rule hoare_weaken [OF hoare_stage [OF p(1) pid(2)]]) auto
  qed simp
  have mark: "staged sd d p b key (fs_nodes (snd (act s)))" if "ph = PC_MarkCommit" "reqs = [(PC_Stage, True)]"
  proof (rule any)
    show "keeps (staged sd d p b key) act"
      unfolding acts(2) [OF that(1)] by (intro keeps_rules keeps_staged_mark p(1) pid(2))
    show "staged sd d p b key (fs_nodes s)" using before that by (simp add: files_after_def s_def p(2))
  qed
  have prom: "hoare (\<lambda>N. N = fs_nodes s) act (\<lambda>_. promoted cr sd d p (fs_nodes s))
      (\<lambda>_ N. N (bonds_path d) = fs_nodes s (bonds_path d))" if "ph = PC_Promote"
    unfolding acts(3) [OF that] hoare_map_err by (rule hoare_promote [OF p(1) pid(2)])
  have A: "?A (fs_nodes s)" "staged sd d p b key (fs_nodes s)" if "reqs = [(PC_Stage, True), (PC_MarkCommit, True)]"
    using before that by (auto simp: files_after_def s_def p(2))
  have "promoted cr sd d p (fs_nodes s) (fs_nodes (snd (act s)))" if "ph = PC_Promote" ok
    by (rule ok [OF prom [OF that(1)] refl that(2)])
  moreover have "fs_nodes (snd (act s)) (bonds_path d) = N0 (bonds_path d)"
    if "ph = PC_Promote" "\<not> ok" "reqs = [(PC_Stage, True), (PC_MarkCommit, True)]"
    using err [OF prom [OF that(1)] refl that(2)] A(1) [OF that(3)] by (simp add: active_trust_def)
  ultimately show ?thesis
    unfolding files_after_def after(1) p(2)
    using active stage mark A by (auto simp: append_eq_Cons_conv Cons_eq_append_conv)
qed

subsection \<open>The driver on top of the consumer\<close>

text \<open>The phone reaches the daemon only by revoking.\<close>

definition quiet_to :: "'d engine \<Rightarrow> 'd engine \<Rightarrow> bool" where
  "quiet_to en en' \<longleftrightarrow> en_requests en' = en_requests en \<and> length (en_revoked en) \<le> length (en_revoked en') \<and>
     (length (en_revoked en') = length (en_revoked en) \<longrightarrow> en_daemon en' = en_daemon en)"

lemma quiet_refl [simp]: "quiet_to en en"
  by (simp add: quiet_to_def)

lemma quiet_trans: "quiet_to a b \<Longrightarrow> quiet_to b c \<Longrightarrow> quiet_to a c"
  by (auto simp: quiet_to_def)

lemma quiet_control_frame: "quiet_to (snd s) (snd (control_frame ev f s))"
  by (auto simp: quiet_to_def control_frame_def split: sum.splits list.splits bool.splits)

lemma quiet_fold_frames: "quiet_to (snd s) (snd (fold (control_frame ev) fs s))"
proof (induction fs arbitrary: s)
  case (Cons f fs)
  show ?case unfolding fold_simps by (rule quiet_trans [OF quiet_control_frame Cons])
qed simp

lemma quiet_link_step: "quiet_to en (link_step ev e en)"
proof (cases e)
  case (Control_Write accepted rs rooms)
  then show ?thesis
    using quiet_fold_frames [of "(rooms, en)"] by (simp add: control_payload_def split: option.split)
qed (simp_all add: quiet_to_def)

lemma quiet_absorb: "quiet_to en (absorb ev es en)"
proof (induction es arbitrary: en)
  case (Cons e es)
  show ?case unfolding absorb_def fold_simps by (rule quiet_trans [OF quiet_link_step Cons [unfolded absorb_def]])
qed (simp add: absorb_def)

lemma quiet_wakes: "quiet_to en (en'\<lparr>en_wakes := ws\<rparr>) \<longleftrightarrow> quiet_to en en'"
  by (simp add: quiet_to_def)

lemma quiet_pause: "quiet_to en (pause ev en)"
  using quiet_absorb [of en ev] by (simp add: pause_def absorb_wakes quiet_wakes split: list.split prod.split)

lemma quiet_paced_loop: "quiet_to en (paced_loop ev ws late en)"
proof (induction ev ws late en rule: paced_loop.induct)
  case (1 ev ws late en)
  show ?case
  proof (cases "\<not> ps_unread (en_service en) \<or> late \<or> ws = []")
    case True
    then show ?thesis by (subst paced_loop.simps) (auto simp: quiet_to_def)
  next
    case False
    then obtain es late' ws' where ws: "ws = (es, late') # ws'" by (cases ws) auto
    have "quiet_to (absorb ev es en) (paced_loop ev ws' late' (absorb ev es en))"
      using 1 [of "(es, late')" ws' es late'] False ws by simp
    then have "quiet_to en (paced_loop ev ws' late' (absorb ev es en))" by (rule quiet_trans [OF quiet_absorb])
    then show ?thesis using False ws by (subst paced_loop.simps) simp
  qed
qed

lemma quiet_wait_loop: "quiet_to en (snd (wait_loop ev i ws late en))"
proof (induction ev i ws late en rule: wait_loop.induct)
  case (1 ev i ws late en)
  obtain t st where t: "take_message i (en_service en) = (t, st)" by force
  show ?case
  proof (cases "t = None \<and> \<not> late \<and> ws \<noteq> []")
    case True
    then obtain es late' ws' where ws: "ws = (es, late') # ws'" by (cases ws) auto
    have "quiet_to (absorb ev es en) (snd (wait_loop ev i ws' late' (absorb ev es en)))"
      using 1 [OF t [symmetric], of "(es, late')" ws' es late'] True t ws by simp
    then have "quiet_to en (snd (wait_loop ev i ws' late' (absorb ev es en)))" by (rule quiet_trans [OF quiet_absorb])
    then show ?thesis using True t ws by (subst wait_loop.simps) simp
  next
    case False
    then show ?thesis
      using t by (subst wait_loop.simps) (auto simp: quiet_to_def split: option.split list.split)
  qed
qed

text \<open>The invariant of an attempt that began with \<open>n\<close> requests, \<open>r\<close> revocations and the nodes \<open>N0\<close>.\<close>

definition files_inv ::
    "crypto \<Rightarrow> serde \<Rightarrow> path \<Rightarrow> bond \<Rightarrow> bytes \<Rightarrow> nodes \<Rightarrow> nat \<Rightarrow> nat \<Rightarrow> consumer engine \<Rightarrow> bool" where
  "files_inv cr sd d b key N0 n r en \<longleftrightarrow> n \<le> length (en_requests en) \<and> r \<le> length (en_revoked en) \<and>
     (length (en_revoked en) = r \<longrightarrow>
        files_after cr sd d b key N0 (drop n (en_requests en)) (fs_nodes (cs_fs (en_daemon en))))"

lemma files_inv_quiet: "quiet_to en en' \<Longrightarrow> files_inv cr sd d b key N0 n r en \<Longrightarrow> files_inv cr sd d b key N0 n r en'"
  unfolding files_inv_def quiet_to_def by (metis le_antisym le_trans)

lemma staged_bond_phase: "staged_bond cr de (context_request cx ph) = staged_bond cr de (context_request cx PC_Stage)"
  by (simp add: staged_bond_def context_request_def split: option.split)

lemma files_inv_request:
  assumes laws: "crypto_laws cr" "d \<noteq> []" and ev: "ev_commit ev = commit_step cr sd de d" and ph: "ph \<noteq> PC_Revoke"
    and b: "b = staged_bond cr de (context_request cx PC_Stage)"
    and key: "key = bond_key_from_pubkeys cr (cx_host_pubkey cx) (cx_phone_pubkey cx)"
  shows "stays (files_inv cr sd d b key N0 n r) (commit_request ev cx ph)"
  unfolding stays_def
proof (intro allI impI)
  fix en
  assume "files_inv cr sd d b key N0 n r en"
  then have inv: "files_inv cr sd d b key N0 n r (pause ev en)" by (rule files_inv_quiet [OF quiet_pause])
  let ?q = "context_request cx ph"
  obtain ok cs where step: "commit_step cr sd de d ?q (en_daemon (pause ev en)) = (ok, cs)" by force
  have run: "snd (commit_request ev cx ph en) =
      (pause ev en)\<lparr>en_daemon := cs, en_requests := en_requests (pause ev en) @ [(ph, ok)]\<rparr>"
    using step by (simp add: commit_request_def ev Let_def context_request_def)
  have "files_after cr sd d b key N0 (drop n (en_requests (pause ev en)) @ [(ph, ok)]) (fs_nodes (cs_fs cs))"
    if "length (en_revoked (pause ev en)) = r"
  proof (rule commit_step_files [OF laws _ ph _ _ _ step])
    show "b = staged_bond cr de ?q" by (rule trans [OF b staged_bond_phase [symmetric]])
    show "key = bond_key_from_pubkeys cr (pq_host_pubkey ?q) (pq_phone_pubkey ?q)" by (simp add: key context_request_def)
    show "files_after cr sd d b key N0 (drop n (en_requests (pause ev en))) (fs_nodes (cs_fs (en_daemon (pause ev en))))"
      using inv that by (simp add: files_inv_def)
  qed (simp add: context_request_def)
  then show "files_inv cr sd d b key N0 n r (snd (commit_request ev cx ph en))"
    using inv by (simp add: run files_inv_def)
qed

lemma stays_quiet: "(\<And>en. quiet_to en (snd (m en))) \<Longrightarrow> stays (files_inv cr sd d b key N0 n r) m"
  by (auto simp: stays_def intro: files_inv_quiet)

lemma quiet_steps:
  "quiet_to en (snd (io_do (publish_paced ev m) en))" "quiet_to en (snd (io_do (engine_publish m) en))"
  "quiet_to en (snd (io_do (local_ignored e) en))" "quiet_to en (snd (io_do (remember i) en))"
  "quiet_to en (snd (io_do (announce_bonded ev peer) en))" "quiet_to en (snd (local_or err e en))"
  "quiet_to en (snd (apply_remote i oper en))" "quiet_to en (snd (refuse i oper err en))"
  "quiet_to en (snd (request_oob ev cx en))" "quiet_to en (snd (wait_for_operation_within ev i en))"
proof -
  show "quiet_to en (snd (io_do (publish_paced ev m) en))"
    using quiet_paced_loop [of en ev "en_wakes en" False]
    by (simp add: io_do_def publish_paced_def engine_publish_def quiet_to_def)
  show "quiet_to en (snd (wait_for_operation_within ev i en))"
    by (simp add: wait_for_operation_within_def quiet_wait_loop)
  show "quiet_to en (snd (request_oob ev cx en))"
    using quiet_pause [of en ev] by (simp add: request_oob_def Let_def quiet_to_def split: prod.split)
qed (simp_all add: io_do_def engine_publish_def local_ignored_def remember_def announce_bonded_def local_or_def
    apply_remote_def refuse_def quiet_to_def split: prod.split)

lemma drive_files:
  assumes laws: "crypto_laws cr" "d \<noteq> []" and ev: "ev_commit ev = commit_step cr sd de d" "ev_random ev = Some i"
    and cx: "cx = \<lparr>cx_transaction_id = i, cx_host_pubkey = ps_host_pubkey (en_service en), cx_phone_pubkey = pk, cx_peer = peer\<rparr>"
    and b: "b = staged_bond cr de (context_request cx PC_Stage)"
    and key: "key = bond_key_from_pubkeys cr (cx_host_pubkey cx) (cx_phone_pubkey cx)"
    and inv: "files_inv cr sd d b key N0 n r en"
  shows "files_inv cr sd d b key N0 n r (snd (drive_pair_transaction ev pk peer en))"
proof -
  note requests = files_inv_request [OF laws ev(1) _ b key]
  note defs = drive_capability_def drive_confirm_def drive_staging_def drive_prepared_def drive_mark_def drive_commit_def
    drive_committed_def expect_or_discard_def abort_with_discard_def wait_for_operation_def Let_def
  have "stays (files_inv cr sd d b key N0 n r)
     (io_bind (drive_capability ev cx) (\<lambda>_. io_bind (drive_confirm ev cx) (\<lambda>_. io_bind (drive_staging ev cx) (\<lambda>_.
      io_bind (drive_prepared ev cx) (\<lambda>_. io_bind (drive_mark ev cx) (\<lambda>_. io_bind (drive_commit ev cx) (\<lambda>_.
      drive_committed ev cx)))))))"
    unfolding defs
    by (intro stays_bind stays_simple stays_case_sum requests stays_quiet [OF quiet_steps(1)]
        stays_quiet [OF quiet_steps(2)] stays_quiet [OF quiet_steps(3)] stays_quiet [OF quiet_steps(4)]
        stays_quiet [OF quiet_steps(5)] stays_quiet [OF quiet_steps(6)] stays_quiet [OF quiet_steps(7)]
        stays_quiet [OF quiet_steps(8)] stays_quiet [OF quiet_steps(9)] stays_quiet [OF quiet_steps(10)])
       simp_all
  moreover have "files_inv cr sd d b key N0 n r (en\<lparr>en_tx := tx_new i Coordinator\<rparr>)"
    using inv by (simp add: files_inv_def)
  ultimately show ?thesis
    by (simp add: drive_pair_transaction_def ev(2) stays_def Let_def cx)
qed

lemma attempt_files:
  assumes "crypto_laws cr" "d \<noteq> []" "ev_commit ev = commit_step cr sd de d" "ev_random ev = Some i"
    and "cx = \<lparr>cx_transaction_id = i, cx_host_pubkey = ps_host_pubkey (en_service en), cx_phone_pubkey = pk,
      cx_peer = peer_label address\<rparr>"
    and "run_pair_attempt ev pk address en = (r, en')" "en_revoked en' = en_revoked en"
  shows "\<exists>reqs. en_requests en' = en_requests en @ reqs \<and>
    files_after cr sd d (staged_bond cr de (context_request cx PC_Stage))
      (bond_key_from_pubkeys cr (cx_host_pubkey cx) (cx_phone_pubkey cx)) (fs_nodes (cs_fs (en_daemon en))) reqs
      (fs_nodes (cs_fs (en_daemon en'))) \<and>
    attempt_outcome (user_accepts ev cx (en_broker en)) r reqs (drop (length (en_received en)) (en_received en')) (tx_phase (en_tx en'))"
proof -
  define en0 where "en0 = en\<lparr>en_service := begin_session (en_service en)\<rparr>"
  have drive: "drive_pair_transaction ev pk (peer_label address) en0 = (r, en')"
    using assms(6) by (simp add: run_pair_attempt_def en0_def)
  have cx: "cx = \<lparr>cx_transaction_id = i, cx_host_pubkey = ps_host_pubkey (en_service en0), cx_phone_pubkey = pk,
      cx_peer = peer_label address\<rparr>"
    by (simp add: assms(5) en0_def begin_session_def)
  let ?inv = "files_inv cr sd d (staged_bond cr de (context_request cx PC_Stage))
    (bond_key_from_pubkeys cr (cx_host_pubkey cx) (cx_phone_pubkey cx)) (fs_nodes (cs_fs (en_daemon en)))
    (length (en_requests en)) (length (en_revoked en))"
  have "?inv en0" by (simp add: files_inv_def files_after_def en0_def)
  from drive_files [OF assms(1-4) cx refl refl this] drive
  have inv: "?inv en'" by simp
  have "outcome_from en0 (user_accepts ev cx (en_broker en0)) r en'"
    using drive_outcome [OF assms(4) cx] drive by simp
  then obtain reqs recv where "en_requests en' = en_requests en @ reqs" "en_received en' = en_received en @ recv"
    "attempt_outcome (user_accepts ev cx (en_broker en)) r reqs recv (tx_phase (en_tx en'))"
    by (auto simp: outcome_from_def en0_def)
  then show ?thesis using inv assms(7) by (auto simp: files_inv_def)
qed

subsection \<open>Revocation on disk\<close>

definition revoked_to :: "crypto \<Rightarrow> serde \<Rightarrow> path \<Rightarrow> string \<Rightarrow> nodes \<Rightarrow> nodes \<Rightarrow> bool" where
  "revoked_to cr sd d pid N0 N \<longleftrightarrow>
     (\<exists>bs bs' c. store_at cr sd N0 (bonds_path d) bs \<and>
        store_mark_revoked bs pid ''phone: device dissociated'' = Inr bs' \<and> serialize_to_toml sd bs' = Inr c \<and>
        N (bonds_path d) = Some (File c BOND_FILE_MODE)) \<and>
     (\<forall>p. peer_name p \<and> p \<noteq> pid \<longrightarrow> N (active_key_path d p) = N0 (active_key_path d p))"

lemma scratch_keeps_trust:
  assumes "peer_name pid" "same_but (promote_scratch d pid) N0 N" "active_trust d q"
  shows "N q = N0 q"
proof -
  have "\<not> promote_scratch d pid q"
    using assms(3) promote_scratch_not(1,4) [OF assms(1)] unfolding active_trust_def by blast
  then show ?thesis using assms(2) unfolding same_but_def by blast
qed

lemma revoked_to_saved:
  assumes pid: "peer_name pid" and "store_at cr sd N0 (bonds_path d) bs"
    and "store_mark_revoked bs pid ''phone: device dissociated'' = Inr bs'" "serialize_to_toml sd bs' = Inr c"
    and same: "same_but (promote_scratch d pid) N0 N"
  shows "revoked_to cr sd d pid N0 (N(bonds_path d \<mapsto> File c BOND_FILE_MODE))"
proof -
  have "(N(bonds_path d \<mapsto> File c BOND_FILE_MODE)) (active_key_path d p) = N0 (active_key_path d p)"
    if "peer_name p" for p
    using scratch_keeps_trust [OF pid same, of "active_key_path d p"] that not_sym [OF bonds_not_key [OF that, of d]]
    by (auto simp: active_trust_def simp del: layout layout_keys)
  moreover have "(N(bonds_path d \<mapsto> File c BOND_FILE_MODE)) (bonds_path d) = Some (File c BOND_FILE_MODE)" by simp
  ultimately show ?thesis using assms(2-4) unfolding revoked_to_def by blast
qed

lemma revoked_to_saving:
  assumes pid: "peer_name pid" and d: "d \<noteq> []" and "store_at cr sd N0 (bonds_path d) bs"
    and "store_mark_revoked bs pid ''phone: device dissociated'' = Inr bs'"
  shows "hoare (same_but (promote_scratch d pid) N0) (store_save sd bs' (bonds_path d))
    (\<lambda>_. revoked_to cr sd d pid N0) (\<lambda>_. same_but (promote_scratch d pid) N0)"
proof (rule hoare_store_save)
  show "same_but (promote_scratch d pid) N0 (N(q := v))"
    if "same_but (promote_scratch d pid) N0 N" "q \<noteq> []" "prefix q (butlast (bonds_path d))" for N q v
    using that by (intro same_but_update) (auto simp: promote_scratch_def)
  show "same_but (promote_scratch d pid) N0 (N(butlast (bonds_path d) @ [temp_name r] := v))"
    if "same_but (promote_scratch d pid) N0 N" for N r v
    using that by (intro same_but_update) (auto simp: promote_scratch_def)
  show "revoked_to cr sd d pid N0 (N(bonds_path d \<mapsto> File c BOND_FILE_MODE))"
    if "same_but (promote_scratch d pid) N0 N" "serialize_to_toml sd bs' = Inr c" for N c
    using that by (intro revoked_to_saved [OF pid assms(3,4)])
qed (use d in simp)

lemma revoked_to_removing:
  assumes pid: "peer_name pid"
  shows "hoare (revoked_to cr sd d pid N0) (io_ignore (fs_remove_file (active_key_path d pid)))
    (\<lambda>_. revoked_to cr sd d pid N0) E"
proof (rule hoare_ignore, rule keeps_writes(3))
  have other: "active_key_path d p \<noteq> active_key_path d pid" if "peer_name p" "p \<noteq> pid" for p
    using that pid by simp
  show "frame_on (\<lambda>q. q = active_key_path d pid) (revoked_to cr sd d pid N0)"
    unfolding frame_on_def revoked_to_def
    by (simp add: bonds_not_key [OF pid] other del: layout layout_keys)
qed simp

abbreviation trust_kept :: "path \<Rightarrow> nodes \<Rightarrow> action_error \<Rightarrow> nodes \<Rightarrow> bool" where
  "trust_kept d N0 e N \<equiv> \<forall>q. active_trust d q \<longrightarrow> N q = N0 q"

lemma revoked_to_marking:
  assumes pid: "peer_name pid" and d: "d \<noteq> []"
  shows "hoare (\<lambda>N. N = N0 \<and> store_at cr sd N0 (bonds_path d) bs)
      (io_bind (io_map_err Act_Bond (io_lift (store_mark_revoked bs pid ''phone: device dissociated''))) (\<lambda>bs'.
       io_bind (io_map_err Act_Bond (store_save sd bs' (bonds_path d))) (\<lambda>_.
       io_ignore (fs_remove_file (active_key_path d pid)))))
      (\<lambda>_. revoked_to cr sd d pid N0) (trust_kept d N0)"
proof (rule hoare_bind)
  show "hoare (\<lambda>N. N = N0 \<and> store_at cr sd N0 (bonds_path d) bs)
      (io_map_err Act_Bond (io_lift (store_mark_revoked bs pid ''phone: device dissociated'')))
      (\<lambda>bs' N. N = N0 \<and> (store_at cr sd N0 (bonds_path d) bs \<and>
        store_mark_revoked bs pid ''phone: device dissociated'' = Inr bs')) (trust_kept d N0)"
    unfolding hoare_map_err by (rule hoare_lift) auto
  show "hoare (\<lambda>N. N = N0 \<and> (store_at cr sd N0 (bonds_path d) bs \<and>
        store_mark_revoked bs pid ''phone: device dissociated'' = Inr bs'))
      (io_bind (io_map_err Act_Bond (store_save sd bs' (bonds_path d))) (\<lambda>_.
       io_ignore (fs_remove_file (active_key_path d pid)))) (\<lambda>_. revoked_to cr sd d pid N0) (trust_kept d N0)" for bs'
  proof (rule hoare_bind [OF _ revoked_to_removing [OF pid]], rule hoare_pure, unfold hoare_map_err)
    assume "store_at cr sd N0 (bonds_path d) bs \<and> store_mark_revoked bs pid ''phone: device dissociated'' = Inr bs'"
    then have "hoare (same_but (promote_scratch d pid) N0) (store_save sd bs' (bonds_path d))
      (\<lambda>_. revoked_to cr sd d pid N0) (\<lambda>_. same_but (promote_scratch d pid) N0)"
      by (elim conjE) (rule revoked_to_saving [OF pid d])
    then show "hoare (\<lambda>N. N = N0) (store_save sd bs' (bonds_path d)) (\<lambda>_. revoked_to cr sd d pid N0)
        (\<lambda>e. trust_kept d N0 (Act_Bond e))"
      by (rule hoare_weaken) (use scratch_keeps_trust [OF pid] in \<open>auto simp: same_but_def\<close>)
  qed
qed

lemma hoare_revoke:
  assumes pid: "peer_name pid" and d: "d \<noteq> []"
  shows "hoare (\<lambda>N. N = N0) (revoke_bond_by_peer_id cr sd d pid) (\<lambda>_. revoked_to cr sd d pid N0) (trust_kept d N0)"
proof -
  have path: "path_join d ''bonds.toml'' = bonds_path d" by (simp add: plain_name_def)
  have load: "hoare (\<lambda>N. N = N0) (io_map_err Act_Bond (store_load cr sd (bonds_path d)))
      (\<lambda>bs N. N = N0 \<and> store_at cr sd N0 (bonds_path d) bs) (trust_kept d N0)"
    unfolding hoare_map_err by (rule hoare_weaken [OF hoare_store_load [where P = "\<lambda>N. N = N0"]]) auto
  have fail: "hoare (\<lambda>N. N = N0 \<and> store_at cr sd N0 (bonds_path d) bs) (io_fail e) (\<lambda>_. revoked_to cr sd d pid N0)
    (trust_kept d N0)" for bs e
    by (rule hoare_fail) simp
  show ?thesis
    unfolding revoke_bond_by_peer_id_def Let_def path
    by (rule hoare_bind [OF load], split if_split, intro conjI impI fail revoked_to_marking [OF pid d])
qed

subsection \<open>A run on a fresh file system\<close>

definition sample_daemon :: daemon_env where
  "sample_daemon = \<lparr>de_now = 0, de_display_name = (\<lambda>_. Some ''phone''), de_reload_open = True\<rparr>"

definition sample_env :: "consumer engine_env" where
  "sample_env = \<lparr>ev_random = Some (replicate 16 7), ev_commit = commit_step padding_crypto sample_serde sample_daemon [''var''],
     ev_gui = \<lparr>ge_send_ok = True, ge_calls = (\<lambda>_. [])\<rparr>, ev_socket = agreeable_socket\<rparr>"

definition sample_consumer :: consumer where
  "sample_consumer = \<lparr>cs_fs = fresh_fs, cs_reloads = 0, cs_sigterm = False\<rparr>"

definition sample_engine :: "wake list \<Rightarrow> consumer engine" where
  "sample_engine ws = \<lparr>en_service = ps_new (replicate 32 1) [], en_broker = broker_new, en_daemon = sample_consumer,
     en_tx = tx_new [] Coordinator, en_wakes = ws, en_requests = [], en_revoked = [], en_received = [], en_notices = []\<rparr>"

definition sample_context :: pair_commit_context where
  "sample_context = \<lparr>cx_transaction_id = replicate 16 7, cx_host_pubkey = replicate 32 1, cx_phone_pubkey = replicate 32 1,
     cx_peer = ''AA''\<rparr>"

definition sample_step :: "pair_commit_phase \<Rightarrow> consumer \<Rightarrow> bool \<times> consumer" where
  "sample_step ph = commit_step padding_crypto sample_serde sample_daemon [''var''] (context_request sample_context ph)"

abbreviation sample_pid :: string where "sample_pid \<equiv> hex_encode (replicate 16 1)"

definition sample_journal :: "journal_state \<Rightarrow> string" where
  "sample_journal st = journal_text (replicate 16 7) sample_pid ''AA'' st"

definition after_stage :: fs where
  "after_stage = snd (stage sample_serde [''var''] (replicate 16 7) sample_pid ''AA'' sample_bond (replicate 32 1) fresh_fs)"

definition after_mark :: "u32 \<Rightarrow> fs" where
  "after_mark m = after_stage\<lparr>fs_nodes := (fs_nodes after_stage)([''var''] \<mapsto> Dir 0x1C0,
     journal_path [''var''] \<mapsto> File (string_bytes (sample_journal J_CommitPending)) m)\<rparr>"

lemma sample_stage_runs:
  "is_ok (fst (stage sample_serde [''var''] (replicate 16 7) sample_pid ''AA'' sample_bond (replicate 32 1) fresh_fs)) \<and>
   \<not> fs_down after_stage \<and> fs_faults after_stage = [] \<and> fs_nodes after_stage [''var''] = Some (Dir 0x1C0)"
  by code_simp

lemma sample_promote_runs: "is_ok (fst (promote padding_crypto sample_serde [''var''] sample_pid (after_mark m)))"
  by code_simp

lemma sample_mark_runs: "\<exists>m. mark_commit_pending [''var''] after_stage = (Inr (), after_mark m)"
proof -
  obtain m where j: "fs_nodes after_stage (journal_path [''var'']) =
      Some (File (string_bytes (sample_journal J_PreCommit)) m)"
    using hoare_ok [OF hoare_stage [OF peer_name_hex, of "replicate 16 1" "[''var'']" sample_serde "replicate 16 7" "''AA''"
          sample_bond "replicate 32 1"], of fresh_fs "()" after_stage] sample_stage_runs
    by (cases "stage sample_serde [''var''] (replicate 16 7) sample_pid ''AA'' sample_bond (replicate 32 1) fresh_fs")
       (auto simp: is_ok_iff after_stage_def sample_journal_def)
  have calm: "calm after_stage" using sample_stage_runs by (simp add: calm_def)
  have safe: "line_safe sample_pid" "line_safe ''AA''" by (simp, simp add: line_safe_def)
  have "string_ok (sample_journal J_PreCommit)"
    unfolding sample_journal_def journal_text_def by (simp add: string_ok_def) code_simp
  then have "read_journal [''var''] after_stage = (Inr (Some \<lparr>jr_transaction = replicate 16 7, jr_peer_id = sample_pid,
      jr_peer_address = ''AA'', jr_state = J_PreCommit\<rparr>), after_stage)"
    using fs_read_to_string_calm [OF calm j]
      parse_journal_lines [OF lines_journal_text [OF safe], of "replicate 16 7" J_PreCommit]
    by (simp add: read_journal_def io_bind_def io_try_def io_lift_def sample_journal_def)
  then have "mark_commit_pending [''var''] after_stage =
      write_journal [''var''] (replicate 16 7) sample_pid ''AA'' J_CommitPending after_stage"
    by (simp add: mark_commit_pending_def io_bind_def)
  also have "\<dots> = (Inr (), after_mark m)"
    using calm j sample_stage_runs
    by (simp add: write_journal_def fs_eval io_call_def calm_def after_mark_def sample_journal_def)
  finally show ?thesis by blast
qed

lemma sample_request:
  "staged_bond padding_crypto sample_daemon (context_request sample_context ph) = sample_bond"
  "bond_key_from_pubkeys padding_crypto (replicate 32 1) (replicate 32 1) = replicate 32 1"
  "peer_id_from_pubkey padding_crypto (replicate 32 1) = sample_pid"
proof -
  show "peer_id_from_pubkey padding_crypto (replicate 32 1) = sample_pid"
    "bond_key_from_pubkeys padding_crypto (replicate 32 1) (replicate 32 1) = replicate 32 1" by code_simp+
  then show "staged_bond padding_crypto sample_daemon (context_request sample_context ph) = sample_bond"
    by (simp add: staged_bond_def context_request_def sample_context_def sample_daemon_def sample_bond_def)
qed

lemma sample_steps:
  "\<exists>d1 d2 d3. sample_step PC_Stage sample_consumer = (True, d1) \<and> sample_step PC_MarkCommit d1 = (True, d2) \<and>
     sample_step PC_Promote d2 = (True, d3)"
proof -
  obtain m where m: "mark_commit_pending [''var''] after_stage = (Inr (), after_mark m)" using sample_mark_runs by blast
  note defs = sample_step_def commit_step_def consumer_action_def stage_pair_trust_def Let_def context_request_def
    sample_context_def io_map_err_def
  have "stage sample_serde [''var''] (replicate 16 7) sample_pid ''AA'' sample_bond (replicate 32 1) fresh_fs = (Inr (), after_stage)"
    using sample_stage_runs unfolding after_stage_def
    by (cases "stage sample_serde [''var''] (replicate 16 7) sample_pid ''AA'' sample_bond (replicate 32 1) fresh_fs")
       (auto simp: is_ok_iff)
  then have "sample_step PC_Stage sample_consumer = (True, sample_consumer\<lparr>cs_fs := after_stage\<rparr>)"
    using sample_request by (simp add: defs sample_consumer_def)
  moreover have "sample_step PC_MarkCommit (sample_consumer\<lparr>cs_fs := after_stage\<rparr>) = (True, sample_consumer\<lparr>cs_fs := after_mark m\<rparr>)"
    using m by (simp add: defs sample_consumer_def)
  moreover have "fst (sample_step PC_Promote (sample_consumer\<lparr>cs_fs := after_mark m\<rparr>))"
    using sample_promote_runs [of m] sample_request(3)
    by (simp add: defs sample_consumer_def split: prod.split sum.splits) (auto simp: is_ok_iff)
  ultimately show ?thesis by (metis prod.collapse)
qed

lemma sample_run:
  "\<exists>en'. run_pair_attempt sample_env (replicate 32 1) ''aa'' (sample_engine (whole_exchange (replicate 16 7))) = (Inr (), en') \<and>
     en_revoked en' = []"
proof -
  obtain d1 d2 d3 where steps: "sample_step PC_Stage sample_consumer = (True, d1)" "sample_step PC_MarkCommit d1 = (True, d2)"
    "sample_step PC_Promote d2 = (True, d3)"
    using sample_steps by blast
  have "peer_label ''aa'' = ''AA''" by code_simp
  then have "case run_pair_attempt sample_env (replicate 32 1) ''aa'' (sample_engine (whole_exchange (replicate 16 7))) of (r, en') \<Rightarrow>
      r = Inr () \<and> en_revoked en' = en_revoked (sample_engine (whole_exchange (replicate 16 7)))"
    using honest_pairing_run [where ev = sample_env and i = "replicate 16 7" and ws = "[]" and address = "''aa''"
        and en = "sample_engine (whole_exchange (replicate 16 7))" and pk = "replicate 32 1" and cx = sample_context
        and ?d1.0 = d1 and ?d2.0 = d2 and ?d3.0 = d3]
      agreeable_accepts steps
    by (simp add: sample_env_def sample_engine_def ps_new_def sample_context_def [symmetric] sample_step_def case_prod_beta)
  then show ?thesis by (auto simp: sample_engine_def)
qed

subsection \<open>Properties\<close>

text \<open>C4: a pairing that fails leaves the trust as it was. Whatever the phone, the user and the disk do, at
  every schedule of I/O errors and every crash point: when an attempt does not end in success and no
  revocation came in meanwhile, the bond store is exactly the one from before, and so is every key,
  unless the attempt got as far as asking for the promotion (which may have installed the key of the
  phone before it failed).\<close>

theorem failed_pairing_keeps_trust:
  assumes "crypto_laws cr" "d \<noteq> []" "ev_commit ev = commit_step cr sd de d"
    and "run_pair_attempt ev pk address en = (r, en')" "r \<noteq> Inr ()" "en_revoked en' = en_revoked en"
  shows "fs_nodes (cs_fs (en_daemon en')) (bonds_path d) = fs_nodes (cs_fs (en_daemon en)) (bonds_path d) \<and>
    ((PC_Promote, False) \<in> set (drop (length (en_requests en)) (en_requests en')) \<or>
     (\<forall>q. active_trust d q \<longrightarrow> fs_nodes (cs_fs (en_daemon en')) q = fs_nodes (cs_fs (en_daemon en)) q))"
proof (cases "ev_random ev")
  case None
  then have "en_daemon en' = en_daemon en"
    using assms(4) by (auto simp: run_pair_attempt_def drive_pair_transaction_def)
  then show ?thesis by simp
next
  case (Some i)
  define cx where "cx = \<lparr>cx_transaction_id = i, cx_host_pubkey = ps_host_pubkey (en_service en), cx_phone_pubkey = pk,
      cx_peer = peer_label address\<rparr>"
  obtain reqs acc recv ph b key where f: "en_requests en' = en_requests en @ reqs"
    "files_after cr sd d b key (fs_nodes (cs_fs (en_daemon en))) reqs (fs_nodes (cs_fs (en_daemon en')))"
    "attempt_outcome acc r reqs recv ph"
    using attempt_files [OF assms(1-3) Some cx_def assms(4,6)] by blast
  obtain e where e: "r = Inl e" using assms(5) by (cases r) auto
  have "PC_Promote \<notin> fst ` set reqs \<or> reqs = [(PC_Stage, True), (PC_MarkCommit, True), (PC_Promote, False)]"
    using f(3) unfolding e by (cases e) auto
  then show ?thesis
    using f(1,2) by (auto simp: files_after_def active_trust_def)
qed

theorem failed_pairing_keeps_trust_witness:
  "fs_nodes (cs_fs (en_daemon (snd (run_pair_attempt sample_env (replicate 32 1) ''aa'' (sample_engine []))))) (bonds_path [''var'']) = None"
proof -
  have "run_pair_attempt sample_env (replicate 32 1) ''aa'' (sample_engine []) =
      (Inl PE_Aborted, snd (run_pair_attempt sample_env (replicate 32 1) ''aa'' (sample_engine []))) \<and>
      en_revoked (snd (run_pair_attempt sample_env (replicate 32 1) ''aa'' (sample_engine []))) = []"
    by (simp add: run_pair_attempt_def begin_session_def sample_env_def sample_engine_def ps_new_def drive_eval wait_silence)
  then show ?thesis
    using failed_pairing_keeps_trust [OF padding_crypto_laws, of "[''var'']" sample_env sample_serde sample_daemon "replicate 32 1" "''aa''"
        "sample_engine []" "Inl PE_Aborted"]
    by (simp add: sample_env_def) (simp add: sample_engine_def sample_consumer_def fresh_fs_def)
qed





end
