(* ===== verification/Orchestrator_Reload.thy ===== *)
theory Orchestrator_Reload
  imports Orchestrator
begin

section \<open>Reload of the bonds and concurrent challenges\<close>

text \<open>
  What a reload does to the live peers whatever BlueZ answers, and what the single-permit semaphore
  guarantees when challenges interleave with each other and with reloads.
\<close>

subsection \<open>Reload\<close>

definition live :: "orchestrator \<Rightarrow> string set" where
  "live oc = fst ` set (oc_peers oc)"

definition oc_wf :: "orchestrator \<Rightarrow> bool" where
  "oc_wf oc \<longleftrightarrow> distinct (map fst (oc_peers oc)) \<and> dom (pp_peers (oc_peripheral oc)) = live oc \<and> cells_ok oc"

text \<open>What no delivery changes: which peers the radio knows, and that BlueZ accepts every registration
  when it does so from now on.\<close>

definition radio_keeps :: "persistent_peripheral \<Rightarrow> persistent_peripheral \<Rightarrow> bool" where
  "radio_keeps p p' \<longleftrightarrow> dom (pp_peers p') = dom (pp_peers p) \<and> (pp_serve p = [] \<longrightarrow> pp_serve p' = [])"

lemma radio_keeps_refl [simp]: "radio_keeps p p"
  by (simp add: radio_keeps_def)

lemma radio_keeps_trans: "radio_keeps p q \<Longrightarrow> radio_keeps q r \<Longrightarrow> radio_keeps p r"
  by (simp add: radio_keeps_def)

lemma radio_keeps_with_peer [simp]: "radio_keeps p (with_peer pid f p)"
  by (auto simp: radio_keeps_def with_peer_def split: if_splits)

lemma register_peer_keeps:
  "build_and_register_peer cr k p = (r, p') \<Longrightarrow>
     pp_peers p' = pp_peers p \<and> (pp_serve p = [] \<longrightarrow> pp_serve p' = [] \<and> (\<forall>e. r \<noteq> Inl e))"
  by (auto simp: build_and_register_peer_def serve_gatt_application_def split: list.splits sum.splits)

lemma rebuild_keeps:
  assumes "rebuild_peer_registration cr pid p = (r, p')"
  shows "radio_keeps p p'"
proof (cases "pp_peers p pid")
  case (Some cs)
  let ?q = "p\<lparr>pp_peers := (pp_peers p)(pid \<mapsto> cs\<lparr>pc_task := False\<rparr>), pp_app := None\<rparr>"
  obtain r1 p1 where reg: "build_and_register_peer cr (pc_bond_key cs) ?q = (r1, p1)" by fastforce
  with assms Some have "p' = p1 \<or> (\<exists>cs'. p' = p1\<lparr>pp_peers := (pp_peers p1)(pid \<mapsto> cs')\<rparr>)"
    by (auto simp: rebuild_peer_registration_def split: sum.splits)
  with register_peer_keeps [OF reg] Some show ?thesis by (auto simp: radio_keeps_def split: if_splits)
qed (use assms in \<open>simp add: rebuild_peer_registration_def\<close>)

lemma notify_retry_keeps:
  "notify_retry cr dl pid bs p = (r, sent, p') \<Longrightarrow> radio_keeps p p'"
  by (auto simp: notify_retry_def Let_def split: prod.splits sum.splits if_splits option.splits
      intro: radio_keeps_trans [OF rebuild_keeps] dest: rebuild_keeps)

lemma notify_keeps:
  assumes "pp_notify_challenge cr dl pid bs p = (r, sent, p')"
  shows "radio_keeps p p'"
proof -
  consider "p' = p" | f where "p' = with_peer pid f p"
    | f where "notify_retry cr dl pid bs (with_peer pid f p) = (r, sent, p')"
    | f g where "notify_retry cr dl pid bs (with_peer pid g (with_peer pid f p)) = (r, sent, p')"
    using assms by (auto simp: pp_notify_challenge_def Let_def split: option.splits sum.splits if_splits)
  then show ?thesis
    by cases (simp_all, (blast intro: radio_keeps_trans radio_keeps_with_peer notify_retry_keeps)+)
qed

lemma revoke_notice_keeps [simp]:
  "oc_peers (revoke_notice cr hx dl pid oc) = oc_peers oc"
  "oc_cells (revoke_notice cr hx dl pid oc) = oc_cells oc"
  "dom (pp_peers (oc_peripheral (revoke_notice cr hx dl pid oc))) = dom (pp_peers (oc_peripheral oc))"
  "pp_serve (oc_peripheral oc) = [] \<Longrightarrow> pp_serve (oc_peripheral (revoke_notice cr hx dl pid oc)) = []"
proof -
  have n: "radio_keeps p (snd (snd (pp_notify_challenge cr dl pid bs p)))" for bs p
    by (rule notify_keeps [of cr dl pid bs p "fst (pp_notify_challenge cr dl pid bs p)"
          "fst (snd (pp_notify_challenge cr dl pid bs p))"]) simp
  show "oc_peers (revoke_notice cr hx dl pid oc) = oc_peers oc" "oc_cells (revoke_notice cr hx dl pid oc) = oc_cells oc"
    by (simp_all add: revoke_notice_def split: option.splits)
  show "dom (pp_peers (oc_peripheral (revoke_notice cr hx dl pid oc))) = dom (pp_peers (oc_peripheral oc))"
    "pp_serve (oc_peripheral oc) = [] \<Longrightarrow> pp_serve (oc_peripheral (revoke_notice cr hx dl pid oc)) = []"
    using n by (simp_all add: revoke_notice_def radio_keeps_def split: option.splits)
qed

lemma oc_wf_revoke_notice [simp]: "oc_wf (revoke_notice cr hx dl pid oc) = oc_wf oc"
  by (simp add: oc_wf_def live_def cells_ok_def)

lemma btree_remove_facts:
  "fst ` set (btree_remove k m) = fst ` set m - {k}"
  "map_of (btree_remove k m) = (map_of m)(k := None)"
  "distinct (map fst m) \<Longrightarrow> distinct (map fst (btree_remove k m))"
  "set (btree_remove k m) \<subseteq> set m"
  by (induction m) (auto simp: btree_remove_def fun_eq_iff)

lemma btree_insert_keys [simp]: "fst ` set (btree_insert k v m) = insert k (fst ` set m)"
  by (induction k v m rule: btree_insert.induct) auto

lemma btree_insert_facts:
  "fst ` set (btree_insert k v m) = insert k (fst ` set m)"
  "k \<notin> fst ` set m \<Longrightarrow> map_of (btree_insert k v m) = (map_of m)(k \<mapsto> v)"
  "k \<notin> fst ` set m \<Longrightarrow> distinct (map fst m) \<Longrightarrow> distinct (map fst (btree_insert k v m))"
  "set (btree_insert k v m) \<subseteq> insert (k, v) (set m)"
proof -
  show "fst ` set (btree_insert k v m) = insert k (fst ` set m)" by simp
  show "k \<notin> fst ` set m \<Longrightarrow> map_of (btree_insert k v m) = (map_of m)(k \<mapsto> v)"
    by (induction k v m rule: btree_insert.induct) (auto simp: fun_eq_iff)
  show "k \<notin> fst ` set m \<Longrightarrow> distinct (map fst m) \<Longrightarrow> distinct (map fst (btree_insert k v m))"
    by (induction k v m rule: btree_insert.induct) (simp_all, blast)
  show "set (btree_insert k v m) \<subseteq> insert (k, v) (set m)"
    by (induction k v m rule: btree_insert.induct) auto
qed

lemma do_remove_peer_wf:
  assumes "oc_wf oc" and "pid \<in> live oc"
  shows "oc_wf (do_remove_peer pid oc) \<and> live (do_remove_peer pid oc) = live oc - {pid} \<and>
    map_of (oc_peers (do_remove_peer pid oc)) = (map_of (oc_peers oc))(pid := None) \<and>
    oc_cells (do_remove_peer pid oc) = oc_cells oc \<and>
    pp_serve (oc_peripheral (do_remove_peer pid oc)) = pp_serve (oc_peripheral oc)"
proof -
  obtain cs where "pp_peers (oc_peripheral oc) pid = Some cs"
    using assms by (auto simp: oc_wf_def)
  then have "do_remove_peer pid oc = oc\<lparr>oc_peripheral := (oc_peripheral oc)\<lparr>pp_peers := (pp_peers (oc_peripheral oc))(pid := None), pp_app := None\<rparr>,
      oc_peers := btree_remove pid (oc_peers oc)\<rparr>"
    by (simp add: do_remove_peer_def pp_remove_peer_def)
  moreover note rem = btree_remove_facts [where k = pid and m = "oc_peers oc"]
  moreover have "\<forall>(k, e) \<in> set (btree_remove pid (oc_peers oc)). pe_cell e < length (oc_cells oc)"
    using assms(1) rem(4) by (auto simp: oc_wf_def cells_ok_def)
  ultimately show ?thesis
    using assms(1) by (simp add: oc_wf_def live_def cells_ok_def)
qed

lemma do_add_peer_cases:
  assumes "oc_wf oc" and "pid \<notin> live oc" and "find (\<lambda>b. bond_peer_id b = pid) store = Some b"
  obtains (added) e where "oc_wf (do_add_peer cr store pid key oc)"
      "live (do_add_peer cr store pid key oc) = insert pid (live oc)"
      "map_of (oc_peers (do_add_peer cr store pid key oc)) = (map_of (oc_peers oc))(pid \<mapsto> e)"
      "pe_bond_key e = key" "pe_phone_pubkey e = Some (bond_pubkey b)"
      "pp_serve (oc_peripheral oc) = [] \<longrightarrow> pp_serve (oc_peripheral (do_add_peer cr store pid key oc)) = []"
  | (failed) "oc_wf (do_add_peer cr store pid key oc)" "live (do_add_peer cr store pid key oc) = live oc"
      "oc_peers (do_add_peer cr store pid key oc) = oc_peers oc" "pp_serve (oc_peripheral oc) \<noteq> []"
proof -
  let ?p = "(oc_peripheral oc)\<lparr>pp_app := None\<rparr>"
  have new: "pp_peers (oc_peripheral oc) pid = None"
    using assms by (auto simp: oc_wf_def)
  obtain r p' where reg: "build_and_register_peer cr key ?p = (r, p')" by fastforce
  have peers: "pp_peers p' = pp_peers (oc_peripheral oc)"
    and serve: "pp_serve (oc_peripheral oc) = [] \<longrightarrow> pp_serve p' = []"
    and ok: "pp_serve (oc_peripheral oc) = [] \<longrightarrow> (\<forall>e. r \<noteq> Inl e)"
    using register_peer_keeps [OF reg] by auto
  show thesis
  proof (cases r)
    case (Inl e)
    then have "do_add_peer cr store pid key oc = oc\<lparr>oc_peripheral := p'\<rparr>"
      by (simp add: do_add_peer_def assms(3) pp_add_peer_def new reg)
    then show thesis
      using failed assms(1) peers ok Inl by (auto simp: oc_wf_def live_def cells_ok_def)
  next
    case (Inr cs)
    define e where "e = \<lparr>pe_bond_key = key, pe_phone_pubkey = Some (bond_pubkey b), pe_cell = length (oc_cells oc)\<rparr>"
    have eq: "do_add_peer cr store pid key oc = oc\<lparr>oc_peripheral := p'\<lparr>pp_peers := (pp_peers p')(pid \<mapsto> cs)\<rparr>,
        oc_peers := btree_insert pid e (oc_peers oc), oc_cells := oc_cells oc @ [cell_new]\<rparr>"
      by (simp add: do_add_peer_def assms(3) pp_add_peer_def new reg Inr peer_entry_new_def e_def)
    have fresh: "pid \<notin> fst ` set (oc_peers oc)" using assms(2) by (simp add: live_def)
    note ins = btree_insert_facts [where k = pid and v = e and m = "oc_peers oc"]
    have "cells_ok (do_add_peer cr store pid key oc)"
      using assms(1) ins(4) by (auto simp: eq oc_wf_def cells_ok_def e_def less_Suc_eq)
    then have "oc_wf (do_add_peer cr store pid key oc)"
      using assms(1) ins fresh peers by (simp add: eq oc_wf_def live_def)
    then show thesis
      using added [of e] ins(1) ins(2) [OF fresh] serve by (simp add: eq live_def e_def)
  qed
qed

lemma removals_track:
  assumes "oc_wf oc" and "set rs \<subseteq> live oc" and "distinct rs"
  shows "oc_wf (removals cr hx dls rs oc) \<and> live (removals cr hx dls rs oc) = live oc - set rs \<and>
    (\<forall>pid. pid \<notin> set rs \<longrightarrow> map_of (oc_peers (removals cr hx dls rs oc)) pid = map_of (oc_peers oc) pid) \<and>
    (pp_serve (oc_peripheral oc) = [] \<longrightarrow> pp_serve (oc_peripheral (removals cr hx dls rs oc)) = [])"
  using assms
proof (induction rs arbitrary: oc)
  case (Cons r rs)
  let ?n = "revoke_notice cr hx (dls r) r oc"
  let ?o = "do_remove_peer r ?n"
  have live_n: "live ?n = live oc" by (simp add: live_def)
  have step: "oc_wf ?o" "live ?o = live oc - {r}" "map_of (oc_peers ?o) = (map_of (oc_peers oc))(r := None)"
    "pp_serve (oc_peripheral oc) = [] \<longrightarrow> pp_serve (oc_peripheral ?o) = []"
    using do_remove_peer_wf [of ?n r] Cons.prems live_n by auto
  have "removals cr hx dls (r # rs) oc = removals cr hx dls rs ?o"
    by (simp add: removals_def)
  moreover have "set rs \<subseteq> live ?o" "distinct rs"
    using Cons.prems step(2) by auto
  ultimately show ?case
    using Cons.IH [OF step(1)] step by auto
qed (simp add: removals_def)

text \<open>Entry \<open>pid\<close> of \<open>oc\<close>, if any, carries the key of the set and the public key of the store.\<close>

definition entry_from :: "bond_store \<Rightarrow> (string \<times> bytes) list \<Rightarrow> orchestrator \<Rightarrow> string \<Rightarrow> bool" where
  "entry_from store new_set oc pid =
     (case map_of (oc_peers oc) pid of
        None \<Rightarrow> True
      | Some e \<Rightarrow> map_of new_set pid = Some (pe_bond_key e) \<and>
                 pe_phone_pubkey e = map_option bond_pubkey (find (\<lambda>b. bond_peer_id b = pid) store))"

lemma additions_Cons:
  "map_of new_set x = Some key \<Longrightarrow>
   additions cr store new_set (x # xs) oc = additions cr store new_set xs (do_add_peer cr store x key oc)"
  by (simp add: additions_def)

definition addable :: "bond_store \<Rightarrow> (string \<times> bytes) list \<Rightarrow> string \<Rightarrow> bool" where
  "addable store new_set pid \<longleftrightarrow>
     map_of new_set pid \<noteq> None \<and> find (\<lambda>b. bond_peer_id b = pid) store \<noteq> None"

lemma do_add_peer_step:
  fixes cr :: crypto
  assumes "oc_wf oc" and "pid \<notin> live oc" and "addable store new_set pid" and "map_of new_set pid = Some key"
  defines "oc' \<equiv> do_add_peer cr store pid key oc"
  shows "oc_wf oc'" and "live oc \<subseteq> live oc'" and "live oc' \<subseteq> insert pid (live oc)"
    and "q \<noteq> pid \<Longrightarrow> map_of (oc_peers oc') q = map_of (oc_peers oc) q"
    and "entry_from store new_set oc' pid"
    and "pp_serve (oc_peripheral oc) = [] \<Longrightarrow> pid \<in> live oc' \<and> pp_serve (oc_peripheral oc') = []"
proof -
  obtain b where b: "find (\<lambda>b. bond_peer_id b = pid) store = Some b"
    using assms(3) by (auto simp: addable_def)
  have none: "map_of (oc_peers oc) pid = None"
    using assms(2) by (simp add: live_def map_of_eq_None_iff)
  note [simp] = oc'_def [symmetric]
  have "oc_wf oc' \<and> live oc \<subseteq> live oc' \<and> live oc' \<subseteq> insert pid (live oc) \<and>
    (q \<noteq> pid \<longrightarrow> map_of (oc_peers oc') q = map_of (oc_peers oc) q) \<and> entry_from store new_set oc' pid \<and>
    (pp_serve (oc_peripheral oc) = [] \<longrightarrow> pid \<in> live oc' \<and> pp_serve (oc_peripheral oc') = [])" for q
    by (rule do_add_peer_cases [OF assms(1,2) b, of cr key]) (auto simp: entry_from_def b assms(4) none)
  then show "oc_wf oc'" "live oc \<subseteq> live oc'" "live oc' \<subseteq> insert pid (live oc)"
    "q \<noteq> pid \<Longrightarrow> map_of (oc_peers oc') q = map_of (oc_peers oc) q" "entry_from store new_set oc' pid"
    "pp_serve (oc_peripheral oc) = [] \<Longrightarrow> pid \<in> live oc' \<and> pp_serve (oc_peripheral oc') = []"
    by blast+
qed

lemma additions_track:
  fixes cr :: crypto
  assumes "oc_wf oc" and "set xs \<inter> live oc = {}" and "distinct xs" and "\<forall>pid \<in> set xs. addable store new_set pid"
  defines "oc' \<equiv> additions cr store new_set xs oc"
  shows "oc_wf oc' \<and> live oc \<subseteq> live oc' \<and> live oc' \<subseteq> live oc \<union> set xs \<and>
    (\<forall>q. q \<notin> set xs \<longrightarrow> map_of (oc_peers oc') q = map_of (oc_peers oc) q) \<and>
    (\<forall>q \<in> set xs. entry_from store new_set oc' q) \<and>
    (pp_serve (oc_peripheral oc) = [] \<longrightarrow> set xs \<subseteq> live oc')"
  using assms(1-4) unfolding oc'_def
proof (induction xs arbitrary: oc)
  case (Cons x xs)
  from Cons.prems have x: "x \<notin> live oc" "x \<notin> set xs" "addable store new_set x" by auto
  then obtain key where key: "map_of new_set x = Some key" by (auto simp: addable_def)
  let ?o = "do_add_peer cr store x key oc"
  let ?r = "additions cr store new_set xs ?o"
  note step = do_add_peer_step [OF Cons.prems(1) x(1,3) key, where cr = cr]
  have disj: "set xs \<inter> live ?o = {}" using Cons.prems(2) step(3) x(2) by auto
  from Cons.prems have rest: "distinct xs" "\<forall>pid \<in> set xs. addable store new_set pid" by simp_all
  note IH = Cons.IH [OF step(1) disj rest]
  have "entry_from store new_set ?r x"
    using IH step(5) x(2) by (simp add: entry_from_def)
  moreover have "\<forall>q. q \<notin> set (x # xs) \<longrightarrow> map_of (oc_peers ?r) q = map_of (oc_peers oc) q"
    using IH step(4) by simp
  moreover have "live oc \<subseteq> live ?r" "live ?r \<subseteq> live oc \<union> set (x # xs)"
    using IH step(2,3) by auto
  moreover have "pp_serve (oc_peripheral oc) = [] \<longrightarrow> set (x # xs) \<subseteq> live ?r"
    using IH step(6) by auto
  ultimately show ?case
    using IH by (simp add: additions_Cons [OF key])
qed (simp add: additions_def)

lemma rotate_once_keeps [simp]:
  "oc_peers (rotate_once cr now oc) = oc_peers oc" "oc_cells (rotate_once cr now oc) = oc_cells oc"
  "pp_peers (oc_peripheral (rotate_once cr now oc)) = pp_peers (oc_peripheral oc)"
  by (simp_all add: rotate_once_def pp_set_session_uuids_def split: list.splits sum.splits)

lemma oc_wf_rotate_once [simp]: "oc_wf (rotate_once cr now oc) = oc_wf oc" "live (rotate_once cr now oc) = live oc"
  by (simp_all add: oc_wf_def live_def cells_ok_def)

lemma oc_wf_sigterm [simp]: "oc_wf (oc\<lparr>oc_sigterm := b\<rparr>) = oc_wf oc" "live (oc\<lparr>oc_sigterm := b\<rparr>) = live oc"
  by (simp_all add: oc_wf_def live_def cells_ok_def)

lemma compute_new_set_keys:
  assumes "compute_new_set d bs m s = (m', s')"
  shows "fst ` set m' \<subseteq> fst ` set m \<union> bond_peer_id ` {b \<in> set bs. \<not> is_revoked b}"
    and "distinct (map fst m) \<Longrightarrow> distinct (map fst m')"
proof -
  have upd: "fst ` set (hash_insert k v m) \<subseteq> insert k (fst ` set m)"
    "distinct (map fst m) \<Longrightarrow> distinct (map fst (hash_insert k v m))" for k v and m :: "(string \<times> bytes) list"
    by (auto simp: hash_insert_def distinct_map inj_on_def)
  show "fst ` set m' \<subseteq> fst ` set m \<union> bond_peer_id ` {b \<in> set bs. \<not> is_revoked b}"
    using assms
  proof (induction bs arbitrary: m s)
    case (Cons b bs)
    show ?case
    proof (cases "is_revoked b")
      case True
      with Cons.IH [of m s] Cons.prems show ?thesis by auto
    next
      case False
      obtain r s1 where l: "load_bond_key d (bond_peer_id b) s = (r, s1)" by fastforce
      show ?thesis
      proof (cases r)
        case (Inl e)
        with Cons.IH [of m s1] Cons.prems False l show ?thesis by auto
      next
        case (Inr key)
        with Cons.IH [of "hash_insert (bond_peer_id b) key m" s1] Cons.prems False l upd(1) [of "bond_peer_id b" key m]
        show ?thesis by (simp, blast)
      qed
    qed
  qed simp
  show "distinct (map fst m) \<Longrightarrow> distinct (map fst m')"
    using assms
  proof (induction bs arbitrary: m s)
    case (Cons b bs)
    then show ?case
      by (auto split: if_splits prod.splits sum.splits intro: Cons.IH [OF upd(2)])
  qed simp
qed

definition traversal :: "(string list \<Rightarrow> string list) \<Rightarrow> bool" where
  "traversal tv \<longleftrightarrow> (\<forall>xs. set (tv xs) = set xs \<and> (distinct xs \<longrightarrow> distinct (tv xs)))"


lemma sample_oc_wf: "oc_wf sample_orchestrator" "live sample_orchestrator = {sample_pid}"
  using sample_orchestrator_facts(1)
  by (simp_all add: oc_wf_def live_def sample_orchestrator_def orchestrator_new_def with_peers_def with_peers_and_audit_def
      peer_entry_new_def)


subsection \<open>Interleaved challenges\<close>

text \<open>A challenge task between its awaits: it has looked its peer up and waits for the permit, it holds
  the permit and waits for the phone, it has its outcome and still holds the permit, or it is done.
  Every step is one of the operations above; reloads run in between.\<close>

datatype challenge_task =
    Tk_Queued peer_state
  | Tk_Waiting peer_state bytes
  | Tk_Settled peer_state challenge_outcome
  | Tk_Done challenge_outcome

type_synonym tasks = "nat \<rightharpoonup> challenge_task"

inductive challenge_step :: "crypto \<Rightarrow> orchestrator \<times> tasks \<Rightarrow> orchestrator \<times> tasks \<Rightarrow> bool" for cr where
  lookup: "ts t = None \<Longrightarrow> lookup_peer oc pid = Some st \<Longrightarrow>
     challenge_step cr (oc, ts) (oc, ts(t \<mapsto> Tk_Queued st))"
| acquire: "ts t = Some (Tk_Queued st) \<Longrightarrow> acquire_challenge_slot (st_cell st) oc = Some oc' \<Longrightarrow>
     challenge_step cr (oc, ts) (stamp_liveness (st_cell st) now oc', ts(t \<mapsto> Tk_Waiting st nonce))"
| busy: "ts t = Some (Tk_Queued st) \<Longrightarrow> acquire_challenge_slot (st_cell st) oc = None \<Longrightarrow>
     challenge_step cr (oc, ts) (oc, ts(t \<mapsto> Tk_Done CO_Busy))"
| answer: "ts t = Some (Tk_Waiting st nonce) \<Longrightarrow>
     settle_response cr (challenge_frame nonce (compute_tag cr (st_bond_key st) ([SYAUTH_WIRE_VERSION_V1] @ nonce))) st r oc = (out, oc') \<Longrightarrow>
     challenge_step cr (oc, ts) (oc', ts(t \<mapsto> Tk_Settled st out))"
| failure: "ts t = Some (Tk_Waiting st nonce) \<Longrightarrow>
     challenge_step cr (oc, ts) (oc, ts(t \<mapsto> Tk_Settled st (challenge_outcome_for_transport e)))"
| release: "ts t = Some (Tk_Settled st out) \<Longrightarrow>
     challenge_step cr (oc, ts) (drop_permit (st_cell st) oc, ts(t \<mapsto> Tk_Done out))"
| remove: "challenge_step cr (oc, ts) (do_remove_peer pid oc, ts)"
| add: "challenge_step cr (oc, ts) (do_add_peer cr store pid key oc, ts)"

inductive_cases challenge_stepE: "challenge_step cr (oc, ts) (oc', ts')"

text \<open>The cell whose permit a task holds, and the cell it refers to.\<close>

definition holds :: "tasks \<Rightarrow> nat \<Rightarrow> nat \<Rightarrow> bool" where
  "holds ts t c = (case ts t of Some (Tk_Waiting st n) \<Rightarrow> st_cell st = c | Some (Tk_Settled st out) \<Rightarrow> st_cell st = c | _ \<Rightarrow> False)"

definition refers :: "tasks \<Rightarrow> nat \<Rightarrow> nat \<Rightarrow> bool" where
  "refers ts t c = (holds ts t c \<or> (case ts t of Some (Tk_Queued st) \<Rightarrow> st_cell st = c | _ \<Rightarrow> False))"

definition slots_ok :: "orchestrator \<times> tasks \<Rightarrow> bool" where
  "slots_ok = (\<lambda>(oc, ts). cells_ok oc \<and> (\<forall>t c. refers ts t c \<longrightarrow> c < length (oc_cells oc)) \<and>
     (\<forall>c < length (oc_cells oc).
        (pl_challenge_slot (oc_cells oc ! c) = 1 \<and> (\<forall>t. \<not> holds ts t c)) \<or>
        (pl_challenge_slot (oc_cells oc ! c) = 0 \<and> (\<exists>!t. holds ts t c))))"

lemma slots_okI:
  assumes "cells_ok oc" and "\<And>t c. refers ts t c \<Longrightarrow> c < length (oc_cells oc)"
    and "\<And>c. c < length (oc_cells oc) \<Longrightarrow>
      (pl_challenge_slot (oc_cells oc ! c) = 1 \<and> (\<forall>t. \<not> holds ts t c)) \<or>
      (pl_challenge_slot (oc_cells oc ! c) = 0 \<and> (\<exists>!t. holds ts t c))"
  shows "slots_ok (oc, ts)"
  using assms by (simp add: slots_ok_def)

lemma slots_ok_refers: "slots_ok (oc, ts) \<Longrightarrow> refers ts t c \<Longrightarrow> c < length (oc_cells oc)"
  by (simp add: slots_ok_def)

lemma slots_okD:
  "slots_ok (oc, ts) \<Longrightarrow> c < length (oc_cells oc) \<Longrightarrow>
     (pl_challenge_slot (oc_cells oc ! c) = 1 \<and> (\<forall>t. \<not> holds ts t c)) \<or>
     (pl_challenge_slot (oc_cells oc ! c) = 0 \<and> (\<exists>!t. holds ts t c))"
  by (simp add: slots_ok_def)

lemma holds_refers: "holds ts t c \<Longrightarrow> refers ts t c"
  by (simp add: refers_def)

lemma slots_ok_same_slots:
  assumes "slots_ok (oc, ts)" and "oc_peers oc' = oc_peers oc"
    and "map pl_challenge_slot (oc_cells oc') = map pl_challenge_slot (oc_cells oc)"
    and "\<And>u c. holds ts' u c = holds ts u c" and "\<And>u c. refers ts' u c \<Longrightarrow> c < length (oc_cells oc)"
  shows "slots_ok (oc', ts')"
proof -
  have len: "length (oc_cells oc') = length (oc_cells oc)"
    using assms(3) by (rule map_eq_imp_length_eq)
  have "pl_challenge_slot (oc_cells oc' ! c) = pl_challenge_slot (oc_cells oc ! c)" if "c < length (oc_cells oc)" for c
    using arg_cong [OF assms(3), of "\<lambda>xs. xs ! c"] that len by simp
  then show ?thesis
    using assms(1,2,4,5) len by (simp add: slots_ok_def cells_ok_def)
qed

lemma cells_ok_set_cell [simp]: "cells_ok (set_cell c f oc) = cells_ok oc"
  by (simp add: cells_ok_def)

lemma settle_same_slots:
  assumes "settle_response cr ch st r oc = (out, oc')"
  shows "oc_peers oc' = oc_peers oc \<and> map pl_challenge_slot (oc_cells oc') = map pl_challenge_slot (oc_cells oc)"
  using assms by (auto simp: settle_response_def Let_def map_set_cell split: challenge_outcome.splits)

text \<open>A task that moves without taking or giving a permit.\<close>

primrec held_by :: "challenge_task \<Rightarrow> nat option" where
  "held_by (Tk_Queued st) = None"
| "held_by (Tk_Waiting st n) = Some (st_cell st)"
| "held_by (Tk_Settled st out) = Some (st_cell st)"
| "held_by (Tk_Done out) = None"

primrec used_by :: "challenge_task \<Rightarrow> nat option" where
  "used_by (Tk_Queued st) = Some (st_cell st)"
| "used_by (Tk_Waiting st n) = Some (st_cell st)"
| "used_by (Tk_Settled st out) = Some (st_cell st)"
| "used_by (Tk_Done out) = None"

lemma holds_iff: "holds ts t c \<longleftrightarrow> (\<exists>k. ts t = Some k \<and> held_by k = Some c)"
  by (auto simp: holds_def split: option.splits challenge_task.splits)

lemma refers_iff: "refers ts t c \<longleftrightarrow> (\<exists>k. ts t = Some k \<and> used_by k = Some c)"
  by (auto simp: refers_def holds_def split: option.splits challenge_task.splits)

lemma slots_ok_task_change:
  assumes ok: "slots_ok (oc, ts)"
    and held: "held_by k = (case ts t of None \<Rightarrow> None | Some k' \<Rightarrow> held_by k')"
    and used: "\<And>c. used_by k = Some c \<Longrightarrow> c < length (oc_cells oc)"
  shows "slots_ok (oc, ts(t \<mapsto> k))"
proof (rule slots_ok_same_slots [OF ok refl refl])
  show "holds (ts(t \<mapsto> k)) u c = holds ts u c" for u c
    using held by (auto simp: holds_iff split: option.splits)
  show "refers (ts(t \<mapsto> k)) u c \<Longrightarrow> c < length (oc_cells oc)" for u c
    using used slots_ok_refers [OF ok, of u c] by (cases "u = t") (auto simp: refers_iff)
qed

lemma slots_ok_acquire:
  assumes ok: "slots_ok (oc, ts)" and t: "ts t = Some (Tk_Queued st)"
    and acq: "acquire_challenge_slot (st_cell st) oc = Some oc'"
  shows "slots_ok (stamp_liveness (st_cell st) now oc', ts(t \<mapsto> Tk_Waiting st nonce))"
proof (rule slots_okI)
  let ?o = "stamp_liveness (st_cell st) now oc'"
  have o: "length (oc_cells ?o) = length (oc_cells oc)" "cells_ok ?o = cells_ok oc"
    using acq by (simp_all add: acquire_slot_Some stamp_liveness_def)
  have c: "st_cell st < length (oc_cells oc)"
    by (rule slots_ok_refers [OF ok, of t]) (simp add: refers_def t)
  show "cells_ok ?o" using ok o(2) by (simp add: slots_ok_def)
  show "d < length (oc_cells ?o)" if "refers (ts(t \<mapsto> Tk_Waiting st nonce)) u d" for u d
    using that slots_ok_refers [OF ok, of u d] c o(1) by (cases "u = t") (auto simp: refers_iff)
  fix d
  assume d: "d < length (oc_cells ?o)"
  show "(pl_challenge_slot (oc_cells ?o ! d) = 1 \<and> (\<forall>u. \<not> holds (ts(t \<mapsto> Tk_Waiting st nonce)) u d)) \<or>
      (pl_challenge_slot (oc_cells ?o ! d) = 0 \<and> (\<exists>!u. holds (ts(t \<mapsto> Tk_Waiting st nonce)) u d))"
  proof (cases "d = st_cell st")
    case True
    have free: "pl_challenge_slot (oc_cells oc ! d) = 1" "\<forall>u. \<not> holds ts u d"
      using slots_okD [OF ok, of d] acq c True by (auto simp: acquire_slot_Some)
    have "pl_challenge_slot (oc_cells ?o ! d) = 0"
      using free(1) acq c True by (simp add: acquire_slot_Some stamp_liveness_def)
    moreover have "holds (ts(t \<mapsto> Tk_Waiting st nonce)) u d \<longleftrightarrow> u = t" for u
      using free(2) True by (cases "u = t") (auto simp: holds_iff)
    ultimately show ?thesis by simp
  next
    case False
    have "oc_cells ?o ! d = oc_cells oc ! d"
      using False acq by (simp add: acquire_slot_Some stamp_liveness_def)
    moreover have "holds (ts(t \<mapsto> Tk_Waiting st nonce)) u d = holds ts u d" for u
      using False t by (cases "u = t") (auto simp: holds_iff)
    ultimately show ?thesis
      using slots_okD [OF ok, of d] d o(1) by simp
  qed
qed

lemma slots_ok_release:
  assumes ok: "slots_ok (oc, ts)" and t: "ts t = Some (Tk_Settled st out)"
  shows "slots_ok (drop_permit (st_cell st) oc, ts(t \<mapsto> Tk_Done out))"
proof (rule slots_okI)
  let ?o = "drop_permit (st_cell st) oc"
  have o: "length (oc_cells ?o) = length (oc_cells oc)" by (simp add: drop_permit_def)
  have h: "holds ts t (st_cell st)" using t by (simp add: holds_def)
  then have c: "st_cell st < length (oc_cells oc)"
    by (blast intro: slots_ok_refers [OF ok] holds_refers)
  show "cells_ok ?o" using ok by (simp add: slots_ok_def drop_permit_def)
  show "d < length (oc_cells ?o)" if "refers (ts(t \<mapsto> Tk_Done out)) u d" for u d
    using that slots_ok_refers [OF ok, of u d] o by (cases "u = t") (auto simp: refers_iff)
  fix d
  assume d: "d < length (oc_cells ?o)"
  show "(pl_challenge_slot (oc_cells ?o ! d) = 1 \<and> (\<forall>u. \<not> holds (ts(t \<mapsto> Tk_Done out)) u d)) \<or>
      (pl_challenge_slot (oc_cells ?o ! d) = 0 \<and> (\<exists>!u. holds (ts(t \<mapsto> Tk_Done out)) u d))"
  proof (cases "d = st_cell st")
    case True
    have taken: "pl_challenge_slot (oc_cells oc ! d) = 0" "\<exists>!u. holds ts u d"
      using slots_okD [OF ok, of d] h c True by auto
    have "pl_challenge_slot (oc_cells ?o ! d) = 1"
      using taken(1) c True by (simp add: drop_permit_def)
    moreover have only: "u = t" if "holds ts u d" for u
      using taken(2) h that True by blast
    have "\<not> holds (ts(t \<mapsto> Tk_Done out)) u d" for u
      using only [of u] by (cases "u = t") (auto simp: holds_iff)
    ultimately show ?thesis by blast
  next
    case False
    have "oc_cells ?o ! d = oc_cells oc ! d"
      using False by (simp add: drop_permit_def)
    moreover have "holds (ts(t \<mapsto> Tk_Done out)) u d = holds ts u d" for u
      using False t by (cases "u = t") (auto simp: holds_iff)
    ultimately show ?thesis
      using slots_okD [OF ok, of d] d o by simp
  qed
qed

lemma do_remove_peer_cells:
  "oc_cells (do_remove_peer pid oc) = oc_cells oc" "cells_ok oc \<Longrightarrow> cells_ok (do_remove_peer pid oc)"
  by (auto simp: do_remove_peer_def cells_ok_def btree_remove_def split: prod.splits sum.splits)

lemma do_add_peer_cells:
  "(oc_cells (do_add_peer cr store pid key oc) = oc_cells oc \<or>
    oc_cells (do_add_peer cr store pid key oc) = oc_cells oc @ [cell_new]) \<and>
   (cells_ok oc \<longrightarrow> cells_ok (do_add_peer cr store pid key oc))"
proof (cases "find (\<lambda>b. bond_peer_id b = pid) store")
  case (Some b)
  obtain r p' where r: "pp_add_peer cr pid key (oc_peripheral oc) = (r, p')" by fastforce
  define e where "e = \<lparr>pe_bond_key = key, pe_phone_pubkey = Some (bond_pubkey b), pe_cell = length (oc_cells oc)\<rparr>"
  have "pe_cell e' < Suc (length (oc_cells oc))"
    if "cells_ok oc" "(k, e') \<in> set (btree_insert pid e (oc_peers oc))" for k e'
    using that btree_insert_facts(4) [where k = pid and v = e and m = "oc_peers oc"] by (fastforce simp: cells_ok_def e_def)
  then have ins: "cells_ok oc \<longrightarrow> (\<forall>(k, e') \<in> set (btree_insert pid e (oc_peers oc)). pe_cell e' < Suc (length (oc_cells oc)))"
    by auto
  show ?thesis
  proof (cases r)
    case (Inl err)
    then show ?thesis by (simp add: do_add_peer_def Some r cells_ok_def)
  next
    case (Inr u)
    then have eq: "do_add_peer cr store pid key oc =
        oc\<lparr>oc_peripheral := p', oc_peers := btree_insert pid e (oc_peers oc), oc_cells := oc_cells oc @ [cell_new]\<rparr>"
      by (simp add: do_add_peer_def Some r peer_entry_new_def e_def)
    show ?thesis using ins unfolding eq by (simp add: cells_ok_def)
  qed
qed (simp add: do_add_peer_def)

lemma slots_ok_add:
  assumes "slots_ok (oc, ts)"
  shows "slots_ok (do_add_peer cr store pid key oc, ts)"
proof -
  let ?o = "do_add_peer cr store pid key oc"
  have fresh: "\<not> holds ts t (length (oc_cells oc))" for t
    using slots_ok_refers [OF assms holds_refers] by blast
  have cells: "oc_cells ?o = oc_cells oc \<or> oc_cells ?o = oc_cells oc @ [cell_new]" and ok: "cells_ok ?o"
    using do_add_peer_cells [where oc = oc] assms unfolding slots_ok_def by blast+
  show ?thesis
  proof (rule slots_okI [OF ok])
    show "c < length (oc_cells ?o)" if "refers ts t c" for t c
      using slots_ok_refers [OF assms that] cells by auto
    fix c
    assume "c < length (oc_cells ?o)"
    then consider "c < length (oc_cells oc)" "oc_cells ?o ! c = oc_cells oc ! c"
      | "c = length (oc_cells oc)" "oc_cells ?o ! c = cell_new"
      using cells by (auto simp: nth_append less_Suc_eq)
    then show "(pl_challenge_slot (oc_cells ?o ! c) = 1 \<and> (\<forall>t. \<not> holds ts t c)) \<or>
      (pl_challenge_slot (oc_cells ?o ! c) = 0 \<and> (\<exists>!t. holds ts t c))"
      using slots_okD [OF assms, of c] fresh by cases (simp_all add: cell_new_def)
  qed
qed

lemma slots_ok_step:
  assumes "challenge_step cr s s'" and "slots_ok s"
  shows "slots_ok s'"
  using assms
proof (induction rule: challenge_step.induct)
  case (lookup ts t oc pid st)
  then have "st_cell st < length (oc_cells oc)"
    using lookup_peer_cell by (simp add: slots_ok_def)
  with lookup show ?case
    by (intro slots_ok_task_change) simp_all
next
  case (acquire ts t st oc oc' now nonce)
  then show ?case by (blast intro: slots_ok_acquire)
next
  case (busy ts t st oc)
  then show ?case by (intro slots_ok_task_change) simp_all
next
  case (answer ts t st nonce r oc out oc')
  have moved: "slots_ok (oc, ts(t \<mapsto> Tk_Settled st out))"
    using answer slots_ok_refers [OF answer.prems, of t "st_cell st"] by (intro slots_ok_task_change) (simp_all add: refers_iff)
  note same = settle_same_slots [OF answer.hyps(2)]
  show ?case
    by (rule slots_ok_same_slots [OF moved conjunct1 [OF same] conjunct2 [OF same] refl]) (rule slots_ok_refers [OF moved])
next
  case (failure ts t st nonce oc e)
  show ?case
    using failure slots_ok_refers [OF failure.prems, of t "st_cell st"] by (intro slots_ok_task_change) (simp_all add: refers_iff)
next
  case (release ts t st out oc)
  then show ?case by (blast intro: slots_ok_release)
next
  case (remove oc ts pid)
  then show ?case by (simp add: slots_ok_def do_remove_peer_cells)
next
  case (add oc ts store pid key)
  then show ?case by (rule slots_ok_add)
qed

lemma slots_ok_reach: "(challenge_step cr)\<^sup>*\<^sup>* s s' \<Longrightarrow> slots_ok s \<Longrightarrow> slots_ok s'"
  by (induction rule: rtranclp_induct) (blast intro: slots_ok_step)+

lemma seed_peers_ok:
  assumes "\<forall>(k, e) \<in> set m. pe_cell e < length cells" and "\<forall>c \<in> set cells. c = cell_new"
    and "seed_peers xs (m, cells) = (m', cells')"
  shows "(\<forall>(k, e) \<in> set m'. pe_cell e < length cells') \<and> (\<forall>c \<in> set cells'. c = cell_new)"
  using assms
proof (induction xs arbitrary: m cells)
  case (Cons x xs)
  define e where "e = \<lparr>pe_bond_key = snd x, pe_phone_pubkey = Some (bond_pubkey (fst x)), pe_cell = length cells\<rparr>"
  have "\<forall>(k, e) \<in> set (btree_insert (bond_peer_id (fst x)) e m). pe_cell e < length (cells @ [cell_new])"
    using Cons.prems(1) btree_insert_facts(4) [where k = "bond_peer_id (fst x)" and v = e and m = m]
    by (fastforce simp: e_def)
  moreover have "\<forall>c \<in> set (cells @ [cell_new]). c = cell_new" using Cons.prems(2) by auto
  moreover have "seed_peers xs (btree_insert (bond_peer_id (fst x)) e m, cells @ [cell_new]) = (m', cells')"
    using Cons.prems(3) by (simp add: peer_entry_new_def e_def)
  ultimately show ?case by (rule Cons.IH)
qed simp

lemma slots_ok_initial: "slots_ok (with_peers_and_audit p peers bonds keys log, Map.empty)"
proof -
  obtain m cells where seed: "seed_peers peers ([], []) = (m, cells)" by fastforce
  from seed_peers_ok [OF _ _ seed] have "\<forall>(k, e) \<in> set m. pe_cell e < length cells" "\<forall>c \<in> set cells. c = cell_new"
    by simp_all
  moreover have "pl_challenge_slot (cells ! c) = 1" if "c < length cells" for c
    using bspec [OF calculation(2) nth_mem [OF that]] by (simp add: cell_new_def)
  ultimately show ?thesis
    by (simp add: with_peers_and_audit_def seed slots_ok_def cells_ok_def refers_def holds_def)
qed

text \<open>C14: one challenge in flight per registered peer. From a freshly built daemon, however challenges to
  any peers interleave with each other and with the removals and additions of reloads, the semaphore
  of a registration has at most one permit, two tasks never hold the same one, and the in-flight count
  the status reports is 1 exactly when a task holds it. So no challenge releases a permit it does not
  hold, and a challenge that ends frees its peer.\<close>

theorem one_challenge_in_flight:
  assumes "(challenge_step cr)\<^sup>*\<^sup>* (with_peers_and_audit p peers bonds keys log, Map.empty) (oc, ts)"
  shows "(\<forall>t u c. holds ts t c \<and> holds ts u c \<longrightarrow> t = u) \<and>
    (\<forall>c < length (oc_cells oc). pl_challenge_slot (oc_cells oc ! c) \<le> 1 \<and>
       (challenge_slot_in_flight (pl_challenge_slot (oc_cells oc ! c)) = 1 \<longleftrightarrow> (\<exists>t. holds ts t c)))"
proof -
  have ok: "slots_ok (oc, ts)"
    by (rule slots_ok_reach [OF assms slots_ok_initial])
  have range: "holds ts t c \<Longrightarrow> c < length (oc_cells oc)" for t c
    by (rule slots_ok_refers [OF ok holds_refers])
  note slot = slots_okD [OF ok]
  show ?thesis
  proof (intro conjI allI impI)
    fix t u c
    assume h: "holds ts t c \<and> holds ts u c"
    then have "c < length (oc_cells oc)" using range by blast
    from slot [OF this] h show "t = u" by blast
  next
    fix c
    assume c: "c < length (oc_cells oc)"
    show "pl_challenge_slot (oc_cells oc ! c) \<le> 1" using slot [OF c] by auto
    show "challenge_slot_in_flight (pl_challenge_slot (oc_cells oc ! c)) = 1 \<longleftrightarrow> (\<exists>t. holds ts t c)"
      using slot [OF c] by (auto simp: challenge_slot_in_flight_def)
  qed
qed

lemma sample_orchestrator_seeded:
  "\<exists>p peers. sample_orchestrator = with_peers_and_audit p peers [] [] None"
  unfolding sample_orchestrator_def orchestrator_new_def with_peers_def by blast

theorem one_challenge_in_flight_witness:
  "\<exists>oc ts. (challenge_step padding_crypto)\<^sup>*\<^sup>* (sample_orchestrator, Map.empty) (oc, ts) \<and> holds ts 1 0 \<and>
     challenge_slot_in_flight (pl_challenge_slot (oc_cells oc ! 0)) = 1 \<and> (\<forall>u. holds ts u 0 \<longrightarrow> u = 1)"
proof -
  let ?st = "\<lparr>st_phone_pubkey = replicate 32 1, st_bond_key = replicate 32 9, st_cell = 0\<rparr>"
  let ?o = "set_cell 0 (\<lambda>e. e\<lparr>pl_challenge_slot := pl_challenge_slot e - 1\<rparr>) sample_orchestrator"
  let ?oc = "stamp_liveness 0 0 ?o"
  let ?ts = "[1 \<mapsto> Tk_Queued ?st]"
  have "challenge_step padding_crypto (sample_orchestrator, Map.empty) (sample_orchestrator, ?ts)"
    by (rule challenge_step.lookup [OF _ sample_orchestrator_facts(2)]) simp
  moreover have "acquire_challenge_slot (st_cell ?st) sample_orchestrator = Some ?o"
    by (simp add: acquire_challenge_slot_def sample_orchestrator_facts(3) cell_new_def)
  then have "challenge_step padding_crypto (sample_orchestrator, ?ts) (?oc, ?ts(1 \<mapsto> Tk_Waiting ?st (replicate 16 3)))"
    using challenge_step.acquire [of ?ts 1 ?st sample_orchestrator ?o padding_crypto 0 "replicate 16 3"] by simp
  ultimately have reach: "(challenge_step padding_crypto)\<^sup>*\<^sup>* (sample_orchestrator, Map.empty) (?oc, ?ts(1 \<mapsto> Tk_Waiting ?st (replicate 16 3)))"
    by (meson converse_rtranclp_into_rtranclp rtranclp.rtrancl_refl)
  obtain p peers where "sample_orchestrator = with_peers_and_audit p peers [] [] None"
    using sample_orchestrator_seeded by blast
  note one = one_challenge_in_flight [OF reach [unfolded this], folded this]
  have h: "holds (?ts(1 \<mapsto> Tk_Waiting ?st (replicate 16 3))) 1 0" by (simp add: holds_def)
  moreover have "0 < length (oc_cells ?oc)" by (simp add: stamp_liveness_def sample_orchestrator_facts(3))
  ultimately show ?thesis using one reach by blast
qed

end
