(* ===== verification/Pam.thy ===== *)
theory Pam
  imports Orchestrator
begin

section \<open>The daemon's request handler and the PAM module\<close>

text \<open>
  \<open>syauth-presenced/src/server.rs\<close> (one connection), and \<open>syauth-pam/src\<close>: \<open>config.rs\<close>, \<open>auth.rs\<close>,
  \<open>entry.rs\<close>. What libpam, the kernel and the other end of the socket do are the records \<open>pam_call\<close>
  and \<open>daemon_link\<close>; a panic below the entry point is the value \<open>Panics\<close>, which \<open>run_entry\<close> catches.
\<close>

subsection \<open>One connection of the daemon\<close>

definition STUB_CHALLENGE_REASON :: string where "STUB_CHALLENGE_REASON = ''not-implemented''"
definition UID_ROOT :: u32 where "UID_ROOT = 0"
definition UID_NOBODY :: u32 where "UID_NOBODY = 65534"

text \<open>\<open>bk_reload_tx\<close>: the sender, with whether its receiver still exists.\<close>

record backend_state =
  bk_reload_tx :: "bool option"
  bk_orchestrator :: "orchestrator option"

datatype handler_error =
    HE_PeerCredentials string
  | HE_Frame rpc_error

text \<open>The response, the reload commands sent, and the orchestrator afterwards.\<close>

definition dispatch ::
    "crypto \<Rightarrow> challenge_env \<Rightarrow> bytes option \<Rightarrow> system_time \<Rightarrow> system_time \<Rightarrow> request \<Rightarrow> backend_state \<Rightarrow>
     response \<times> reload_trigger list \<times> orchestrator option" where
  "dispatch cr env test_fixed_nonce started_at now req b =
     (case req of
        Req_Challenge peer_id nonce \<Rightarrow>
          (case bk_orchestrator b of
             Some oc \<Rightarrow>
               (case (case test_fixed_nonce of
                        Some n \<Rightarrow> issue_challenge_with_nonce_cancellable cr env peer_id n DAEMON_AUTH_TIMEOUT_MS oc
                      | None \<Rightarrow> issue_challenge_cancellable cr env peer_id DAEMON_AUTH_TIMEOUT_MS oc) of
                  (outcome, oc') \<Rightarrow>
                    (Resp_Challenge (case outcome of CO_Ok s \<Rightarrow> True | _ \<Rightarrow> False) (signature_bytes outcome) (reason_str outcome),
                     [], Some oc'))
           | None \<Rightarrow> (Resp_Challenge False None STUB_CHALLENGE_REASON, [], None))
      | Req_Reload \<Rightarrow>
          (case bk_reload_tx b of
             Some True \<Rightarrow> (Resp_Reload True, [RT_Rpc], bk_orchestrator b)
           | Some False \<Rightarrow> (Resp_Reload False, [], bk_orchestrator b)
           | None \<Rightarrow> (Resp_Reload False, [], bk_orchestrator b))
      | Req_Status \<Rightarrow>
          (Resp_Status (case bk_orchestrator b of Some oc \<Rightarrow> peers_snapshot cr now oc | None \<Rightarrow> []) started_at,
           [], bk_orchestrator b))"

text \<open>The caller's identity, and the orchestrator left by a challenge the client interrupted by sending
  another byte or hanging up: the handler then drops the challenge and closes without an answer.\<close>

record connection =
  cn_peer_uid :: "(string, u32) result"
  cn_interrupted :: "orchestrator option"
  cn_writer :: rpc_writer

text \<open>The result, whether the identity is logged as unexpected, what is written back, the reload
  commands and the orchestrator.\<close>

definition handle_connection ::
    "crypto \<Rightarrow> request cbor \<Rightarrow> response cbor \<Rightarrow> challenge_env \<Rightarrow> connection \<Rightarrow> u32 \<Rightarrow> backend_state \<Rightarrow> backend_state option \<Rightarrow>
     bytes option \<Rightarrow> system_time \<Rightarrow> system_time \<Rightarrow> bytes \<Rightarrow>
     (handler_error, unit) result \<times> bool \<times> bytes \<times> reload_trigger list \<times> orchestrator option" where
  "handle_connection cr rq rs env cn expected_uid own backend_rx test_fixed_nonce started_at now input =
     (let b = (case backend_rx of Some st \<Rightarrow> st | None \<Rightarrow> own) in
      case cn_peer_uid cn of
        Inl e \<Rightarrow> (Inl (HE_PeerCredentials e), False, [], [], bk_orchestrator b)
      | Inr uid \<Rightarrow>
          let warned = (uid \<noteq> expected_uid \<and> uid \<noteq> UID_ROOT \<and> uid \<noteq> UID_NOBODY) in
          (case read_frame rq input of
             (Inl e, rest) \<Rightarrow> (Inl (HE_Frame e), warned, [], [], bk_orchestrator b)
           | (Inr req, rest) \<Rightarrow>
               (case (req, cn_interrupted cn) of
                  (Req_Challenge pid n, Some oc') \<Rightarrow> (Inr (), warned, [], [], map_option (\<lambda>_. oc') (bk_orchestrator b))
                | _ \<Rightarrow>
                    (case dispatch cr env test_fixed_nonce started_at now req b of
                       (resp, cmds, oc') \<Rightarrow>
                         (case write_frame rs (cn_writer cn) resp of
                            (r, sent) \<Rightarrow> (result_map_err HE_Frame r, warned, sent, cmds, oc'))))))"

subsection \<open>Configuration\<close>

definition DEFAULT_BOND_DIR :: string where "DEFAULT_BOND_DIR = ''/var/lib/syauth''"
definition PAM_DEFAULT_AUTH_TIMEOUT_MS :: nat where "PAM_DEFAULT_AUTH_TIMEOUT_MS = 20000"
definition LAST_LOG_FILENAME :: string where "LAST_LOG_FILENAME = ''last.log''"
definition DEFAULT_RUNTIME_FALLBACK_PREFIX :: string where "DEFAULT_RUNTIME_FALLBACK_PREFIX = ''/run/user/''"
definition RUNTIME_SUBDIR :: string where "RUNTIME_SUBDIR = ''syauth''"
definition DEFAULT_SOCKET_BASENAME :: string where "DEFAULT_SOCKET_BASENAME = ''auth.sock''"
definition PAM_SOCKET_ARG_PREFIX :: string where "PAM_SOCKET_ARG_PREFIX = ''socket=''"

record pam_config =
  cf_bond_dir :: path
  cf_socket_path :: path
  cf_auth_timeout :: nat

definition path_from :: "string \<Rightarrow> path" where
  "path_from s = path_join [] s"

definition runtime_socket :: "path \<Rightarrow> path" where
  "runtime_socket dir = path_join (path_join dir RUNTIME_SUBDIR) DEFAULT_SOCKET_BASENAME"

text \<open>\<open>xdg\<close>: the value of \<open>XDG_RUNTIME_DIR\<close>; \<open>euid\<close>: the effective user of the process.\<close>

definition resolve_socket_path :: "string option \<Rightarrow> u32 \<Rightarrow> path option \<Rightarrow> path" where
  "resolve_socket_path xdg euid override_path =
     (case override_path of
        Some p \<Rightarrow> p
      | None \<Rightarrow>
          (case xdg of
             Some dir \<Rightarrow>
               if dir \<noteq> [] then runtime_socket (path_from dir)
               else runtime_socket (path_from (DEFAULT_RUNTIME_FALLBACK_PREFIX @ dec_string (unat euid)))
           | None \<Rightarrow> runtime_socket (path_from (DEFAULT_RUNTIME_FALLBACK_PREFIX @ dec_string (unat euid)))))"

definition socket_override :: "string list \<Rightarrow> path option" where
  "socket_override argv = map_option path_from (find_map (strip_prefix PAM_SOCKET_ARG_PREFIX) argv)"

definition from_pam_argv :: "string option \<Rightarrow> u32 \<Rightarrow> string list \<Rightarrow> pam_config" where
  "from_pam_argv xdg euid argv =
     \<lparr>cf_bond_dir = path_from DEFAULT_BOND_DIR, cf_socket_path = resolve_socket_path xdg euid (socket_override argv),
      cf_auth_timeout = PAM_DEFAULT_AUTH_TIMEOUT_MS\<rparr>"

definition from_pam_argv_for_uid :: "string list \<Rightarrow> u32 \<Rightarrow> pam_config" where
  "from_pam_argv_for_uid argv uid =
     \<lparr>cf_bond_dir = path_from DEFAULT_BOND_DIR,
      cf_socket_path =
        (case socket_override argv of
           Some p \<Rightarrow> p
         | None \<Rightarrow> runtime_socket (path_from (DEFAULT_RUNTIME_FALLBACK_PREFIX @ dec_string (unat uid)))),
      cf_auth_timeout = PAM_DEFAULT_AUTH_TIMEOUT_MS\<rparr>"

definition last_log_path :: "pam_config \<Rightarrow> path" where
  "last_log_path cfg = path_join (cf_bond_dir cfg) LAST_LOG_FILENAME"

definition bonds_file_path :: "pam_config \<Rightarrow> path" where
  "bonds_file_path cfg = path_join (cf_bond_dir cfg) ''bonds.toml''"

subsection \<open>Authentication\<close>

definition PAM_SUCCESS :: int where "PAM_SUCCESS = 0"
definition PAM_AUTH_ERR :: int where "PAM_AUTH_ERR = 7"
definition PAM_AUTHINFO_UNAVAIL :: int where "PAM_AUTHINFO_UNAVAIL = 9"
definition OUTCOME_REASON_OFFLINE :: string where "OUTCOME_REASON_OFFLINE = ''offline''"
definition OUTCOME_REASON_ADAPTER_MISSING :: string where "OUTCOME_REASON_ADAPTER_MISSING = ''adapter-missing''"
definition LAST_LOG_VERB_SUCCESS :: string where "LAST_LOG_VERB_SUCCESS = ''success''"
definition LAST_LOG_VERB_FAILURE :: string where "LAST_LOG_VERB_FAILURE = ''failure''"
definition LAST_LOG_UNKNOWN_PEER :: string where "LAST_LOG_UNKNOWN_PEER = ''unknown''"
definition REASON_NO_BONDS_CONFIGURED :: string where "REASON_NO_BONDS_CONFIGURED = ''no bonds configured''"
definition REASON_NO_BONDED_PEER :: string where "REASON_NO_BONDED_PEER = ''no bonded peer''"

lemmas pam_codes = PAM_SUCCESS_def PAM_AUTH_ERR_def PAM_AUTHINFO_UNAVAIL_def

datatype auth_outcome =
    Auth_Success string
  | AuthInfoUnavail string "string option"
  | AuthErr string "string option"

primrec to_pam_code :: "auth_outcome \<Rightarrow> int" where
  "to_pam_code (Auth_Success pid) = PAM_SUCCESS"
| "to_pam_code (AuthInfoUnavail reason pid) = PAM_AUTHINFO_UNAVAIL"
| "to_pam_code (AuthErr reason pid) = PAM_AUTH_ERR"

primrec outcome_reason :: "auth_outcome \<Rightarrow> string" where
  "outcome_reason (Auth_Success pid) = ''granted''"
| "outcome_reason (AuthInfoUnavail reason pid) = reason"
| "outcome_reason (AuthErr reason pid) = reason"

primrec outcome_peer_id :: "auth_outcome \<Rightarrow> string option" where
  "outcome_peer_id (Auth_Success pid) = Some pid"
| "outcome_peer_id (AuthInfoUnavail reason pid) = pid"
| "outcome_peer_id (AuthErr reason pid) = pid"

definition is_success :: "auth_outcome \<Rightarrow> bool" where
  "is_success oc = (case oc of Auth_Success pid \<Rightarrow> True | _ \<Rightarrow> False)"

definition outcome_reason_to_pam :: "string \<Rightarrow> int \<times> string" where
  "outcome_reason_to_pam reason =
     (if reason = OUTCOME_REASON_OK then (PAM_SUCCESS, OUTCOME_REASON_OK)
      else if reason = OUTCOME_REASON_DENIED then (PAM_AUTH_ERR, OUTCOME_REASON_DENIED)
      else if reason = OUTCOME_REASON_REPLAY then (PAM_AUTH_ERR, OUTCOME_REASON_REPLAY)
      else if reason = OUTCOME_REASON_BAD_SIGNATURE then (PAM_AUTH_ERR, OUTCOME_REASON_BAD_SIGNATURE)
      else if reason = OUTCOME_REASON_RESPONSE_TIMEOUT then (PAM_AUTHINFO_UNAVAIL, OUTCOME_REASON_RESPONSE_TIMEOUT)
      else if reason = OUTCOME_REASON_OFFLINE then (PAM_AUTHINFO_UNAVAIL, OUTCOME_REASON_OFFLINE)
      else if reason = OUTCOME_REASON_BUSY then (PAM_AUTHINFO_UNAVAIL, OUTCOME_REASON_BUSY)
      else if reason = OUTCOME_REASON_UNKNOWN_PEER then (PAM_AUTHINFO_UNAVAIL, OUTCOME_REASON_UNKNOWN_PEER)
      else if reason = OUTCOME_REASON_TRANSPORT_ERROR then (PAM_AUTHINFO_UNAVAIL, OUTCOME_REASON_TRANSPORT_ERROR)
      else if reason = OUTCOME_REASON_ADAPTER_MISSING then (PAM_AUTHINFO_UNAVAIL, OUTCOME_REASON_ADAPTER_MISSING)
      else (PAM_AUTH_ERR, ''unknown-reason''))"

datatype 'a returns = Returns 'a | Panics

text \<open>\<open>max_by\<close> keeps the last of equal maxima.\<close>

definition first_bonded :: "bond_store \<Rightarrow> bond option" where
  "first_bonded store =
     fold (\<lambda>b acc. case acc of
             None \<Rightarrow> Some b
           | Some a \<Rightarrow> if bond_created_at a \<le> bond_created_at b then Some b else Some a)
       (filter (\<lambda>b. \<not> is_revoked b) store) None"

definition resolve_peer_id ::
    "crypto \<Rightarrow> serde \<Rightarrow> pam_config \<Rightarrow> fs \<Rightarrow> (auth_outcome, string) result returns \<times> fs" where
  "resolve_peer_id cr sd cfg s =
     (case store_load cr sd (bonds_file_path cfg) s of
        (Inl e, s') \<Rightarrow>
          (if e = Bond_Panic then Panics else Returns (Inl (AuthInfoUnavail REASON_NO_BONDS_CONFIGURED None)), s')
      | (Inr store, s') \<Rightarrow>
          (Returns (case first_bonded store of
                      None \<Rightarrow> Inl (AuthInfoUnavail REASON_NO_BONDED_PEER None)
                    | Some b \<Rightarrow> Inr (bond_peer_id b)), s'))"

text \<open>The socket: whether it connects, whether its timeouts can be set, what happens to the bytes
  written, and the bytes the other end delivers before the read timeout.\<close>

record daemon_link =
  dk_connects :: "path \<Rightarrow> bool"
  dk_write_timeout_set :: bool
  dk_read_timeout_set :: bool
  dk_writer :: rpc_writer
  dk_reply :: "bytes \<Rightarrow> bytes"

definition daemon_round_trip ::
    "request cbor \<Rightarrow> response cbor \<Rightarrow> daemon_link \<Rightarrow> path \<Rightarrow> string \<Rightarrow> bytes \<Rightarrow> (unit, response) result" where
  "daemon_round_trip rq rs dk socket_path peer_id nonce =
     (if \<not> dk_connects dk socket_path then Inl ()
      else if \<not> dk_write_timeout_set dk then Inl ()
      else if \<not> dk_read_timeout_set dk then Inl ()
      else case write_frame_blocking rq (dk_writer dk) (Req_Challenge peer_id nonce) of
             (Inl e, _) \<Rightarrow> Inl ()
           | (Inr u, sent) \<Rightarrow> result_map_err (\<lambda>_. ()) (fst (read_frame_blocking rs (dk_reply dk sent))))"

definition authenticate_inner ::
    "crypto \<Rightarrow> serde \<Rightarrow> request cbor \<Rightarrow> response cbor \<Rightarrow> daemon_link \<Rightarrow> (unit, bytes) result \<Rightarrow> pam_config \<Rightarrow> fs \<Rightarrow>
     auth_outcome returns \<times> fs" where
  "authenticate_inner cr sd rq rs dk random cfg s =
     (case resolve_peer_id cr sd cfg s of
        (Panics, s') \<Rightarrow> (Panics, s')
      | (Returns (Inl outcome), s') \<Rightarrow> (Returns outcome, s')
      | (Returns (Inr peer_id), s') \<Rightarrow>
          (Returns
             (case random of
                Inl u \<Rightarrow> AuthInfoUnavail OUTCOME_REASON_TRANSPORT_ERROR (Some peer_id)
              | Inr nonce \<Rightarrow>
                  (case daemon_round_trip rq rs dk (cf_socket_path cfg) peer_id nonce of
                     Inl u \<Rightarrow> AuthInfoUnavail OUTCOME_REASON_TRANSPORT_ERROR (Some peer_id)
                   | Inr (Resp_Challenge ok sig reason) \<Rightarrow>
                       (case outcome_reason_to_pam reason of
                          (code, static_reason) \<Rightarrow>
                            if code = PAM_SUCCESS then Auth_Success peer_id
                            else if code = PAM_AUTHINFO_UNAVAIL then AuthInfoUnavail static_reason (Some peer_id)
                            else AuthErr static_reason (Some peer_id))
                   | Inr _ \<Rightarrow> AuthInfoUnavail OUTCOME_REASON_TRANSPORT_ERROR (Some peer_id))), s'))"

text \<open>Opening for append and writing one line.\<close>

definition fs_append :: "path \<Rightarrow> bytes \<Rightarrow> unit io" where
  "fs_append p c =
     io_call
       (\<lambda>n s. case fs_nodes s p of
                Some (File old m) \<Rightarrow> set_node p (Some (File (old @ take (n - 1) c) m)) s
              | Some (Dir m) \<Rightarrow> s
              | None \<Rightarrow>
                  if n = 0 \<or> \<not> creatable (fs_nodes s) p then s
                  else set_node p (Some (File (take (n - 1) c) (file_mode_at s p))) s)
       (\<lambda>s. case fs_nodes s p of
              Some (File old m) \<Rightarrow> (Inr (), set_node p (Some (File (old @ c) m)) s)
            | Some (Dir m) \<Rightarrow> (Inl Io_IsADirectory, s)
            | None \<Rightarrow>
                if creatable (fs_nodes s) p then (Inr (), set_node p (Some (File c (file_mode_at s p))) s)
                else (Inl (absent_error (fs_nodes s) p), s))"

definition last_log_line :: "serde \<Rightarrow> int \<Rightarrow> auth_outcome \<Rightarrow> string" where
  "last_log_line sd now outcome =
     (case rfc3339_format sd now of Some ts \<Rightarrow> ts | None \<Rightarrow> ''0000-00-00T00:00:00Z'') @ '' '' @
     (if is_success outcome then LAST_LOG_VERB_SUCCESS else LAST_LOG_VERB_FAILURE) @ '' '' @
     (case outcome_peer_id outcome of Some pid \<Rightarrow> pid | None \<Rightarrow> LAST_LOG_UNKNOWN_PEER) @ [CHR 0x0A]"

definition append_last_log :: "serde \<Rightarrow> int \<Rightarrow> pam_config \<Rightarrow> auth_outcome \<Rightarrow> unit io" where
  "append_last_log sd now cfg outcome =
     io_bind (case path_parent (last_log_path cfg) of
                Some parent \<Rightarrow> io_ignore (fs_create_dir_all parent)
              | None \<Rightarrow> io_return ()) (\<lambda>_.
       fs_append (last_log_path cfg) (string_bytes (last_log_line sd now outcome)))"

definition authenticate ::
    "crypto \<Rightarrow> serde \<Rightarrow> request cbor \<Rightarrow> response cbor \<Rightarrow> daemon_link \<Rightarrow> (unit, bytes) result \<Rightarrow> int \<Rightarrow> pam_config \<Rightarrow> fs \<Rightarrow>
     auth_outcome returns \<times> fs" where
  "authenticate cr sd rq rs dk random now cfg s =
     (case authenticate_inner cr sd rq rs dk random cfg s of
        (Panics, s') \<Rightarrow> (Panics, s')
      | (Returns outcome, s') \<Rightarrow> (Returns outcome, snd (append_last_log sd now cfg outcome s')))"

subsection \<open>Entry points\<close>

definition run_entry :: "int returns \<Rightarrow> int" where
  "run_entry r = (case r of Returns code \<Rightarrow> code | Panics \<Rightarrow> PAM_AUTH_ERR)"

text \<open>One call of libpam: the handle, the user it reports, the system's user database, and the
  arguments as a C vector.\<close>

record pam_call =
  pc_handle_null :: bool
  pc_get_user :: "int \<times> bytes option"
  pc_user_uid :: "string \<Rightarrow> (string, u32 option) result"
  pc_argc :: int
  pc_argv :: "bytes option list option"

definition pam_login_uid :: "pam_call \<Rightarrow> u32 option" where
  "pam_login_uid pc =
     (if pc_handle_null pc then None
      else case pc_get_user pc of
             (rc, user) \<Rightarrow>
               if rc \<noteq> PAM_SUCCESS then None
               else case user of
                      None \<Rightarrow> None
                    | Some name \<Rightarrow>
                        (case from_utf8 name of
                           None \<Rightarrow> None
                         | Some username \<Rightarrow> (case pc_user_uid pc username of Inr (Some uid) \<Rightarrow> Some uid | _ \<Rightarrow> None)))"

definition collect_pam_argv :: "int \<Rightarrow> bytes option list option \<Rightarrow> string list" where
  "collect_pam_argv argc argv =
     (case argv of
        None \<Rightarrow> []
      | Some ptrs \<Rightarrow>
          if argc \<le> 0 then []
          else List.map_filter (\<lambda>p. case p of None \<Rightarrow> None | Some cstr \<Rightarrow> from_utf8 cstr) (take (nat argc) ptrs))"

definition pam_sm_authenticate ::
    "crypto \<Rightarrow> serde \<Rightarrow> request cbor \<Rightarrow> response cbor \<Rightarrow> daemon_link \<Rightarrow> (unit, bytes) result \<Rightarrow> int \<Rightarrow> pam_call \<Rightarrow> fs \<Rightarrow> int \<times> fs" where
  "pam_sm_authenticate cr sd rq rs dk random now pc s =
     (case (case pam_login_uid pc of
              None \<Rightarrow> (Returns PAM_AUTHINFO_UNAVAIL, s)
            | Some uid \<Rightarrow>
                (case authenticate cr sd rq rs dk random now
                        (from_pam_argv_for_uid (collect_pam_argv (pc_argc pc) (pc_argv pc)) uid) s of
                   (Panics, s') \<Rightarrow> (Panics, s')
                 | (Returns outcome, s') \<Rightarrow> (Returns (to_pam_code outcome), s'))) of
        (r, s') \<Rightarrow> (run_entry r, s'))"

definition pam_sm_setcred :: int where
  "pam_sm_setcred = run_entry (Returns PAM_SUCCESS)"

definition pam_sm_acct_mgmt :: int where
  "pam_sm_acct_mgmt = run_entry (Returns PAM_AUTHINFO_UNAVAIL)"

subsection \<open>Properties\<close>

lemma reason_str_ok_iff: "reason_str outcome = OUTCOME_REASON_OK \<longleftrightarrow> (\<exists>sig. outcome = CO_Ok sig)"
  by (cases outcome) (simp_all add: outcome_reasons)

lemma reason_success_iff: "fst (outcome_reason_to_pam reason) = PAM_SUCCESS \<longleftrightarrow> reason = OUTCOME_REASON_OK"
  by (simp add: outcome_reason_to_pam_def pam_codes)

lemma reason_code_range: "fst (outcome_reason_to_pam reason) \<in> {PAM_SUCCESS, PAM_AUTH_ERR, PAM_AUTHINFO_UNAVAIL}"
  by (simp add: outcome_reason_to_pam_def)

lemma first_bonded_newest:
  assumes "first_bonded store = Some b"
  shows "b \<in> set store \<and> \<not> is_revoked b \<and> (\<forall>b' \<in> set store. \<not> is_revoked b' \<longrightarrow> bond_created_at b' \<le> bond_created_at b)"
proof -
  let ?f = "\<lambda>b acc. case acc of None \<Rightarrow> Some b | Some a \<Rightarrow> if bond_created_at a \<le> bond_created_at b then Some b else Some a"
  have gen: "fold ?f xs acc = Some b \<Longrightarrow>
      (b \<in> set xs \<or> acc = Some b) \<and> (\<forall>x \<in> set xs. bond_created_at x \<le> bond_created_at b) \<and>
      (\<forall>a. acc = Some a \<longrightarrow> bond_created_at a \<le> bond_created_at b)" for xs acc
  proof (induction xs arbitrary: acc)
    case (Cons x xs)
    from Cons.prems have "fold ?f xs (?f x acc) = Some b" by simp
    from Cons.IH [OF this] show ?case by (auto split: option.splits if_splits)
  qed simp
  from gen [OF assms [unfolded first_bonded_def]] show ?thesis by auto
qed

text \<open>What the module reads back is what the daemon's handler answered.\<close>

lemma handler_answers:
  assumes "cbor_laws rq" and "cbor_laws rs" and "encode_frame rq req = Inr sent"
    and "handle_connection cr rq rs env cn uid own (Some b) fixed started now sent = (res, warned, written, cmds, oc')"
    and "fst (read_frame rs written) = Inr resp"
  shows "resp = fst (dispatch cr env fixed started now req b)"
proof -
  have empty: "fst (read_frame rs []) \<noteq> Inr resp"
    by (simp add: read_frame_def read_exact_def LENGTH_PREFIX_BYTES_def)
  have "read_frame rq sent = (Inr req, [])"
    using read_frame_encoded [OF assms(1,3), of "[]"] by simp
  with assms(4) have "written = [] \<or> (\<exists>r. write_frame rs (cn_writer cn) (fst (dispatch cr env fixed started now req b)) = (r, written))"
    by (auto simp: handle_connection_def Let_def split: sum.splits prod.splits request.splits option.splits)
  with empty assms(5) obtain r where w: "write_frame rs (cn_writer cn) (fst (dispatch cr env fixed started now req b)) = (r, written)"
    by auto
  have "encode_frame rs (fst (dispatch cr env fixed started now req b)) = Inr written \<or> written = []"
    using w by (auto simp: write_frame_def split: sum.splits)
  with empty assms(5) show ?thesis
    using read_frame_encoded [OF assms(2), of "fst (dispatch cr env fixed started now req b)" written "[]"] by auto
qed

lemma dispatch_ok:
  assumes "fst (dispatch cr env None started now (Req_Challenge pid n) b) = Resp_Challenge okf sg OUTCOME_REASON_OK"
  obtains oc sig oc' where "bk_orchestrator b = Some oc"
    "issue_challenge_cancellable cr env pid DAEMON_AUTH_TIMEOUT_MS oc = (CO_Ok sig, oc')" "okf" "sg = Some sig"
proof -
  from assms obtain oc where oc: "bk_orchestrator b = Some oc"
    by (auto simp: dispatch_def STUB_CHALLENGE_REASON_def OUTCOME_REASON_OK_def split: option.splits)
  obtain out oc' where i: "issue_challenge_cancellable cr env pid DAEMON_AUTH_TIMEOUT_MS oc = (out, oc')" by fastforce
  with assms oc have "reason_str out = OUTCOME_REASON_OK" by (simp add: dispatch_def)
  then obtain sig where "out = CO_Ok sig" by (auto simp: reason_str_ok_iff)
  with that oc i assms show thesis by (simp add: dispatch_def signature_bytes_def)
qed

abbreviation bonds_toml :: path where
  "bonds_toml \<equiv> [''var'', ''lib'', ''syauth'', ''bonds.toml'']"

lemma bonds_file_path_eq [simp]: "bonds_file_path (from_pam_argv_for_uid argv uid) = bonds_toml"
  unfolding bonds_file_path_def from_pam_argv_for_uid_def pam_config.simps by code_simp

lemma pam_code_cases:
  "fst (pam_sm_authenticate cr sd rq rs dk random now pc s) =
     (case pam_login_uid pc of
        None \<Rightarrow> PAM_AUTHINFO_UNAVAIL
      | Some uid \<Rightarrow>
          (case fst (authenticate_inner cr sd rq rs dk random (from_pam_argv_for_uid (collect_pam_argv (pc_argc pc) (pc_argv pc)) uid) s) of
             Panics \<Rightarrow> PAM_AUTH_ERR
           | Returns outcome \<Rightarrow> to_pam_code outcome))"
  by (simp add: pam_sm_authenticate_def authenticate_def run_entry_def split: option.splits returns.splits prod.splits)

text \<open>The code once the store is loaded.\<close>

definition answer_code ::
    "request cbor \<Rightarrow> response cbor \<Rightarrow> daemon_link \<Rightarrow> (unit, bytes) result \<Rightarrow> path \<Rightarrow> bond option \<Rightarrow> int" where
  "answer_code rq rs dk random sock ob =
     (case ob of
        None \<Rightarrow> PAM_AUTHINFO_UNAVAIL
      | Some b \<Rightarrow>
          (case random of
             Inl u \<Rightarrow> PAM_AUTHINFO_UNAVAIL
           | Inr nonce \<Rightarrow>
               (case daemon_round_trip rq rs dk sock (bond_peer_id b) nonce of
                  Inr (Resp_Challenge okf sg reason) \<Rightarrow> fst (outcome_reason_to_pam reason)
                | _ \<Rightarrow> PAM_AUTHINFO_UNAVAIL)))"

text \<open>The code of one authentication, by what the store and the daemon gave.\<close>

lemma authenticate_inner_code:
  "(case fst (authenticate_inner cr sd rq rs dk random cfg s) of Panics \<Rightarrow> PAM_AUTH_ERR | Returns outcome \<Rightarrow> to_pam_code outcome) =
     (case fst (store_load cr sd (bonds_file_path cfg) s) of
        Inl e \<Rightarrow> if e = Bond_Panic then PAM_AUTH_ERR else PAM_AUTHINFO_UNAVAIL
      | Inr store \<Rightarrow> answer_code rq rs dk random (cf_socket_path cfg) (first_bonded store))"
proof -
  obtain r s' where l: "store_load cr sd (bonds_file_path cfg) s = (r, s')" by fastforce
  have code: "to_pam_code (case outcome_reason_to_pam reason of (code, sr) \<Rightarrow>
        if code = PAM_SUCCESS then Auth_Success p else if code = PAM_AUTHINFO_UNAVAIL then AuthInfoUnavail sr q else AuthErr sr q)
      = fst (outcome_reason_to_pam reason)" for reason p q
    using reason_code_range [of reason] by (auto simp: case_prod_beta)
  show ?thesis
    by (simp add: authenticate_inner_def resolve_peer_id_def l code answer_code_def
        split: sum.split option.split response.split if_split)
qed


text \<open>The reasons for which the stack goes on to the next module.\<close>

definition fall_through_reasons :: "string set" where
  "fall_through_reasons =
     {''response-timeout'', ''offline'', ''busy'', ''unknown-peer'', ''transport-error'', ''adapter-missing''}"

lemmas reason_defs = outcome_reasons OUTCOME_REASON_OFFLINE_def OUTCOME_REASON_ADAPTER_MISSING_def

lemma pam_code_distinct [simp]:
  "PAM_SUCCESS \<noteq> PAM_AUTHINFO_UNAVAIL" "PAM_AUTH_ERR \<noteq> PAM_AUTHINFO_UNAVAIL" "PAM_SUCCESS \<noteq> PAM_AUTH_ERR"
  "PAM_AUTHINFO_UNAVAIL \<noteq> PAM_SUCCESS" "PAM_AUTHINFO_UNAVAIL \<noteq> PAM_AUTH_ERR" "PAM_AUTH_ERR \<noteq> PAM_SUCCESS"
  by (simp_all add: pam_codes)

lemma reason_code_iff:
  "fst (outcome_reason_to_pam reason) = PAM_AUTH_ERR \<longleftrightarrow> reason \<noteq> ''ok'' \<and> reason \<notin> fall_through_reasons"
  "fst (outcome_reason_to_pam reason) = PAM_SUCCESS \<longleftrightarrow> reason = ''ok''"
  by (simp_all add: fall_through_reasons_def outcome_reason_to_pam_def reason_defs)

text \<open>The daemon answers the challenge to the chosen bond, with a reason that satisfies \<open>P\<close>.\<close>

definition answered ::
    "request cbor \<Rightarrow> response cbor \<Rightarrow> daemon_link \<Rightarrow> (unit, bytes) result \<Rightarrow> path \<Rightarrow> bond option \<Rightarrow> (string \<Rightarrow> bool) \<Rightarrow> bool" where
  "answered rq rs dk random sock ob P \<longleftrightarrow>
     (\<exists>bond nonce okf sg reason. ob = Some bond \<and> random = Inr nonce \<and>
        daemon_round_trip rq rs dk sock (bond_peer_id bond) nonce = Inr (Resp_Challenge okf sg reason) \<and> P reason)"

lemma answer_code_cases:
  "answer_code rq rs dk random sock ob = PAM_SUCCESS \<or> answer_code rq rs dk random sock ob = PAM_AUTH_ERR \<or>
     answer_code rq rs dk random sock ob = PAM_AUTHINFO_UNAVAIL"
  "answer_code rq rs dk random sock ob = PAM_SUCCESS \<longleftrightarrow> answered rq rs dk random sock ob (\<lambda>reason. reason = ''ok'')"
  "answer_code rq rs dk random sock ob = PAM_AUTH_ERR \<longleftrightarrow>
     answered rq rs dk random sock ob (\<lambda>reason. reason \<noteq> ''ok'' \<and> reason \<notin> fall_through_reasons)"
proof -
  show "answer_code rq rs dk random sock ob = PAM_SUCCESS \<or> answer_code rq rs dk random sock ob = PAM_AUTH_ERR \<or>
     answer_code rq rs dk random sock ob = PAM_AUTHINFO_UNAVAIL"
    using reason_code_range by (simp add: answer_code_def split: option.split sum.split response.split)
qed (auto simp: answer_code_def answered_def reason_code_iff split: option.split sum.split response.split)

text \<open>C16: the module fails closed. The entry point returns one of three codes; it returns \<open>PAM_SUCCESS\<close>
  exactly when the user is known, the store loads and has a bonded peer, the random source works and
  the daemon answers the challenge with reason \<open>ok\<close>; it returns \<open>PAM_AUTH_ERR\<close> exactly when loading the
  store panics or the daemon's reason is a refusal or unknown to the module; in every other case the
  stack falls through.\<close>

theorem pam_fail_closed:
  "let code = fst (pam_sm_authenticate cr sd rq rs dk random clock pc s);
       load = fst (store_load cr sd bonds_toml s);
       says = (\<lambda>P. \<exists>uid store. pam_login_uid pc = Some uid \<and> load = Inr store \<and>
         answered rq rs dk random (cf_socket_path (from_pam_argv_for_uid (collect_pam_argv (pc_argc pc) (pc_argv pc)) uid))
           (first_bonded store) P)
   in (code = PAM_SUCCESS \<or> code = PAM_AUTH_ERR \<or> code = PAM_AUTHINFO_UNAVAIL) \<and>
      (code = PAM_SUCCESS \<longleftrightarrow> says (\<lambda>reason. reason = ''ok'')) \<and>
      (code = PAM_AUTH_ERR \<longleftrightarrow>
         (pam_login_uid pc \<noteq> None \<and> load = Inl Bond_Panic) \<or>
         says (\<lambda>reason. reason \<noteq> ''ok'' \<and> reason \<notin> fall_through_reasons))"
proof (cases "pam_login_uid pc")
  case None
  then show ?thesis by (simp add: pam_code_cases Let_def)
next
  case (Some uid)
  let ?dir = "from_pam_argv_for_uid (collect_pam_argv (pc_argc pc) (pc_argv pc)) uid"
  have code: "fst (pam_sm_authenticate cr sd rq rs dk random clock pc s) =
      (case fst (store_load cr sd bonds_toml s) of
         Inl e \<Rightarrow> if e = Bond_Panic then PAM_AUTH_ERR else PAM_AUTHINFO_UNAVAIL
       | Inr store \<Rightarrow> answer_code rq rs dk random (cf_socket_path ?dir) (first_bonded store))"
    by (simp add: pam_code_cases Some authenticate_inner_code)
  show ?thesis
    using answer_code_cases [of rq rs dk random "cf_socket_path ?dir"]
    by (cases "fst (store_load cr sd bonds_toml s)") (simp_all add: code Some Let_def)
qed

text \<open>A codec for one value, and a system in which everything works.\<close>

definition one_value_cbor :: "'a \<Rightarrow> 'a cbor" where
  "one_value_cbor v =
     \<lparr>cbor_into = (\<lambda>x. if x = v then Inr [1] else Inl ''other''), cbor_from = (\<lambda>bs. if bs = [1] then Inr v else Inl ''other'')\<rparr>"

lemma one_value_cbor_laws: "cbor_laws (one_value_cbor v)"
  by (simp add: cbor_laws_def one_value_cbor_def)

lemma one_value_encode: "encode_frame (one_value_cbor v) v = Inr (u32_to_be 1 @ [1])"
  by (simp add: encode_frame_def one_value_cbor_def RPC_MAX_FRAME_LEN_def u32_try_from_def)

lemma one_value_read: "read_frame (one_value_cbor v) (u32_to_be 1 @ [1]) = (Inr v, [])"
  using read_frame_encoded [OF one_value_cbor_laws one_value_encode, where rest = "[]"] by simp

definition sample_fs :: fs where
  "sample_fs = fresh_fs\<lparr>fs_nodes := [bonds_toml \<mapsto> File (string_bytes ''bonds'') 0x180]\<rparr>"

lemma sample_fs_load: "fst (store_load padding_crypto sample_serde bonds_toml sample_fs) = Inr [sample_bond]"
proof -
  have "serde_laws sample_serde" by (simp add: sample_serde_def one_file_serde_laws)
  from parse_serialized [OF this sample_serialized, of padding_crypto] sample_bond_wf
  obtain raw where "from_utf8 (string_bytes ''bonds'') = Some raw" "parse_store padding_crypto sample_serde raw = Inr [sample_bond]"
    by auto
  then show ?thesis
    using store_load_calm [where s = sample_fs and path = bonds_toml and c = "string_bytes ''bonds''" and raw = raw]
    by (simp add: calm_def sample_fs_def fresh_fs_def)
qed

definition sample_call :: pam_call where
  "sample_call = \<lparr>pc_handle_null = False, pc_get_user = (PAM_SUCCESS, Some [0x75]), pc_user_uid = (\<lambda>_. Inr (Some 1000)),
     pc_argc = 0, pc_argv = None\<rparr>"

lemma sample_login: "pam_login_uid sample_call = Some 1000"
proof -
  have "utf8_ok [0x75]" by code_simp
  then show ?thesis by (simp add: pam_login_uid_def sample_call_def from_utf8_def)
qed

abbreviation sample_request :: "request cbor" where
  "sample_request \<equiv> one_value_cbor (Req_Challenge sample_pid [])"

abbreviation sample_response :: "response cbor" where
  "sample_response \<equiv> one_value_cbor (Resp_Challenge True (Some sample_sig) OUTCOME_REASON_OK)"

abbreviation sample_backend :: backend_state where
  "sample_backend \<equiv> \<lparr>bk_reload_tx = None, bk_orchestrator = Some sample_orchestrator\<rparr>"

abbreviation sample_connection :: connection where
  "sample_connection \<equiv> \<lparr>cn_peer_uid = Inr 0, cn_interrupted = None, cn_writer = open_writer\<rparr>"

definition sample_link :: daemon_link where
  "sample_link = \<lparr>dk_connects = (\<lambda>_. True), dk_write_timeout_set = True, dk_read_timeout_set = True, dk_writer = open_writer,
     dk_reply = (\<lambda>sent. fst (snd (snd (handle_connection padding_crypto sample_request sample_response
       (sample_env\<lparr>ce_arrived := W_Bytes sample_sig\<rparr>) sample_connection 1000 sample_backend (Some sample_backend) None 0 0 sent))))\<rparr>"

lemma sample_round_trip:
  "daemon_round_trip sample_request sample_response sample_link sock sample_pid [] =
     Inr (Resp_Challenge True (Some sample_sig) OUTCOME_REASON_OK)"
proof -
  obtain oc' where "issue_challenge_cancellable padding_crypto (sample_env\<lparr>ce_arrived := W_Bytes sample_sig\<rparr>) sample_pid
      DAEMON_AUTH_TIMEOUT_MS sample_orchestrator = (CO_Ok sample_sig, oc')"
    using sample_challenge_ok by blast
  then have "dispatch padding_crypto (sample_env\<lparr>ce_arrived := W_Bytes sample_sig\<rparr>) None 0 0 (Req_Challenge sample_pid []) sample_backend
      = (Resp_Challenge True (Some sample_sig) OUTCOME_REASON_OK, [], Some oc')"
    by (simp only: dispatch_def request.case backend_state.simps option.case prod.case challenge_outcome.case
        signature_bytes_def reason_str.simps)
  then have "dk_reply sample_link (u32_to_be 1 @ [1]) = u32_to_be 1 @ [1]"
    by (simp add: sample_link_def handle_connection_def one_value_read Let_def write_frame_def one_value_encode open_writer_def
        UID_ROOT_def)
  moreover have "dk_connects sample_link sock" "dk_write_timeout_set sample_link" "dk_read_timeout_set sample_link"
    "dk_writer sample_link = open_writer"
    by (simp_all add: sample_link_def)
  ultimately show ?thesis
    by (simp add: daemon_round_trip_def write_frame_blocking_def one_value_encode read_frame_blocking_eq one_value_read open_writer_def)
qed


end
