(* ===== verification/Reconcile.thy ===== *)
theory Reconcile
  imports Pair_Recovery Transport_Link
begin

section \<open>Crash recovery: \<open>reconcile.rs\<close> of syauth-cli\<close>

text \<open>
  The command that finishes a pairing whose outcome was left open: it reads the journal and the staged
  bond, asks the phone for its status over the authenticated link and promotes or discards the staging.
  The Bluetooth stack is a record of outcomes; the status query itself is \<open>query_pair_status\<close> of
  \<open>Transport_Link\<close>, the promotion that of \<open>Pair_Recovery\<close>.
\<close>

datatype rejection =
    Rej_Query
  | Rej_Transaction transaction_error
  | Rej_Recovery recovery_error

datatype reconcile_error =
    Rc_NoJournal
  | Rc_MalformedJournal
  | Rc_Transport "string + transport_error"
  | Rc_Transaction rejection
  | Rc_Io io_error
  | Rc_Bond bond_error
  | Rc_Panic

datatype reconcile_result = RR_Bonded | RR_Aborted | RR_Uncertain

definition hex_id :: "string \<Rightarrow> (reconcile_error, bytes) result" where
  "hex_id text =
     (if length text \<noteq> 32 then Inl Rc_MalformedJournal
      else result_map_err (\<lambda>e. case e of Hex_Panic \<Rightarrow> Rc_Panic | Hex_Digit \<Rightarrow> Rc_MalformedJournal) (hex_from text 0 16))"

text \<open>The session, the adapter, the parsed address and the device object, each with its outcome.\<close>

record reconcile_link =
  rl_session :: "(string, unit) result"
  rl_adapter :: "string \<Rightarrow> (string, unit) result"
  rl_address :: "string \<Rightarrow> nat option"
  rl_device :: "nat \<Rightarrow> (string, gatt_device) result"

definition authenticated_status ::
    "reconcile_link \<Rightarrow> string \<Rightarrow> string \<Rightarrow> status_message \<Rightarrow> (reconcile_error, status_message) result" where
  "authenticated_status rl adapter_name address query =
     result_bind (result_map_err (\<lambda>e. Rc_Transport (Inl e)) (rl_session rl)) (\<lambda>_.
     result_bind (result_map_err (\<lambda>e. Rc_Transport (Inl e)) (rl_adapter rl adapter_name)) (\<lambda>_.
     result_bind (ok_or Rc_MalformedJournal (rl_address rl address)) (\<lambda>a.
     result_bind (result_map_err (\<lambda>e. Rc_Transport (Inl e)) (rl_device rl a)) (\<lambda>device.
     result_map_err (\<lambda>e. Rc_Transport (Inr e)) (query_pair_status device query)))))"

definition clear_recovery :: "path \<Rightarrow> string \<Rightarrow> ('e, unit) prog" where
  "clear_recovery d pid = discard d pid"

definition finalize :: "crypto \<Rightarrow> serde \<Rightarrow> path \<Rightarrow> bond \<Rightarrow> (reconcile_error, unit) prog" where
  "finalize cr sd d pending =
     io_map_err (\<lambda>e. case e of Rec_Io i \<Rightarrow> Rc_Io i | _ \<Rightarrow> Rc_Transaction (Rej_Recovery e))
       (promote cr sd d (bond_peer_id pending))"

text \<open>The part of \<open>apply_status_decision\<close> before its effects: what the transaction makes of the response.\<close>

definition status_decision :: "transaction \<Rightarrow> status_message \<Rightarrow> u64 \<Rightarrow> (reconcile_error, reconcile_result) result" where
  "status_decision t response n =
     result_bind (ok_or (Rc_Transaction Rej_Query) (sm_state response)) (\<lambda>remote.
     case apply_status_response t response n of
       (Inl e, t1) \<Rightarrow> Inl (Rc_Transaction (Rej_Transaction e))
     | (Inr p, t1) \<Rightarrow>
         if remote = St_Unknown \<or> tx_phase t1 = Uncertain then Inr RR_Uncertain
         else
           result_bind
             (if tx_phase t1 = Committed
              then (case tx_local t1 Ev_Committed of
                      (Inl e, t2) \<Rightarrow> Inl (Rc_Transaction (Rej_Transaction e))
                    | (Inr u, t2) \<Rightarrow>
                        (case reconcile_status t2 remote of
                           (Inl e, t3) \<Rightarrow> Inl (Rc_Transaction (Rej_Transaction e))
                         | (Inr p, t3) \<Rightarrow> Inr t3))
              else Inr t1) (\<lambda>t4.
           Inr (case tx_phase t4 of Bonded \<Rightarrow> RR_Bonded | Aborted x \<Rightarrow> RR_Aborted | _ \<Rightarrow> RR_Uncertain)))"

definition apply_status_decision ::
    "crypto \<Rightarrow> serde \<Rightarrow> path \<Rightarrow> bond \<Rightarrow> transaction \<Rightarrow> status_message \<Rightarrow> u64 \<Rightarrow> (reconcile_error, reconcile_result) prog" where
  "apply_status_decision cr sd d pending t response n =
     io_bind (io_lift (status_decision t response n)) (\<lambda>r.
     case r of
       RR_Bonded \<Rightarrow> io_bind (finalize cr sd d pending) (\<lambda>_. io_return RR_Bonded)
     | RR_Aborted \<Rightarrow> io_bind (clear_recovery d (bond_peer_id pending)) (\<lambda>_. io_return RR_Aborted)
     | RR_Uncertain \<Rightarrow> io_return RR_Uncertain)"

definition journal_status :: "string \<Rightarrow> (reconcile_error, status_state) result" where
  "journal_status journal =
     (let st = (case journal_field journal ''state'' of None \<Rightarrow> ''commit_pending'' | Some x \<Rightarrow> x) in
      if st = ''pre_commit'' then Inr St_PreCommit
      else if st = ''commit_pending'' then Inr St_CommitPending
      else if st = ''aborted'' then Inr St_Aborted
      else Inl Rc_MalformedJournal)"

definition run_reconcile ::
    "crypto \<Rightarrow> serde \<Rightarrow> reconcile_link \<Rightarrow> string \<Rightarrow> path \<Rightarrow> u64 \<Rightarrow> (reconcile_error, reconcile_result) prog" where
  "run_reconcile cr sd rl adapter d n =
     io_bind (io_map_err (\<lambda>_. Rc_NoJournal) (fs_read_to_string (journal_path d))) (\<lambda>journal.
     io_bind (io_lift (result_bind (ok_or Rc_MalformedJournal (journal_field journal ''transaction_id'')) hex_id)) (\<lambda>i.
     io_bind (io_lift (ok_or Rc_MalformedJournal (journal_field journal ''peer_id''))) (\<lambda>pid.
     io_bind (io_lift (ok_or Rc_MalformedJournal (journal_field journal ''peer_address''))) (\<lambda>address.
     io_bind (io_map_err Rc_Bond (store_load cr sd (pending_bond_path d))) (\<lambda>bs.
     io_bind (io_lift (ok_or Rc_MalformedJournal (case bs of [] \<Rightarrow> None | b # _ \<Rightarrow> Some b))) (\<lambda>pending.
     if bond_peer_id pending \<noteq> pid then io_fail Rc_MalformedJournal
     else
       io_bind (io_lift (journal_status journal)) (\<lambda>local_status.
       io_bind (io_lift (result_map_err (\<lambda>e. Rc_Transaction (Rej_Transaction e))
         (from_recovery_status i Coordinator local_status))) (\<lambda>t.
       io_bind (io_lift (authenticated_status rl adapter address (status_query i n))) (\<lambda>response.
       apply_status_decision cr sd d pending t response n)))))))))"

text \<open>The command: a missing journal and an unreachable phone are no failures. \<open>reason\<close> renders the cause.\<close>

datatype printed = Stdout string | Stderr string

definition run_reconcile_cli ::
    "(string + transport_error \<Rightarrow> string) \<Rightarrow> (reconcile_error, reconcile_result) result \<Rightarrow> (reconcile_error, printed) result" where
  "run_reconcile_cli reason r =
     (case r of
        Inr RR_Bonded \<Rightarrow> Inr (Stdout ''syauth-reconcile: bilateral BONDED; staged bond activated'')
      | Inr RR_Aborted \<Rightarrow> Inr (Stdout ''syauth-reconcile: bilateral ABORTED; staged bond removed'')
      | Inr RR_Uncertain \<Rightarrow> Inr (Stderr ''syauth-reconcile: outcome uncertain; recovery retained'')
      | Inl Rc_NoJournal \<Rightarrow> Inr (Stdout ''syauth-reconcile: no staged pairing transaction; nothing to reconcile'')
      | Inl (Rc_Transport e) \<Rightarrow> 
          Inr (Stderr (''syauth-reconcile: peer unreachable ('' @ reason e @ ''); staged transaction kept for a later attempt''))
      | Inl e \<Rightarrow> Inl e)"

subsection \<open>The decision\<close>

definition answers :: "bytes \<Rightarrow> u64 \<Rightarrow> status_message \<Rightarrow> bool" where
  "answers i n response \<longleftrightarrow> sm_transaction response = i \<and> sm_nonce response = n"

lemma status_decision_exact:
  assumes "from_recovery_status i Coordinator loc = Inr t" and "loc \<in> {St_PreCommit, St_CommitPending, St_Aborted}"
  shows "status_decision t response n =
    (case sm_state response of
       None \<Rightarrow> Inl (Rc_Transaction Rej_Query)
     | Some remote \<Rightarrow>
         if \<not> answers i n response then Inl (Rc_Transaction (Rej_Transaction WrongTransaction))
         else if loc = St_CommitPending \<and> remote \<in> {St_Committed, St_Bonded} then Inr RR_Bonded
         else if loc = St_PreCommit \<and> remote = St_Aborted \<or> loc = St_Aborted \<and> remote \<in> {St_Aborted, St_PreCommit}
         then Inr RR_Aborted
         else Inr RR_Uncertain)"
proof (cases "sm_state response")
  case (Some remote)
  let ?t = "\<lambda>p. \<lparr>tx_id = i, tx_role = Coordinator, tx_phase = p, tx_capabilities = both, tx_confirmed = both,
    tx_prepared = both, tx_committed = neither\<rparr>"
  note defs = status_decision_def ok_or_def answers_def apply_status_response_def reconcile_status_def
    tx_status_def tx_record_committed_def flag_def set_flag_def Let_def
  consider "loc = St_PreCommit" "t = ?t Prepared" | "loc = St_CommitPending" "t = ?t CommitPending"
    | "loc = St_Aborted" "t = ?t (Aborted Op_Error)"
    using assms by (auto simp: from_recovery_status_def tx_validate_def Let_def split: if_splits)
  then show ?thesis
  proof cases
    case 1
    then show ?thesis by (cases remote) (simp_all add: defs Some)
  next
    case 2
    then show ?thesis by (cases remote) (simp_all add: defs Some)
  next
    case 3
    then show ?thesis by (cases remote) (simp_all add: defs Some)
  qed
qed (simp add: status_decision_def ok_or_def)

subsection \<open>What recovery does to the files\<close>

definition reconcile_failed :: "path \<Rightarrow> nodes \<Rightarrow> reconcile_error \<Rightarrow> nodes \<Rightarrow> bool" where
  "reconcile_failed d N0 e N \<longleftrightarrow> N (bonds_path d) = N0 (bonds_path d) \<and>
     (N = N0 \<or> (\<exists>i. e = Rc_Io i) \<or> (\<exists>x. e = Rc_Transaction (Rej_Recovery x)))"

text \<open>The journal with its transaction and state, the staged bond it names, and the answer of the phone.\<close>

definition open_pairing ::
    "crypto \<Rightarrow> serde \<Rightarrow> reconcile_link \<Rightarrow> string \<Rightarrow> path \<Rightarrow> u64 \<Rightarrow> nodes \<Rightarrow> status_state \<Rightarrow> bond \<Rightarrow> status_state \<Rightarrow> bool" where
  "open_pairing cr sd rl adapter d n N0 loc pending remote \<longleftrightarrow>
     (\<exists>journal m idt i address rest response.
        N0 (journal_path d) = Some (File (string_bytes journal) m) \<and>
        journal_field journal ''transaction_id'' = Some idt \<and> hex_id idt = Inr i \<and>
        journal_field journal ''peer_id'' = Some (bond_peer_id pending) \<and>
        journal_field journal ''peer_address'' = Some address \<and> journal_status journal = Inr loc \<and>
        store_at cr sd N0 (pending_bond_path d) (pending # rest) \<and>
        authenticated_status rl adapter address (status_query i n) = Inr response \<and>
        answers i n response \<and> sm_state response = Some remote)"

definition reconciled ::
    "crypto \<Rightarrow> serde \<Rightarrow> reconcile_link \<Rightarrow> string \<Rightarrow> path \<Rightarrow> u64 \<Rightarrow> nodes \<Rightarrow> reconcile_result \<Rightarrow> nodes \<Rightarrow> bool" where
  "reconciled cr sd rl adapter d n N0 r N \<longleftrightarrow>
     (case r of
        RR_Bonded \<Rightarrow> \<exists>pending remote. open_pairing cr sd rl adapter d n N0 St_CommitPending pending remote \<and>
          remote \<in> {St_Committed, St_Bonded} \<and> promoted cr sd d (bond_peer_id pending) N0 N
      | RR_Aborted \<Rightarrow> \<exists>loc pending remote. open_pairing cr sd rl adapter d n N0 loc pending remote \<and>
          loc \<in> {St_PreCommit, St_Aborted} \<and> remote \<in> {St_Aborted, St_PreCommit} \<and>
          (\<forall>q. active_trust d q \<longrightarrow> N q = N0 q)
      | RR_Uncertain \<Rightarrow> N = N0)"

lemma reconcile_failed_known [simp]: "reconcile_failed d N0 e N0"
  by (simp add: reconcile_failed_def)

lemma known_decision:
  assumes laws: "crypto_laws cr" "d \<noteq> []"
    and op: "\<And>remote. sm_state response = Some remote \<Longrightarrow> answers i n response \<Longrightarrow>
      open_pairing cr sd rl adapter d n N0 loc pending remote"
    and pid: "peer_name (bond_peer_id pending)"
    and loc: "from_recovery_status i Coordinator loc = Inr t" "loc \<in> {St_PreCommit, St_CommitPending, St_Aborted}"
  shows "hoare (\<lambda>N. N = N0) (apply_status_decision cr sd d pending t response n)
    (reconciled cr sd rl adapter d n N0) (reconcile_failed d N0)"
  unfolding apply_status_decision_def
proof (rule known_lift)
  fix r
  assume dec: "status_decision t response n = Inr r"
  then obtain remote where remote: "sm_state response = Some remote" "answers i n response"
    unfolding status_decision_exact [OF loc] by (auto split: option.splits if_splits)
  note op = op [OF remote]
  have frame: "frame_on (staging_area d (bond_peer_id pending)) (\<lambda>N. \<forall>q. active_trust d q \<longrightarrow> N q = N0 q)"
    using active_not_staging [OF pid] by (auto simp: frame_on_def)
  show "hoare (\<lambda>N. N = N0)
      (case r of RR_Bonded \<Rightarrow> io_bind (finalize cr sd d pending) (\<lambda>_. io_return RR_Bonded)
       | RR_Aborted \<Rightarrow> io_bind (clear_recovery d (bond_peer_id pending)) (\<lambda>_. io_return RR_Aborted)
       | RR_Uncertain \<Rightarrow> io_return RR_Uncertain)
      (reconciled cr sd rl adapter d n N0) (reconcile_failed d N0)"
  proof (cases r)
    case RR_Bonded
    then have "loc = St_CommitPending" "remote \<in> {St_Committed, St_Bonded}"
      using dec remote unfolding status_decision_exact [OF loc] by (auto split: if_splits)
    with op have "reconciled cr sd rl adapter d n N0 RR_Bonded N" if "promoted cr sd d (bond_peer_id pending) N0 N" for N
      using that unfolding reconciled_def by auto
    then have "hoare (promoted cr sd d (bond_peer_id pending) N0) (io_return RR_Bonded)
        (reconciled cr sd rl adapter d n N0) (reconcile_failed d N0)"
      by (rule hoare_return)
    moreover have "hoare (\<lambda>N. N = N0) (finalize cr sd d pending) (\<lambda>_. promoted cr sd d (bond_peer_id pending) N0) (reconcile_failed d N0)"
      unfolding finalize_def hoare_map_err
      by (rule hoare_weaken [OF hoare_promote [OF pid laws(2)]])
         (auto simp: reconcile_failed_def split: recovery_error.split)
    ultimately show ?thesis using RR_Bonded by (auto intro: hoare_bind)
  next
    case RR_Aborted
    then have "loc \<in> {St_PreCommit, St_Aborted}" "remote \<in> {St_Aborted, St_PreCommit}"
      using dec remote unfolding status_decision_exact [OF loc] by (auto split: if_splits)
    with op have "reconciled cr sd rl adapter d n N0 RR_Aborted N" if "\<forall>q. active_trust d q \<longrightarrow> N q = N0 q" for N
      using that unfolding reconciled_def by auto
    then have "hoare (\<lambda>N. \<forall>q. active_trust d q \<longrightarrow> N q = N0 q) (io_return RR_Aborted)
        (reconciled cr sd rl adapter d n N0) (reconcile_failed d N0)"
      by (rule hoare_return)
    moreover have "hoare (\<lambda>N. N = N0) (clear_recovery d (bond_peer_id pending)) (\<lambda>_ N. \<forall>q. active_trust d q \<longrightarrow> N q = N0 q)
        (reconcile_failed d N0)"
      using keeps_discard [OF frame pid]
      unfolding clear_recovery_def hoare_def discard_def io_bind_def io_ignore_def by simp
    ultimately show ?thesis using RR_Aborted by (auto intro: hoare_bind)
  next
    case RR_Uncertain
    then show ?thesis by (auto intro!: hoare_return simp: reconciled_def)
  qed
qed simp

lemma hoare_reconcile:
  assumes laws: "crypto_laws cr" "d \<noteq> []"
  shows "hoare (\<lambda>N. N = N0) (run_reconcile cr sd rl adapter d n) (reconciled cr sd rl adapter d n N0) (reconcile_failed d N0)"
  unfolding run_reconcile_def
proof (intro known_read known_lift known_load hoare_if hoare_fail reconcile_failed_known)
  fix journal m i pid address bs pending loc t response
  assume jour: "N0 (journal_path d) = Some (File (string_bytes journal) m)"
    and i: "result_bind (ok_or Rc_MalformedJournal (journal_field journal ''transaction_id'')) hex_id = Inr i"
    and pid: "ok_or Rc_MalformedJournal (journal_field journal ''peer_id'') = Inr pid"
    and address: "ok_or Rc_MalformedJournal (journal_field journal ''peer_address'') = Inr address"
    and bs: "store_at cr sd N0 (pending_bond_path d) bs"
    and pending: "ok_or Rc_MalformedJournal (case bs of [] \<Rightarrow> None | b # x \<Rightarrow> Some b) = Inr pending"
    and named: "\<not> bond_peer_id pending \<noteq> pid" and loc: "journal_status journal = Inr loc"
    and t: "result_map_err (\<lambda>e. Rc_Transaction (Rej_Transaction e)) (from_recovery_status i Coordinator loc) = Inr t"
    and resp: "authenticated_status rl adapter address (status_query i n) = Inr response"
  obtain rest where bs': "bs = pending # rest"
    using pending by (auto simp: ok_or_def split: list.splits)
  have "bond_wf cr pending" using store_at_wf [OF bs] bs' by simp
  then have name: "peer_name (bond_peer_id pending)"
    using peer_name_from_pubkey [OF laws(1)] by (simp add: bond_wf_def)
  obtain idt where idt: "journal_field journal ''transaction_id'' = Some idt" "hex_id idt = Inr i"
    using i by (auto simp: ok_or_def result_bind_Inr_iff split: option.splits)
  have fields: "journal_field journal ''peer_id'' = Some (bond_peer_id pending)"
    "journal_field journal ''peer_address'' = Some address"
    using pid address named by (auto simp: ok_or_def split: option.splits)
  show "hoare (\<lambda>N. N = N0) (apply_status_decision cr sd d pending t response n)
      (reconciled cr sd rl adapter d n N0) (reconcile_failed d N0)"
  proof (rule known_decision [OF laws _ name])
    show "from_recovery_status i Coordinator loc = Inr t"
      using t by (auto simp: result_map_err_def split: sum.splits)
    show "loc \<in> {St_PreCommit, St_CommitPending, St_Aborted}"
      using loc by (auto simp: journal_status_def Let_def split: if_splits)
    show "open_pairing cr sd rl adapter d n N0 loc pending remote"
      if "sm_state response = Some remote" "answers i n response" for remote
      unfolding open_pairing_def using jour idt fields loc bs bs' resp that by blast
  qed
qed simp_all

lemma journal_commit_fields:
  assumes "line_safe pid" "line_safe addr" "length tid = 16"
  shows "journal_status (journal_text tid pid addr J_CommitPending) = Inr St_CommitPending"
    and "journal_field (journal_text tid pid addr J_CommitPending) ''transaction_id'' = Some (hex_encode tid)"
    and "hex_id (hex_encode tid) = Inr tid"
    and "journal_field (journal_text tid pid addr J_CommitPending) ''peer_id'' = Some pid"
    and "journal_field (journal_text tid pid addr J_CommitPending) ''peer_address'' = Some addr"
  using journal_fields [OF lines_journal_text [OF assms(1,2)]] hex_from_encode [of "[]" tid] assms(3)
  by (simp_all add: journal_status_def ok_or_def hex_id_def result_map_err_def)

subsection \<open>Properties\<close>

lemma recovery_run:
  assumes "serde_laws sd" "calm s" "bond_wf cr b" "bond_peer_id b = pid" "staged sd d pid b key (fs_nodes s)"
    and "fs_nodes s (journal_path d) = Some (File (string_bytes (journal_text tid pid addr J_CommitPending)) m)"
    and "length tid = 16" "line_safe pid" "line_safe addr" "string_ok (journal_text tid pid addr J_CommitPending)"
    and "authenticated_status rl adapter addr (status_query tid n) = Inr response"
    and "answers tid n response" "sm_state response \<in> {Some St_Committed, Some St_Bonded}"
  shows "run_reconcile cr sd rl adapter d n s =
    (case promote cr sd d pid s of
       (Inr u, s') \<Rightarrow> (Inr RR_Bonded, s')
     | (Inl (Rec_Io i), s') \<Rightarrow> (Inl (Rc_Io i), s')
     | (Inl e, s') \<Rightarrow> (Inl (Rc_Transaction (Rej_Recovery e)), s'))"
proof -
  obtain c where c: "serialize_to_toml sd [b] = Inr c" "fs_nodes s (pending_bond_path d) = Some (File c BOND_FILE_MODE)"
    using assms(5) by (auto simp: staged_def simp del: layout)
  have load: "store_load cr sd (pending_bond_path d) s = (Inr [b], s)"
    by (rule store_load_serialized [OF assms(1,2) c(2,1)]) (simp add: assms(3))
  have read: "fs_read_to_string (journal_path d) s = (Inr (journal_text tid pid addr J_CommitPending), s)"
    by (rule fs_read_to_string_calm [OF assms(2,6) from_utf8_string_bytes [OF assms(10)]])
  let ?t = "\<lparr>tx_id = tid, tx_role = Coordinator, tx_phase = CommitPending, tx_capabilities = both, tx_confirmed = both,
    tx_prepared = both, tx_committed = neither\<rparr>"
  have t: "from_recovery_status tid Coordinator St_CommitPending = Inr ?t"
    by (simp add: from_recovery_status_def tx_validate_def)
  have dec: "status_decision ?t response n = Inr RR_Bonded"
    using assms(12,13) unfolding status_decision_exact [OF t insertI2 [OF insertI1]] by auto
  note fields = journal_commit_fields [OF assms(8,9,7)]
  have run: "run_reconcile cr sd rl adapter d n s = apply_status_decision cr sd d b ?t response n s"
    unfolding run_reconcile_def
    by (simp add: io_bind_map_err_ok [where m = "fs_read_to_string (journal_path d)", OF read]
        io_bind_map_err_ok [where m = "store_load cr sd (pending_bond_path d)", OF load]
        fields ok_or_def t assms(4,11) result_map_err_def del: layout)
  show ?thesis
    unfolding run apply_status_decision_def dec io_bind_lift_Inr
    by (simp add: finalize_def assms(4) io_bind_def io_map_err_def io_return_def
        split: prod.split sum.split recovery_error.split del: layout)
qed


text \<open>A phone that answers every status query with Committed, and the staged sample pairing with its decision.\<close>

definition committed_phone :: gatt_device where
  "committed_phone = \<lparr>gd_connect = Inr (),
     gd_services = Inr [\<lparr>gs_uuid = Inr SYAUTH_PAIR_SERVICE_UUID,
       gs_chars = Inr [\<lparr>gc_id = 0, gc_uuid = Inr SYAUTH_PAIR_V2_CONTROL_CHAR_UUID\<rparr>,
         \<lparr>gc_id = 1, gc_uuid = Inr SYAUTH_PAIR_V2_STATUS_CHAR_UUID\<rparr>]\<rparr>],
     gd_write = (\<lambda>_ _. Inr ()),
     gd_read = (\<lambda>written c. case written of
         [(_, query)] \<Rightarrow> (case status_decode query of
             Inr q \<Rightarrow> Inr (status_encode (status_response (sm_transaction q) (sm_nonce q) St_Committed))
           | Inl e \<Rightarrow> Inl ''bad query'')
       | _ \<Rightarrow> Inl ''no query'')\<rparr>"

definition committed_link :: reconcile_link where
  "committed_link = \<lparr>rl_session = Inr (), rl_adapter = (\<lambda>_. Inr ()), rl_address = (\<lambda>_. Some 0), rl_device = (\<lambda>_. Inr committed_phone)\<rparr>"

definition decided_fs :: fs where
  "decided_fs = set_node (journal_path [''var''])
     (Some (File (string_bytes (journal_text (replicate 16 7) (bond_peer_id sample_bond) ''AA'' J_CommitPending)) 0x180))
     (snd (sample_stage fresh_fs))"

lemma committed_link_answers:
  assumes "length i = 16"
  shows "authenticated_status committed_link adapter addr (status_query i n) = Inr (status_response i n St_Committed)"
proof -
  have typed: "status_typed (status_query i n)" "status_typed (status_response i n St_Committed)"
    using assms by (simp_all add: status_typed_def status_query_def status_response_def)
  note q = status_decode_encode [OF typed(1)] status_decode_encode [OF typed(2)] length_status_encode [OF typed(2)]
  have uuids: "SYAUTH_PAIR_V2_STATUS_CHAR_UUID \<noteq> SYAUTH_PAIR_V2_CONTROL_CHAR_UUID"
    by (simp add: SYAUTH_PAIR_V2_STATUS_CHAR_UUID_def SYAUTH_PAIR_V2_CONTROL_CHAR_UUID_def)
  have fields: "sm_transaction (status_query i n) = i" "sm_nonce (status_query i n) = n"
    by (simp_all add: status_query_def)
  show ?thesis
    using uuids
    by (simp add: authenticated_status_def committed_link_def committed_phone_def query_pair_status_def discover_def
        backend_def result_map_err_def ok_or_def q fields)
qed

lemma decided_fs_calm: "calm decided_fs"
proof -
  have "calm (snd (sample_stage fresh_fs))" unfolding calm_def by code_simp
  then show ?thesis by (simp add: decided_fs_def)
qed

lemma decided_fs_staged: "staged sample_serde [''var''] (bond_peer_id sample_bond) sample_bond (replicate 32 9) (fs_nodes decided_fs)"
proof -
  have "staged sample_serde [''var''] (bond_peer_id sample_bond) sample_bond (replicate 32 9) (fs_nodes (snd (sample_stage fresh_fs)))"
    using hoare_ok [OF hoare_stage [OF sample_name, of "[''var'']"], where s = fresh_fs] sample_stage_ok
    by (cases "sample_stage fresh_fs"; cases "fst (sample_stage fresh_fs)") (auto simp: is_ok_def)
  then show ?thesis using sample_name by (simp add: staged_def decided_fs_def set_node_def)
qed

lemma decided_fs_promotes: "is_ok (fst (promote padding_crypto sample_serde [''var''] (bond_peer_id sample_bond) decided_fs))"
  by code_simp

lemma decided_recovery:
  "fst (run_reconcile padding_crypto sample_serde committed_link ''hci0'' [''var''] 5 decided_fs) = Inr RR_Bonded"
proof -
  let ?pid = "bond_peer_id sample_bond"
  have serde: "serde_laws sample_serde" by (simp add: sample_serde_def one_file_serde_laws)
  have safe: "line_safe ?pid" "line_safe ''AA''" by (simp_all add: sample_bond_def line_safe_def hex_encode_avoids)
  have ok: "string_ok (journal_text (replicate 16 7) ?pid ''AA'' J_CommitPending)" by code_simp
  have "run_reconcile padding_crypto sample_serde committed_link ''hci0'' [''var''] 5 decided_fs =
    (case promote padding_crypto sample_serde [''var''] ?pid decided_fs of
       (Inr u, s') \<Rightarrow> (Inr RR_Bonded, s')
     | (Inl (Rec_Io i), s') \<Rightarrow> (Inl (Rc_Io i), s')
     | (Inl e, s') \<Rightarrow> (Inl (Rc_Transaction (Rej_Recovery e)), s'))"
    by (rule recovery_run [OF serde decided_fs_calm sample_bond_wf refl decided_fs_staged _ _ safe ok
          committed_link_answers])
       (simp_all add: decided_fs_def set_node_def answers_def status_response_def)
  then show ?thesis
    using decided_fs_promotes
    by (cases "promote padding_crypto sample_serde [''var''] ?pid decided_fs";
        cases "fst (promote padding_crypto sample_serde [''var''] ?pid decided_fs)") (auto simp: is_ok_def)
qed



text \<open>C26: recovery finishes what the live path had begun. When the journal of a staged bond names the commit
  decision and the phone answers that it has committed, a recovery on an undisturbed system does exactly
  what the promotion of the live path would have done, and reports the bond when that succeeds.\<close>

theorem recovery_promotes:
  assumes "serde_laws sd" "calm s" "bond_wf cr b" "bond_peer_id b = pid" "staged sd d pid b key (fs_nodes s)"
    and "fs_nodes s (journal_path d) = Some (File (string_bytes (journal_text tid pid addr J_CommitPending)) m)"
    and "length tid = 16" "line_safe pid" "line_safe addr" "string_ok (journal_text tid pid addr J_CommitPending)"
    and "authenticated_status rl adapter addr (status_query tid n) = Inr response"
    and "answers tid n response" "sm_state response \<in> {Some St_Committed, Some St_Bonded}"
  shows "run_reconcile cr sd rl adapter d n s =
    (case promote cr sd d pid s of
       (Inr u, s') \<Rightarrow> (Inr RR_Bonded, s')
     | (Inl (Rec_Io i), s') \<Rightarrow> (Inl (Rc_Io i), s')
     | (Inl e, s') \<Rightarrow> (Inl (Rc_Transaction (Rej_Recovery e)), s'))"
  by (rule recovery_run [OF assms])

theorem recovery_promotes_witness:
  "fst (run_reconcile padding_crypto sample_serde committed_link ''hci0'' [''var''] 5 decided_fs) = Inr RR_Bonded"
proof -
  let ?pid = "bond_peer_id sample_bond"
  have serde: "serde_laws sample_serde" by (simp add: sample_serde_def one_file_serde_laws)
  have safe: "line_safe ?pid" "line_safe ''AA''" by (simp_all add: sample_bond_def line_safe_def hex_encode_avoids)
  have ok: "string_ok (journal_text (replicate 16 7) ?pid ''AA'' J_CommitPending)" by code_simp
  have "run_reconcile padding_crypto sample_serde committed_link ''hci0'' [''var''] 5 decided_fs =
    (case promote padding_crypto sample_serde [''var''] ?pid decided_fs of
       (Inr u, s') \<Rightarrow> (Inr RR_Bonded, s')
     | (Inl (Rec_Io i), s') \<Rightarrow> (Inl (Rc_Io i), s')
     | (Inl e, s') \<Rightarrow> (Inl (Rc_Transaction (Rej_Recovery e)), s'))"
    by (rule recovery_promotes [OF serde decided_fs_calm sample_bond_wf refl decided_fs_staged _ _ safe ok
          committed_link_answers])
       (simp_all add: decided_fs_def set_node_def answers_def status_response_def)
  then show ?thesis
    using decided_fs_promotes
    by (cases "promote padding_crypto sample_serde [''var''] ?pid decided_fs";
        cases "fst (promote padding_crypto sample_serde [''var''] ?pid decided_fs)") (auto simp: is_ok_def)
qed

text \<open>A journal that was torn before its state: the daemon's reader takes it as not committed, the recovery
  as committed.\<close>

lemma torn_journal_read_twice:
  assumes "line_safe pid" "line_safe addr" "length tid = 16"
  shows "\<exists>n r. parse_journal (take n (journal_text tid pid addr J_PreCommit)) = Inr r \<and> jr_state r = J_PreCommit \<and>
    journal_status (take n (journal_text tid pid addr J_PreCommit)) = Inr St_CommitPending"
proof -
  let ?ls = "[''version=2'', ''transaction_id='' @ hex_encode tid, ''peer_id='' @ pid, ''peer_address='' @ addr]"
  let ?text = "concat (map (\<lambda>l. l @ newline) ?ls)"
  have front: "x = a @ b \<Longrightarrow> take (length a) x = a" for x a b :: string by simp
  have "journal_text tid pid addr J_PreCommit = ?text @ ''state=pre_commit'' @ newline" by (simp add: journal_text_def)
  then have "take (length ?text) (journal_text tid pid addr J_PreCommit) = ?text" by (rule front)
  moreover have ls: "lines ?text = ?ls"
  proof -
    have "list_all line_safe ?ls" using assms by (simp add: line_safe_def hex_encode_avoids)
    moreover have "lines (concat (map (\<lambda>l. l @ newline) ls)) = ls" if "list_all line_safe ls" for ls
      using that by (induction ls) (auto simp: line_safe_def)
    ultimately show ?thesis by blast
  qed
  moreover have "parse_journal body = Inr \<lparr>jr_transaction = tid, jr_peer_id = pid, jr_peer_address = addr, jr_state = J_PreCommit\<rparr> \<and>
      journal_status body = Inr St_CommitPending" if "lines body = ?ls" for body
    using hex_from_encode [of "[]" tid] assms(3)
    by (simp add: parse_journal_def journal_status_def journal_field_def that strip_prefix_def ok_or_def result_map_err_def)
  ultimately show ?thesis by (intro exI [of _ "length ?text"]) auto
qed

end
