(* ===== verification/Cli_Pair.thy ===== *)
theory Cli_Pair
  imports Pair_Recovery Transport_Link
begin

section \<open>Pairing from a terminal: \<open>pair.rs\<close> of syauth-cli\<close>

text \<open>
  The flow of \<open>syauth pair\<close>: probe the adapter, scan, negotiate, let the operator compare the code, and
  persist the bond around the two-phase exchange with the phone. The trait \<open>PairBackend\<close> is a record of
  operations on a state of its own (\<open>Terminal_Backend\<close> has the production one). The terminal is part of
  the state: the lines the operator will type, whether each write to it succeeds, and what was written.
  The JSON codec of the GUI mode is a parameter.
\<close>

record pair_candidate =
  pd_name :: string
  pd_address :: string

record lesc_outcome =
  lo_peer_pubkey :: bytes
  lo_bond_key :: bytes
  lo_numeric_code :: u32

record adapter_info =
  ai_name :: string
  ai_supports_lesc :: bool

datatype revoke_reason = RV_Timeout | RV_OperatorReject | RV_OperatorCancel

datatype pairing_phase =
    PP_Scanning
  | PP_AwaitingLesc
  | PP_AwaitingOobConfirmation string
  | PP_ProvisionalBonded string
  | PP_Bonded
  | PP_Revoked revoke_reason

datatype pairing_variant = PV_PasskeyConfirmation | PV_JustWorks | PV_LegacyPin | PV_PasskeyEntry | PV_OobOnly

text \<open>What the \<open>reason\<close> of a backend error renders.\<close>

datatype backend_reason =
    Because string
  | Because_Transaction transaction_error
  | Because_Recovery recovery_error
  | Because_Io io_error
  | Because_Bluez string

datatype pair_error =
    Pr_AdapterMissing string
  | Pr_LescUnsupported string string
  | Pr_NoPeers
  | Pr_AmbiguousPeer "string list"
  | Pr_PeerNotFound
  | Pr_Revoked revoke_reason
  | Pr_Bond bond_error
  | Pr_PeerAlreadyBonded string
  | Pr_ProtocolUnsupported
  | Pr_ProtocolTimeout
  | Pr_RemoteAbort
  | Pr_ProtocolUncertain
  | Pr_Backend backend_reason
  | Pr_DowngradeBlocked pairing_variant
  | Pr_UnsupportedPairingVariant pairing_variant
  | Pr_Io io_error

definition decide_pairing :: "pairing_variant \<Rightarrow> (pair_error, unit) result" where
  "decide_pairing v =
     (case v of
        PV_PasskeyConfirmation \<Rightarrow> Inr ()
      | PV_JustWorks \<Rightarrow> Inl (Pr_DowngradeBlocked v)
      | _ \<Rightarrow> Inl (Pr_UnsupportedPairingVariant v))"

primrec pairing_variant_str :: "pairing_variant \<Rightarrow> string" where
  "pairing_variant_str PV_PasskeyConfirmation = ''passkey-confirmation''"
| "pairing_variant_str PV_JustWorks = ''just-works''"
| "pairing_variant_str PV_LegacyPin = ''legacy-pin''"
| "pairing_variant_str PV_PasskeyEntry = ''passkey-entry''"
| "pairing_variant_str PV_OobOnly = ''oob-only''"

definition LESC_UNSUPPORTED_HINT :: string where
  "LESC_UNSUPPORTED_HINT = ''adapter does not advertise LE Secure Connections (kernel < 5.4 or older controller)''"

definition SCRIPTED_OOB_WARNING :: string where
  "SCRIPTED_OOB_WARNING = ''scripted-oob in effect; interactive OOB confirmation bypassed (S-019 e2e harness)''"

definition OOB_BOND_KEY_BYTES :: nat where "OOB_BOND_KEY_BYTES = 32"
definition PAM_BOND_KEY_DIR_NAME :: string where "PAM_BOND_KEY_DIR_NAME = ''keys''"
definition PAM_BOND_KEY_FILE_EXT :: string where "PAM_BOND_KEY_FILE_EXT = ''.bin''"
definition PAM_BOND_KEY_FILE_MODE :: u32 where "PAM_BOND_KEY_FILE_MODE = 0x180"

record pair_opts =
  po_adapter :: string
  po_peer :: "string option"
  po_bond_dir :: path
  po_yes :: bool
  po_force :: bool
  po_gui :: bool
  po_scripted_oob :: "string option"

record 'b pair_backend =
  pb_adapter_info :: "string \<Rightarrow> ('b, pair_error, adapter_info) stm"
  pb_scan_peers :: "('b, pair_error, pair_candidate list) stm"
  pb_initiate_lesc_with_peer :: "pair_candidate \<Rightarrow> ('b, pair_error, lesc_outcome) stm"
  pb_set_transaction_id :: "bytes \<Rightarrow> 'b \<Rightarrow> 'b"
  pb_coordinate_v2 :: "bytes \<Rightarrow> ('b, pair_error, unit) stm"

definition adapter_supports_lesc :: "'b pair_backend \<Rightarrow> string \<Rightarrow> ('b, pair_error, bool) stm" where
  "adapter_supports_lesc B adapter =
     io_bind (pb_adapter_info B adapter) (\<lambda>info. io_return (ai_supports_lesc info))"

subsection \<open>The terminal\<close>

text \<open>\<open>tm_lines\<close> is what the coming calls of \<open>read_line\<close> yield, an empty line at the end of the input;
  \<open>tm_writes\<close> whether the coming writes succeed, which they do past its end.\<close>

record 'b terminal =
  tm_fs :: fs
  tm_backend :: 'b
  tm_lines :: "(io_error, string) result list"
  tm_writes :: "bool list"
  tm_output :: string

type_synonym ('b, 'a) command = "('b terminal, pair_error, 'a) stm"

definition on_fs :: "(pair_error, 'a) prog \<Rightarrow> ('b, 'a) command" where
  "on_fs m w = (case m (tm_fs w) of (r, s) \<Rightarrow> (r, w\<lparr>tm_fs := s\<rparr>))"

definition on_backend :: "('b, pair_error, 'a) stm \<Rightarrow> ('b, 'a) command" where
  "on_backend m w = (case m (tm_backend w) of (r, b) \<Rightarrow> (r, w\<lparr>tm_backend := b\<rparr>))"

definition put :: "string \<Rightarrow> ('b, unit) command" where
  "put s w =
     (case tm_writes w of
        False # ws \<Rightarrow> (Inl (Pr_Io Io_Other), w\<lparr>tm_writes := ws\<rparr>)
      | ws \<Rightarrow> (Inr (), w\<lparr>tm_writes := tl ws, tm_output := tm_output w @ s\<rparr>))"

definition say :: "string \<Rightarrow> ('b, unit) command" where
  "say s = put (s @ newline)"

definition read_line :: "('b, string) command" where
  "read_line w =
     (case tm_lines w of
        [] \<Rightarrow> (Inr [], w)
      | r # rs \<Rightarrow> (result_map_err Pr_Io r, w\<lparr>tm_lines := rs\<rparr>))"

text \<open>The wall clock, the random transaction id, whether the deadline of the negotiation passes first, and
  \<open>serde_json\<close>: the rendering of a string, and the string under the key \<open>command\<close> of a parsed line.\<close>

record pair_env =
  pe_now :: int
  pe_transaction :: bytes
  pe_elapsed :: bool
  pe_json_string :: "string \<Rightarrow> string option"
  pe_json_command :: "string \<Rightarrow> string option"

subsection \<open>Operator confirmation\<close>

datatype oob_confirmation = OC_Accept | OC_Reject
datatype gui_decision = GD_Confirm | GD_Reject | GD_Cancel

definition parse_yes_no :: "string \<Rightarrow> oob_confirmation" where
  "parse_yes_no line =
     (let trimmed = to_ascii_lowercase (str_trim (string_bytes line)) in
      if trimmed = string_bytes ''y'' \<or> trimmed = string_bytes ''yes'' then OC_Accept else OC_Reject)"

definition read_gui_confirmation :: "pair_env \<Rightarrow> ('b, gui_decision) command" where
  "read_gui_confirmation ev =
     io_bind read_line (\<lambda>line.
     let cmd = pe_json_command ev line in
     io_return (if cmd = Some ''confirm'' then GD_Confirm
                else if cmd = Some ''reject'' then GD_Reject
                else if cmd = Some ''cancel'' then GD_Cancel
                else GD_Reject))"

definition read_oob_confirmation :: "string \<Rightarrow> bool \<Rightarrow> ('b, oob_confirmation) command" where
  "read_oob_confirmation code auto_accept =
     io_bind (say ''app-level OOB code (must match the phone):'') (\<lambda>_.
     io_bind (say (''  '' @ code)) (\<lambda>_.
     io_bind (put ''OOB matches your phone? [y/N]: '') (\<lambda>_.
     io_bind (put []) (\<lambda>_.
     if auto_accept then io_bind (say ''y (--yes)'') (\<lambda>_. io_return OC_Accept)
     else io_bind read_line (\<lambda>line. io_return (parse_yes_no line))))))"

subsection \<open>Candidates and the bond\<close>

definition filter_candidates :: "pair_candidate list \<Rightarrow> string option \<Rightarrow> pair_candidate list" where
  "filter_candidates candidates peer_filter =
     (case peer_filter of
        None \<Rightarrow> candidates
      | Some needle \<Rightarrow> filter (\<lambda>c. sublist needle (pd_name c)) candidates)"

definition pick_unambiguous :: "pair_candidate list \<Rightarrow> bool \<Rightarrow> (pair_error, pair_candidate) result" where
  "pick_unambiguous filtered auto_pick =
     (case filtered of
        [] \<Rightarrow> Inl Pr_PeerNotFound
      | [p] \<Rightarrow> Inr p
      | _ \<Rightarrow>
          if auto_pick then Inl (Pr_AmbiguousPeer (map pd_name filtered))
          else Inl (Pr_Backend (Because
            ''ambiguous peer without --yes; interactive picker is selected in run_pair_with_io'')))"

definition build_bond_with_time :: "crypto \<Rightarrow> lesc_outcome \<Rightarrow> pair_candidate \<Rightarrow> int \<Rightarrow> bond" where
  "build_bond_with_time cr outcome peer now =
     \<lparr>bond_peer_id = peer_id_from_pubkey cr (lo_peer_pubkey outcome), bond_pubkey = lo_peer_pubkey outcome,
      bond_name = pd_name peer, bond_created_at = now, bond_status = Bond_Bonded\<rparr>"

definition build_bond :: "crypto \<Rightarrow> pair_env \<Rightarrow> lesc_outcome \<Rightarrow> pair_candidate \<Rightarrow> bond" where
  "build_bond cr ev outcome peer = build_bond_with_time cr outcome peer (pe_now ev)"

subsection \<open>Persistence around the exchange\<close>

definition write_transaction_journal :: "path \<Rightarrow> bytes \<Rightarrow> string \<Rightarrow> string \<Rightarrow> (pair_error, unit) prog" where
  "write_transaction_journal d transaction pid addr =
     io_map_err (\<lambda>e. case e of Rec_Io i \<Rightarrow> Pr_Io i | _ \<Rightarrow> Pr_Backend (Because_Recovery e))
       (write_journal d transaction pid addr J_CommitPending)"

definition clear_transaction_journal :: "crypto \<Rightarrow> serde \<Rightarrow> path \<Rightarrow> (pair_error, unit) prog" where
  "clear_transaction_journal cr sd d = discard_all cr sd d"

definition pam_bond_key_path :: "path \<Rightarrow> string \<Rightarrow> path" where
  "pam_bond_key_path d pid = path_join (path_join d PAM_BOND_KEY_DIR_NAME) (pid @ PAM_BOND_KEY_FILE_EXT)"

definition write_pam_bond_key :: "path \<Rightarrow> string \<Rightarrow> bytes \<Rightarrow> (pair_error, unit) prog" where
  "write_pam_bond_key d pid bond_key =
     (if length bond_key \<noteq> OOB_BOND_KEY_BYTES
      then io_fail (Pr_Backend (Because (''refusing to write a '' @ dec_string (length bond_key) @ ''-byte bond key'')))
      else
        let keys = path_join d PAM_BOND_KEY_DIR_NAME in
        io_bind (io_map_err Pr_Io (fs_create_dir_all keys)) (\<lambda>_.
        io_bind (io_ignore (fs_set_permissions keys 0x1C0)) (\<lambda>_.
        let p = pam_bond_key_path d pid in
        io_bind (io_map_err Pr_Io (fs_write p bond_key)) (\<lambda>_.
        io_map_err Pr_Io (fs_set_permissions p PAM_BOND_KEY_FILE_MODE)))))"

text \<open>\<open>coordinate_staged_bond\<close> up to the exchange, and after it.\<close>

definition stage_terminal_bond :: "serde \<Rightarrow> path \<Rightarrow> bytes \<Rightarrow> bond \<Rightarrow> bytes \<Rightarrow> string \<Rightarrow> (pair_error, unit) prog" where
  "stage_terminal_bond sd d transaction b bond_key peer_address =
     io_bind (io_lift (result_map_err Pr_Bond (store_add store_empty b))) (\<lambda>pending.
     io_bind (io_map_err Pr_Bond (store_save sd pending (pending_bond_path d))) (\<lambda>_.
     let staged_key = pending_key_path d (bond_peer_id b) in
     io_bind (io_lift (ok_or (Pr_Backend (Because ''invalid pending key path'')) (path_parent staged_key))) (\<lambda>parent.
     io_bind (io_map_err Pr_Io (fs_create_dir_all parent)) (\<lambda>_.
     let staged_tmp = with_extension staged_key ''bin.tmp'' in
     io_bind (io_map_err Pr_Io (fs_write staged_tmp bond_key)) (\<lambda>_.
     io_bind (io_map_err Pr_Io (fs_set_permissions staged_tmp 0x180)) (\<lambda>_.
     io_bind (io_map_err Pr_Io (fs_rename staged_tmp staged_key)) (\<lambda>_.
     write_transaction_journal d transaction (bond_peer_id b) peer_address)))))))"

definition commit_terminal_bond :: "crypto \<Rightarrow> serde \<Rightarrow> path \<Rightarrow> bond_store \<Rightarrow> bond \<Rightarrow> bytes \<Rightarrow> (pair_error, unit) prog" where
  "commit_terminal_bond cr sd d active b bond_key =
     io_bind (io_lift (result_map_err Pr_Bond (replace_bond active b))) (\<lambda>committed.
     io_bind (io_map_err (\<lambda>_. Pr_ProtocolUncertain) (store_save sd committed (bonds_path d))) (\<lambda>_.
     io_bind (io_map_err (\<lambda>_. Pr_ProtocolUncertain) (write_pam_bond_key d (bond_peer_id b) bond_key)) (\<lambda>_.
     clear_transaction_journal cr sd d)))"

definition coordinate_staged_bond ::
    "crypto \<Rightarrow> serde \<Rightarrow> pair_opts \<Rightarrow> 'b pair_backend \<Rightarrow> bytes \<Rightarrow> bond \<Rightarrow> bytes \<Rightarrow> string \<Rightarrow> ('b, unit) command" where
  "coordinate_staged_bond cr sd opts B transaction b bond_key peer_address =
     (let d = po_bond_dir opts in
      io_bind (on_fs (io_map_err Pr_Bond (store_load cr sd (bonds_path d)))) (\<lambda>active.
      let replaced = list_ex (\<lambda>x. bond_peer_id x = bond_peer_id b) active in
      if replaced \<and> \<not> po_force opts then io_fail (Pr_PeerAlreadyBonded (bond_peer_id b))
      else
        io_bind (on_fs (stage_terminal_bond sd d transaction b bond_key peer_address)) (\<lambda>_.
        io_bind (io_try (on_backend (pb_coordinate_v2 B transaction))) (\<lambda>r.
        case r of
          Inl e \<Rightarrow>
            io_bind (if e \<noteq> Pr_ProtocolUncertain then on_fs (clear_transaction_journal cr sd d) else io_return ()) (\<lambda>_.
            io_fail e)
        | Inr _ \<Rightarrow>
            io_bind (on_fs (commit_terminal_bond cr sd d active b bond_key)) (\<lambda>_.
            io_bind (if replaced then say (''replaced existing bond peer_id='' @ bond_peer_id b) else io_return ()) (\<lambda>_.
            say ''pairing transaction committed''))))))"

subsection \<open>The flow\<close>

definition announce_adapter :: "pair_opts \<Rightarrow> adapter_info \<Rightarrow> ('b, unit) command" where
  "announce_adapter opts info =
     (if po_gui opts
      then io_bind (say ''{\"event\":\"preparing\"}'') (\<lambda>_. say ''{\"event\":\"capabilities\",\"version\":2}'')
      else say (''adapter '' @ ai_name info @ '' ready (LE Secure Connections: ''
        @ (if ai_supports_lesc info then ''yes'' else ''no'') @ '')''))"

text \<open>\<open>serde_json::to_string(..).unwrap_or_else(..)\<close>.\<close>

definition json_or :: "pair_env \<Rightarrow> string \<Rightarrow> string \<Rightarrow> string" where
  "json_or ev alt s = (case pe_json_string ev s of Some t \<Rightarrow> t | None \<Rightarrow> alt)"

definition select_peer :: "pair_env \<Rightarrow> pair_opts \<Rightarrow> 'b pair_backend \<Rightarrow> ('b, pair_candidate) command" where
  "select_peer ev opts B =
     io_bind (if po_gui opts then say ''{\"event\":\"scan_started\"}'' else io_return ()) (\<lambda>_.
     io_bind (on_backend (pb_scan_peers B)) (\<lambda>candidates.
     if candidates = [] then io_fail Pr_NoPeers
     else
       io_bind (io_lift (pick_unambiguous (filter_candidates candidates (po_peer opts)) (po_yes opts))) (\<lambda>chosen.
       io_bind
         (if po_gui opts
          then say (''{\"event\":\"device_found\",\"name\":'' @ json_or ev ''\"Telefono Android\"'' (pd_name chosen) @ ''}'')
          else say (''selected '' @ pd_name chosen @ '' ('' @ pd_address chosen @ '')'')) (\<lambda>_.
       io_return chosen))))"

definition negotiate :: "crypto \<Rightarrow> pair_env \<Rightarrow> pair_opts \<Rightarrow> 'b pair_backend \<Rightarrow> pair_candidate \<Rightarrow> ('b, lesc_outcome) command" where
  "negotiate cr ev opts B chosen =
     io_bind (if po_gui opts then io_return () else say ''initiating LE Secure Connections...'') (\<lambda>_.
     if pe_elapsed ev then io_fail (Pr_Revoked RV_Timeout)
     else
       io_bind (on_backend (pb_initiate_lesc_with_peer B chosen)) (\<lambda>outcome.
       io_bind
         (if po_gui opts
          then say (''{\"event\":\"oob_ready\",\"code\":'' @ json_or ev ''\"\"'' (cli_oob_code_for_bond cr (lo_bond_key outcome)) @ ''}'')
          else say (''BT numeric code: '' @ pad_left 6 (dec_string (unat (lo_numeric_code outcome))) @ ''   confirm on both devices''))
         (\<lambda>_. io_return outcome)))"

definition confirm_and_bond ::
    "crypto \<Rightarrow> serde \<Rightarrow> pair_env \<Rightarrow> pair_opts \<Rightarrow> 'b pair_backend \<Rightarrow> pair_candidate \<Rightarrow> lesc_outcome \<Rightarrow> ('b, unit) command" where
  "confirm_and_bond cr sd ev opts B chosen outcome =
     (let code = cli_oob_code_for_bond cr (lo_bond_key outcome);
          b = build_bond cr ev outcome chosen;
          scripted = po_scripted_oob opts \<noteq> None;
          auto_accept = po_yes opts \<or> scripted;
          go = coordinate_staged_bond cr sd opts B (pe_transaction ev) b (lo_bond_key outcome) (pd_address chosen) in
      io_bind (if scripted then say (''warning: '' @ SCRIPTED_OOB_WARNING) else io_return ()) (\<lambda>_.
      if po_gui opts then
        io_bind (say ''{\"event\":\"waiting_confirmation\"}'') (\<lambda>_.
        io_bind (read_gui_confirmation ev) (\<lambda>decision.
        case decision of
          GD_Confirm \<Rightarrow> go
        | GD_Reject \<Rightarrow> io_fail (Pr_Revoked RV_OperatorReject)
        | GD_Cancel \<Rightarrow> io_fail (Pr_Revoked RV_OperatorCancel)))
      else
        io_bind (read_oob_confirmation code auto_accept) (\<lambda>decision.
        case decision of
          OC_Accept \<Rightarrow> go
        | OC_Reject \<Rightarrow> io_fail (Pr_Revoked RV_OperatorReject))))"

definition run_pair_with_io ::
    "crypto \<Rightarrow> serde \<Rightarrow> pair_env \<Rightarrow> pair_opts \<Rightarrow> 'b pair_backend \<Rightarrow> ('b, pairing_phase) command" where
  "run_pair_with_io cr sd ev opts B =
     io_bind (on_backend (pb_adapter_info B (po_adapter opts))) (\<lambda>info.
     io_bind (announce_adapter opts info) (\<lambda>_.
     if \<not> ai_supports_lesc info then io_fail (Pr_LescUnsupported (ai_name info) LESC_UNSUPPORTED_HINT)
     else
       io_bind (on_backend (io_do (pb_set_transaction_id B (pe_transaction ev)))) (\<lambda>_.
       io_bind (select_peer ev opts B) (\<lambda>chosen.
       io_bind (negotiate cr ev opts B chosen) (\<lambda>outcome.
       io_bind (confirm_and_bond cr sd ev opts B chosen outcome) (\<lambda>_.
       io_bind
         (if po_gui opts
          then say (''{\"event\":\"bonded\",\"device\":'' @ json_or ev ''\"Telefono Android\"'' (pd_name chosen) @ ''}'')
          else say (''bonded '' @ pd_name chosen @ '' id='' @ peer_id_from_pubkey cr (lo_peer_pubkey outcome)
                    @ ''; run `syauth list` to verify'')) (\<lambda>_.
       io_return PP_Bonded)))))))"

subsection \<open>What an attempt leaves on disk\<close>

text \<open>The store with the new bond, and the state of the key of the peer: complete, or as far as the write got.\<close>

definition bond_added :: "crypto \<Rightarrow> serde \<Rightarrow> path \<Rightarrow> bool \<Rightarrow> bond \<Rightarrow> nodes \<Rightarrow> nodes \<Rightarrow> bool" where
  "bond_added cr sd d force b N0 N \<longleftrightarrow>
     (\<exists>active bs c. store_at cr sd N0 (bonds_path d) active \<and>
        (force \<or> \<not> list_ex (\<lambda>x. bond_peer_id x = bond_peer_id b) active) \<and>
        replace_bond active b = Inr bs \<and> serialize_to_toml sd bs = Inr c \<and>
        N (bonds_path d) = Some (File c BOND_FILE_MODE))"

definition other_keys_same :: "path \<Rightarrow> string \<Rightarrow> nodes \<Rightarrow> nodes \<Rightarrow> bool" where
  "other_keys_same d pid N0 N \<longleftrightarrow> (\<forall>p. peer_name p \<and> p \<noteq> pid \<longrightarrow> N (active_key_path d p) = N0 (active_key_path d p))"

definition terminal_bonded :: "crypto \<Rightarrow> serde \<Rightarrow> path \<Rightarrow> bool \<Rightarrow> bond \<Rightarrow> bytes \<Rightarrow> nodes \<Rightarrow> nodes \<Rightarrow> bool" where
  "terminal_bonded cr sd d force b key N0 N \<longleftrightarrow> bond_added cr sd d force b N0 N \<and> other_keys_same d (bond_peer_id b) N0 N \<and>
     N (active_key_path d (bond_peer_id b)) = Some (File key 0x180)"

definition terminal_torn :: "crypto \<Rightarrow> serde \<Rightarrow> path \<Rightarrow> bool \<Rightarrow> bond \<Rightarrow> bytes \<Rightarrow> nodes \<Rightarrow> nodes \<Rightarrow> bool" where
  "terminal_torn cr sd d force b key N0 N \<longleftrightarrow> bond_added cr sd d force b N0 N \<and> other_keys_same d (bond_peer_id b) N0 N \<and>
     (N (active_key_path d (bond_peer_id b)) = N0 (active_key_path d (bond_peer_id b)) \<or>
      (\<exists>n m. N (active_key_path d (bond_peer_id b)) = Some (File (take n key) m)))"

lemma whole_key: "x = Some (File key m) \<Longrightarrow> \<exists>n m. x = Some (File (take n key) m)"
  by (rule exI [of _ "length key"]) simp

lemma terminal_bonded_torn: "terminal_bonded cr sd d force b key N0 N \<Longrightarrow> terminal_torn cr sd d force b key N0 N"
  unfolding terminal_bonded_def terminal_torn_def by (blast intro: whole_key)

lemma pam_bond_key_path_eq: "pam_bond_key_path d pid = active_key_path d pid"
  by (simp add: pam_bond_key_path_def active_key_path_def KEY_FILE_EXT_def PAM_BOND_KEY_DIR_NAME_def
      PAM_BOND_KEY_FILE_EXT_def plain_name_def)

lemma keys_dir_eq: "path_join d PAM_BOND_KEY_DIR_NAME = keys_dir d"
  by (simp add: PAM_BOND_KEY_DIR_NAME_def plain_name_def)

lemma keeps_stage_terminal:
  assumes "frame_on (staging_area d (bond_peer_id b)) P" and "peer_name (bond_peer_id b)" and "d \<noteq> []"
  shows "keeps P (stage_terminal_bond sd d tid b key addr)"
proof -
  let ?st = "pending_key_path d (bond_peer_id b)"
  note w = keeps_writes [OF assms(1)] keeps_create_dirs [OF assms(1)] keeps_rename [OF assms(1)]
    and a = staging_paths [OF assms(2)]
  have key: "keeps P (fs_write (with_extension ?st ''bin.tmp'') c)"
      "keeps P (fs_set_permissions (with_extension ?st ''bin.tmp'') m)"
      "keeps P (fs_rename (with_extension ?st ''bin.tmp'') ?st)" for c m
    by (intro w a)+
  have dir: "keeps P (fs_create_dir_all (keys_dir d))" by (intro w a)
  have save: "keeps P (store_save sd x (pending_bond_path d))" for x
    using assms(3) by (intro keeps_store_save [OF assms(1)]) (auto intro!: a [simplified])
  have parent: "path_parent ?st = Some (keys_dir d)"
    using assms(2) by (simp add: path_parent_def butlast_append)
  show ?thesis
    unfolding stage_terminal_bond_def write_transaction_journal_def Let_def parent ok_or_def option.case io_bind_lift_Inr
    by (intro keeps_rules key save dir keeps_write_journal [OF assms])
qed

text \<open>A predicate on the active trust only; work in the staging area and on directories keeps it.\<close>

lemma trust_frame:
  assumes "\<And>N N'. \<forall>q. active_trust d q \<longrightarrow> N' q = N q \<Longrightarrow> P N \<Longrightarrow> P N'" and "peer_name pid"
  shows "frame_on (staging_area d pid) P"
  unfolding frame_on_def
proof (intro allI impI)
  fix N :: nodes and q v
  assume q: "staging_area d pid q" and N: "P N"
  show "P (N(q := v))"
    by (rule assms(1) [OF _ N]) (use active_not_staging [OF assms(2), of d] q in auto)
qed

lemma terminal_bonded_cong:
  assumes "\<forall>q. active_trust d q \<longrightarrow> N' q = N q" and "peer_name (bond_peer_id b)" and "terminal_bonded cr sd d force b key N0 N"
  shows "terminal_bonded cr sd d force b key N0 N'"
proof -
  have "N' (bonds_path d) = N (bonds_path d)" "peer_name p \<Longrightarrow> N' (active_key_path d p) = N (active_key_path d p)" for p
    using assms(1) by (auto simp: active_trust_def simp del: layout layout_keys)
  then show ?thesis
    using assms(2,3) by (simp add: terminal_bonded_def bond_added_def other_keys_same_def del: layout layout_keys)
qed

definition trust_same :: "path \<Rightarrow> nodes \<Rightarrow> nodes \<Rightarrow> bool" where
  "trust_same d N0 N \<longleftrightarrow> (\<forall>q. active_trust d q \<longrightarrow> N q = N0 q)"

lemma hoare_terminal_key:
  assumes pid: "peer_name (bond_peer_id b)"
  shows "hoare (\<lambda>N. bond_added cr sd d force b N0 N \<and> (\<forall>p. peer_name p \<longrightarrow> N (active_key_path d p) = N0 (active_key_path d p)))
    (write_pam_bond_key d (bond_peer_id b) key)
    (\<lambda>_. terminal_bonded cr sd d force b key N0) (\<lambda>_. terminal_torn cr sd d force b key N0)" (is "hoare ?S _ _ _")
proof -
  define S where "S = ?S"
  let ?k = "active_key_path d (bond_peer_id b)"
  let ?torn = "terminal_torn cr sd d force b key N0"
  have sub: "?torn N" if "S N" for N
    using that pid by (simp add: S_def terminal_torn_def other_keys_same_def del: layout layout_keys)
  have long: "\<not> prefix (d @ [''keys'', x]) (d @ [''keys''])" for x :: string
    using prefix_length_le [of "d @ [''keys'', x]" "d @ [''keys'']"] by auto
  have ne: "q \<noteq> bonds_path d" "peer_name p \<Longrightarrow> q \<noteq> active_key_path d p" if "prefix q (keys_dir d)" for q p
    using that long by (auto simp: prefix_def)
  have fr: "frame_on (\<lambda>q. q \<noteq> [] \<and> prefix q (keys_dir d)) S"
    using ne by (auto simp: frame_on_def S_def bond_added_def simp del: layout layout_keys)
  have dirs: "keeps S (fs_create_dir_all (keys_dir d))"
    by (rule keeps_create_dirs [OF fr]) simp
  have mode: "keeps S (fs_set_permissions (keys_dir d) m)" for m
    by (rule keeps_writes [OF fr]) simp
  have inj: "peer_name p \<Longrightarrow> active_key_path d p = ?k \<longleftrightarrow> p = bond_peer_id b" for p
    using pid by simp
  define U where "U N \<longleftrightarrow> bond_added cr sd d force b N0 N \<and> other_keys_same d (bond_peer_id b) N0 N \<and> (\<exists>m. N ?k = Some (File key m))" for N
  have upd: "bond_added cr sd d force b N0 (N(?k := v))" "other_keys_same d (bond_peer_id b) N0 (N(?k := v))"
    if "S N \<or> U N" for N v
    using that inj bonds_not_key [OF pid, of d]
    by (auto simp: S_def U_def bond_added_def other_keys_same_def simp del: layout layout_keys)
  have wr: "hoare S (fs_write ?k key) (\<lambda>_. U) (\<lambda>_. ?torn)"
  proof (rule hoare_write)
    show "U (N(?k \<mapsto> File key m))" "?torn (N(?k \<mapsto> File (take n key) m))" if "S N" for N n m
      using that by (auto simp: U_def terminal_torn_def upd simp del: layout layout_keys)
  qed (rule sub)
  have perm: "hoare U (fs_set_permissions ?k 0x180) (\<lambda>_. terminal_bonded cr sd d force b key N0) (\<lambda>_. ?torn)"
  proof (rule hoare_set_permissions)
    show "terminal_bonded cr sd d force b key N0 (N(?k \<mapsto> with_mode 0x180 v))" if "U N" "N ?k = Some v" for N v
      using that upd [of N] by (auto simp: U_def terminal_bonded_def with_mode_def simp del: layout layout_keys)
    show "?torn N" if "U N" for N
      using that by (auto simp: U_def terminal_torn_def intro: whole_key simp del: layout_keys)
  qed
  have ign: "hoare S (io_ignore (fs_set_permissions (keys_dir d) 0x1C0)) (\<lambda>_. S) (\<lambda>_. ?torn)"
    by (rule hoare_ignore) (rule mode)
  have dirs': "hoare S (fs_create_dir_all (keys_dir d)) (\<lambda>_. S) (\<lambda>_. ?torn)"
    by (rule hoare_weaken [OF dirs]) (simp_all add: sub)
  show ?thesis
    unfolding S_def [symmetric] write_pam_bond_key_def pam_bond_key_path_eq keys_dir_eq Let_def PAM_BOND_KEY_FILE_MODE_def
    by (intro hoare_if hoare_fail, erule sub)
       (rule hoare_bind, simp only: hoare_map_err, rule dirs', rule hoare_bind, rule ign, rule hoare_bind,
        simp only: hoare_map_err, rule wr, simp only: hoare_map_err, rule perm)
qed

lemma hoare_commit_terminal:
  assumes laws: "crypto_laws cr" "d \<noteq> []" and pid: "peer_name (bond_peer_id b)"
    and act: "store_at cr sd N0 (bonds_path d) active"
      "force \<or> \<not> list_ex (\<lambda>x. bond_peer_id x = bond_peer_id b) active"
  shows "hoare (trust_same d N0) (commit_terminal_bond cr sd d active b key)
    (\<lambda>_. terminal_bonded cr sd d force b key N0)
    (\<lambda>_ N. trust_same d N0 N \<or> terminal_torn cr sd d force b key N0 N)" (is "hoare ?T _ ?Q ?E")
proof -
  let ?S = "\<lambda>N. bond_added cr sd d force b N0 N \<and> (\<forall>p. peer_name p \<longrightarrow> N (active_key_path d p) = N0 (active_key_path d p))"
  have lift: "hoare ?T (io_lift (result_map_err Pr_Bond (replace_bond active b))) (\<lambda>bs N. ?T N \<and> replace_bond active b = Inr bs) ?E"
    by (rule hoare_lift) (auto simp: result_map_err_Inr_iff)
  have plain: "\<not> active_trust d q" if "prefix q d \<or> (\<exists>r. q = d @ [temp_name r])" for q
    using that active_not_staging [OF pid, of d q] by (auto simp: staging_area_def active_trust_def prefix_def)
  have save: "hoare ?T (store_save sd bs (bonds_path d)) (\<lambda>_. ?S) (\<lambda>_. ?T)" if bs: "replace_bond active b = Inr bs" for bs
  proof (rule hoare_store_save)
    show "?T (N(q := v))" if "?T N" "q \<noteq> []" "prefix q (butlast (bonds_path d))" for N q v
      using that plain [of q] by (auto simp: trust_same_def)
    show "?T (N(butlast (bonds_path d) @ [temp_name r] := v))" if "?T N" for N r v
      using that plain [of "d @ [temp_name r]"] by (auto simp: trust_same_def)
    show "?S (N(bonds_path d \<mapsto> File c BOND_FILE_MODE))" if "?T N" "serialize_to_toml sd bs = Inr c" for N c
      using that act bs
      by (auto simp: trust_same_def bond_added_def active_trust_def bonds_not_key [symmetric] simp del: layout layout_keys)
  qed (use laws(2) in simp)
  have clear: "keeps (terminal_bonded cr sd d force b key N0) (discard_all cr sd d)"
    by (rule keeps_discard_all [OF trust_frame laws(1)]) (rule terminal_bonded_cong [OF _ pid])
  show ?thesis
    unfolding commit_terminal_bond_def clear_transaction_journal_def
  proof (rule hoare_bind [OF lift], rule hoare_pure, rule hoare_bind [where R = "\<lambda>_. ?S"])
    show "hoare ?T (io_map_err (\<lambda>_. Pr_ProtocolUncertain) (store_save sd bs (bonds_path d))) (\<lambda>_. ?S) ?E"
      if "replace_bond active b = Inr bs" for bs
      unfolding hoare_map_err by (rule hoare_weaken [OF save [OF that]]) simp_all
    show "hoare ?S (io_bind (io_map_err (\<lambda>_. Pr_ProtocolUncertain) (write_pam_bond_key d (bond_peer_id b) key))
        (\<lambda>_. discard_all cr sd d)) ?Q ?E"
    proof (rule hoare_bind [where R = "\<lambda>_. terminal_bonded cr sd d force b key N0"])
      show "hoare ?S (io_map_err (\<lambda>_. Pr_ProtocolUncertain) (write_pam_bond_key d (bond_peer_id b) key))
          (\<lambda>_. terminal_bonded cr sd d force b key N0) ?E"
        unfolding hoare_map_err
        by (rule hoare_weaken [OF hoare_terminal_key [OF pid, where cr = cr and sd = sd and d = d and force = force
            and key = key and ?N0.0 = N0]]) blast+
    qed (rule hoare_weaken [OF clear], simp_all add: terminal_bonded_torn)
  qed
qed

subsection \<open>The flow, step by step\<close>

lemma triple_on_fs:
  assumes "hoare P m Q E"
  shows "triple (\<lambda>w. P (fs_nodes (tm_fs w)) \<and> K (tm_backend w)) (on_fs m)
    (\<lambda>x w. Q x (fs_nodes (tm_fs w)) \<and> K (tm_backend w)) (\<lambda>e w. E e (fs_nodes (tm_fs w)))"
  using assms by (auto simp: triple_def hoare_def on_fs_def split: prod.splits sum.splits)

text \<open>The state of the command between two steps; output changes none of it.\<close>

definition at_terminal :: "fs \<Rightarrow> (io_error, string) result list \<Rightarrow> 'b \<Rightarrow> 'b terminal \<Rightarrow> bool" where
  "at_terminal s ls b w \<longleftrightarrow> tm_fs w = s \<and> tm_lines w = ls \<and> tm_backend w = b"

lemma stays_terminal [stays_rules]:
  "stays (at_terminal s ls b) (put t)" "stays (at_terminal s ls b) (say t)"
  "stays (at_terminal s ls b) (announce_adapter opts info)" "stays (at_terminal s ls b) (io_lift r)"
proof -
  show put: "stays (at_terminal s ls b) (put t)" for t
    by (auto simp: stays_def at_terminal_def put_def split: list.split bool.split)
  then show "stays (at_terminal s ls b) (say t)" by (simp add: say_def)
  then show "stays (at_terminal s ls b) (announce_adapter opts info)"
    unfolding announce_adapter_def by (intro stays_rules put) (simp_all add: say_def put)
qed (simp_all add: stays_def at_terminal_def io_lift_def)

lemma triple_on_backend:
  assumes "\<And>e b' w. at_terminal s ls b' w \<Longrightarrow> E e w"
    and "\<And>x b'. m b = (Inr x, b') \<Longrightarrow> triple (at_terminal s ls b') (f x) Q E"
  shows "triple (at_terminal s ls b) (io_bind (on_backend m) f) Q E"
proof (rule tripleI)
  fix w
  assume w: "at_terminal s ls b w"
  obtain r b' where m: "m b = (r, b')" by force
  then have run: "on_backend m w = (r, w\<lparr>tm_backend := b'\<rparr>)" "at_terminal s ls b' (w\<lparr>tm_backend := b'\<rparr>)"
    using w by (simp_all add: on_backend_def at_terminal_def)
  show "case io_bind (on_backend m) f w of (Inr x, s') \<Rightarrow> Q x s' | (Inl e, s') \<Rightarrow> E e s'"
    using run m assms by (cases r) (auto simp: io_bind_def triple_def)
qed

definition next_line :: "(io_error, string) result list \<Rightarrow> (io_error, string) result" where
  "next_line ls = (case ls of [] \<Rightarrow> Inr [] | r # rs \<Rightarrow> r)"

lemma triple_read_line:
  assumes "\<And>e w. tm_fs w = s \<Longrightarrow> E e w"
    and "\<And>line. next_line ls = Inr line \<Longrightarrow> triple (\<lambda>w. tm_fs w = s \<and> tm_backend w = b) (f line) Q E"
  shows "triple (at_terminal s ls b) (io_bind read_line f) Q E"
proof (rule triple_bind [where R = "\<lambda>line w. next_line ls = Inr line \<and> tm_fs w = s \<and> tm_backend w = b"])
  show "triple (at_terminal s ls b) read_line (\<lambda>line w. next_line ls = Inr line \<and> tm_fs w = s \<and> tm_backend w = b) E"
    by (rule tripleI)
       (auto simp: at_terminal_def read_line_def next_line_def result_map_err_def intro!: assms(1) split: list.split sum.split)
  show "triple (\<lambda>w. next_line ls = Inr line \<and> tm_fs w = s \<and> tm_backend w = b) (f line) Q E" for line
    by (rule triple_fact) (rule assms(2))
qed

text \<open>The operator has agreed: by the flag, or with the next line typed.\<close>

definition operator_agreed :: "pair_env \<Rightarrow> pair_opts \<Rightarrow> (io_error, string) result list \<Rightarrow> bool" where
  "operator_agreed ev opts ls \<longleftrightarrow>
     (if po_gui opts then \<exists>line. next_line ls = Inr line \<and> pe_json_command ev line = Some ''confirm''
      else po_yes opts \<or> po_scripted_oob opts \<noteq> None \<or> (\<exists>line. next_line ls = Inr line \<and> parse_yes_no line = OC_Accept))"

definition coordinated :: "'b pair_backend \<Rightarrow> bytes \<Rightarrow> 'b \<Rightarrow> bool" where
  "coordinated B tid x \<longleftrightarrow> (\<exists>y. pb_coordinate_v2 B tid x = (Inr (), y))"

lemma triple_coordinate:
  assumes laws: "crypto_laws cr" "po_bond_dir opts \<noteq> []" and pid: "peer_name (bond_peer_id b)"
  shows "triple (\<lambda>w. tm_fs w = s \<and> tm_backend w = x) (coordinate_staged_bond cr sd opts B tid b key addr)
    (\<lambda>_ w. coordinated B tid x \<and>
       terminal_bonded cr sd (po_bond_dir opts) (po_force opts) b key (fs_nodes s) (fs_nodes (tm_fs w)))
    (\<lambda>_ w. trust_same (po_bond_dir opts) (fs_nodes s) (fs_nodes (tm_fs w)) \<or> coordinated B tid x \<and>
       terminal_torn cr sd (po_bond_dir opts) (po_force opts) b key (fs_nodes s) (fs_nodes (tm_fs w)))"
    (is "triple _ _ ?Q ?E")
proof -
  let ?d = "po_bond_dir opts" and ?N0 = "fs_nodes s"
  let ?T = "\<lambda>w. trust_same ?d ?N0 (fs_nodes (tm_fs w))"
  let ?TB = "\<lambda>w. ?T w \<and> tm_backend w = x"
  let ?has = "list_ex (\<lambda>x. bond_peer_id x = bond_peer_id b)"
  have framed: "frame_on (staging_area ?d p) (trust_same ?d ?N0)" if "peer_name p" for p
    by (rule trust_frame [OF _ that]) (simp add: trust_same_def)
  have load: "triple (\<lambda>w. tm_fs w = s \<and> tm_backend w = x) (on_fs (io_map_err Pr_Bond (store_load cr sd (bonds_path ?d))))
      (\<lambda>active w. store_at cr sd ?N0 (bonds_path ?d) active \<and> ?TB w) ?E"
  proof -
    have "hoare (\<lambda>N. N = ?N0) (io_map_err Pr_Bond (store_load cr sd (bonds_path ?d)))
        (\<lambda>active N. store_at cr sd ?N0 (bonds_path ?d) active \<and> trust_same ?d ?N0 N) (\<lambda>_. trust_same ?d ?N0)"
      unfolding hoare_map_err
      by (rule hoare_weaken [OF hoare_store_load [where P = "\<lambda>N. N = ?N0"]]) (auto simp: trust_same_def)
    from triple_on_fs [OF this, where K = "\<lambda>y. y = x"] show ?thesis by (rule triple_weaken) blast+
  qed
  have staged: "triple ?TB (on_fs (stage_terminal_bond sd ?d tid b key addr)) (\<lambda>_. ?TB) ?E"
    by (rule triple_weaken [OF triple_on_fs [OF keeps_stage_terminal [OF framed [OF pid] pid laws(2)], where K = "\<lambda>y. y = x"]]) blast+
  have exchange: "triple ?TB (io_try (on_backend (pb_coordinate_v2 B tid)))
      (\<lambda>r w. (is_ok r \<longrightarrow> coordinated B tid x) \<and> ?T w) ?E"
    by (rule tripleI)
       (auto simp: io_try_def on_backend_def is_ok_def coordinated_def split: prod.splits sum.splits)
  have clear: "triple ?T (on_fs (clear_transaction_journal cr sd ?d)) (\<lambda>_. ?T) ?E"
    unfolding clear_transaction_journal_def
    by (rule triple_weaken [OF triple_on_fs [OF keeps_discard_all [OF framed laws(1)], where K = "\<lambda>_. True"]]) blast+
  have failed: "triple ?T (io_bind (if e \<noteq> Pr_ProtocolUncertain then on_fs (clear_transaction_journal cr sd ?d) else io_return ())
      (\<lambda>_. io_fail e)) ?Q ?E" for e
    by (rule triple_bind [where R = "\<lambda>_. ?T"]) (auto intro!: triple_if clear triple_return triple_fail)
  have committed: "triple ?T (io_bind (on_fs (commit_terminal_bond cr sd ?d active b key)) (\<lambda>_.
      io_bind (if ?has active then say (''replaced existing bond peer_id='' @ bond_peer_id b) else io_return ()) (\<lambda>_.
      say ''pairing transaction committed''))) ?Q ?E"
    if "coordinated B tid x" "store_at cr sd ?N0 (bonds_path ?d) active" "po_force opts \<or> \<not> ?has active" for active
  proof (rule triple_bind [where R = ?Q])
    show "triple ?T (on_fs (commit_terminal_bond cr sd ?d active b key)) ?Q ?E"
      by (rule triple_weaken [OF triple_on_fs [OF hoare_commit_terminal [OF laws pid that(2,3)], where K = "\<lambda>_. True"]]) (use that(1) in blast)+
    let ?B = "\<lambda>w :: 'a terminal. coordinated B tid x \<and> terminal_bonded cr sd ?d (po_force opts) b key ?N0 (fs_nodes (tm_fs w))"
    have said: "stays ?B (say t)" for t
      by (auto simp: stays_def say_def put_def split: list.split bool.split)
    have err: "?E e w" if "?B w" for e w using that terminal_bonded_torn by blast
    have say: "triple ?B (say t) ?Q ?E" for t
      using said [of t] err by (auto simp: triple_def stays_def split: prod.splits sum.splits) (metis snd_conv)+
    show "triple (?Q x) (io_bind (if ?has active then say (''replaced existing bond peer_id='' @ bond_peer_id b) else io_return ())
        (\<lambda>_. say ''pairing transaction committed'')) ?Q ?E" for x
      by (rule triple_bind [where R = ?Q]) (auto intro!: triple_if say triple_return)
  qed
  show ?thesis
    unfolding coordinate_staged_bond_def Let_def
    by (rule triple_bind [OF load], rule triple_fact, rule triple_if, rule triple_fail, simp,
        rule triple_bind [OF staged], rule triple_bind [OF exchange], rule triple_fact, rule triple_case_sum,
        rule failed, rule committed) (auto simp: is_ok_def)
qed

lemma triple_confirm:
  fixes B :: "'b pair_backend"
  assumes laws: "crypto_laws cr" "po_bond_dir opts \<noteq> []"
  shows "triple (at_terminal s ls x) (confirm_and_bond cr sd ev opts B chosen outcome)
    (\<lambda>_ w. (operator_agreed ev opts ls \<and> coordinated B (pe_transaction ev) x) \<and>
       terminal_bonded cr sd (po_bond_dir opts) (po_force opts) (build_bond cr ev outcome chosen) (lo_bond_key outcome) (fs_nodes s) (fs_nodes (tm_fs w)))
    (\<lambda>_ w. trust_same (po_bond_dir opts) (fs_nodes s) (fs_nodes (tm_fs w)) \<or>
       (operator_agreed ev opts ls \<and> coordinated B (pe_transaction ev) x) \<and>
       terminal_torn cr sd (po_bond_dir opts) (po_force opts) (build_bond cr ev outcome chosen) (lo_bond_key outcome) (fs_nodes s) (fs_nodes (tm_fs w)))"
    (is "triple _ _ ?Q ?E")
proof -
  let ?b = "build_bond cr ev outcome chosen"
  let ?go = "coordinate_staged_bond cr sd opts B (pe_transaction ev) ?b (lo_bond_key outcome) (pd_address chosen)"
  have pid: "peer_name (bond_peer_id ?b)"
    using peer_name_from_pubkey [OF laws(1)] by (simp add: build_bond_def build_bond_with_time_def)
  have early: "?E e w" if "tm_fs w = s" for e w using that by (simp add: trust_same_def)
  have early': "?E e w" if "at_terminal s ls x w" for e w using that early [of w] by (simp add: at_terminal_def)
  have go: "triple (\<lambda>w. tm_fs w = s \<and> tm_backend w = x) ?go ?Q ?E" if "operator_agreed ev opts ls"
    by (rule triple_weaken [OF triple_coordinate [OF laws pid]]) (use that in blast)+
  have no: "triple (\<lambda>w. tm_fs w = s \<and> tm_backend w = x) (io_fail e) ?Q ?E" for e
    by (rule triple_fail, rule early) simp
  have gui: "triple (at_terminal s ls x) (io_bind (read_gui_confirmation ev) (\<lambda>decision. case decision of
      GD_Confirm \<Rightarrow> ?go | GD_Reject \<Rightarrow> io_fail (Pr_Revoked RV_OperatorReject) | GD_Cancel \<Rightarrow> io_fail (Pr_Revoked RV_OperatorCancel)))
      ?Q ?E" if "po_gui opts"
    unfolding read_gui_confirmation_def io_bind_assoc Let_def io_bind_return
  proof (rule triple_read_line, rule early)
    fix line
    assume "next_line ls = Inr line"
    then have "pe_json_command ev line = Some ''confirm'' \<Longrightarrow> operator_agreed ev opts ls"
      using that by (auto simp: operator_agreed_def)
    then show "triple (\<lambda>w. tm_fs w = s \<and> tm_backend w = x) (case if pe_json_command ev line = Some ''confirm'' then GD_Confirm
        else if pe_json_command ev line = Some ''reject'' then GD_Reject
        else if pe_json_command ev line = Some ''cancel'' then GD_Cancel else GD_Reject of
        GD_Confirm \<Rightarrow> ?go | GD_Reject \<Rightarrow> io_fail (Pr_Revoked RV_OperatorReject) | GD_Cancel \<Rightarrow> io_fail (Pr_Revoked RV_OperatorCancel)) ?Q ?E"
      using go no by (cases "pe_json_command ev line = Some ''confirm''") simp_all
  qed
  let ?auto = "po_yes opts \<or> po_scripted_oob opts \<noteq> None"
  let ?answer = "\<lambda>decision. case decision of OC_Accept \<Rightarrow> ?go | OC_Reject \<Rightarrow> io_fail (Pr_Revoked RV_OperatorReject)"
  have read: "triple (at_terminal s ls x) (io_bind read_line (\<lambda>line. ?answer (parse_yes_no line))) ?Q ?E" if "\<not> po_gui opts"
  proof (rule triple_read_line, rule early)
    fix line
    assume "next_line ls = Inr line"
    then have "parse_yes_no line = OC_Accept \<Longrightarrow> operator_agreed ev opts ls"
      using that by (auto simp: operator_agreed_def)
    then show "triple (\<lambda>w. tm_fs w = s \<and> tm_backend w = x) (?answer (parse_yes_no line)) ?Q ?E"
      using go no by (cases "parse_yes_no line") simp_all
  qed
  have flag: "triple (at_terminal s ls x) ?go ?Q ?E" if "\<not> po_gui opts" ?auto
    by (rule triple_pre [OF _ go]) (use that in \<open>auto simp: at_terminal_def operator_agreed_def\<close>)
  have oob: "triple (at_terminal s ls x) (io_bind (read_oob_confirmation code ?auto) ?answer) ?Q ?E" if "\<not> po_gui opts" for code
    unfolding read_oob_confirmation_def io_bind_assoc io_bind_if io_bind_return oob_confirmation.case
    by (intro triple_stays triple_if stays_rules early' read flag that)
  show ?thesis
    unfolding confirm_and_bond_def Let_def
    by (intro triple_stays [where f = "\<lambda>_. if _ then _ else _"] triple_stays [where m = "say ''{\"event\":\"waiting_confirmation\"}''"]
        triple_if stays_rules early' gui oob)
qed

text \<open>All that must have happened for the active trust to change: the adapter supports secure connections, the
  scan offered exactly this peer, the negotiation gave this outcome, the operator agreed, and the exchange
  with the phone completed.\<close>

definition terminal_agreed ::
    "pair_env \<Rightarrow> pair_opts \<Rightarrow> 'b pair_backend \<Rightarrow> (io_error, string) result list \<Rightarrow> 'b \<Rightarrow> pair_candidate \<Rightarrow> lesc_outcome \<Rightarrow> bool" where
  "terminal_agreed ev opts B ls b0 chosen outcome \<longleftrightarrow>
     (\<exists>info b1 cs b2 b3 b4.
        pb_adapter_info B (po_adapter opts) b0 = (Inr info, b1) \<and> ai_supports_lesc info \<and>
        pb_scan_peers B (pb_set_transaction_id B (pe_transaction ev) b1) = (Inr cs, b2) \<and>
        filter_candidates cs (po_peer opts) = [chosen] \<and>
        pb_initiate_lesc_with_peer B chosen b2 = (Inr outcome, b3) \<and>
        operator_agreed ev opts ls \<and>
        pb_coordinate_v2 B (pe_transaction ev) b3 = (Inr (), b4))"

lemma pick_unambiguous_InrD: "pick_unambiguous cs a = Inr p \<Longrightarrow> cs = [p]"
  by (auto simp: pick_unambiguous_def split: list.splits if_splits)

lemma triple_select:
  fixes B :: "'b pair_backend"
  assumes err: "\<And>e b w. at_terminal s ls b w \<Longrightarrow> E e w"
    and ok: "\<And>chosen cs b'. pb_scan_peers B b = (Inr cs, b') \<Longrightarrow> filter_candidates cs (po_peer opts) = [chosen] \<Longrightarrow>
      triple (at_terminal s ls b') (f chosen) Q E"
  shows "triple (at_terminal s ls b) (io_bind (select_peer ev opts B) f) Q E"
  unfolding select_peer_def io_bind_assoc io_bind_guard io_bind_return
proof (rule triple_stays [OF _ err], (intro stays_rules)[1], assumption, rule triple_on_backend, erule err)
  fix cs b'
  assume scan: "pb_scan_peers B b = (Inr cs, b')"
  show "triple (at_terminal s ls b') (if cs = [] then io_fail Pr_NoPeers
      else io_bind (io_lift (pick_unambiguous (filter_candidates cs (po_peer opts)) (po_yes opts))) (\<lambda>chosen.
       io_bind
         (if po_gui opts
          then say (''{\"event\":\"device_found\",\"name\":'' @ json_or ev ''\"Telefono Android\"'' (pd_name chosen) @ ''}'')
          else say (''selected '' @ pd_name chosen @ '' ('' @ pd_address chosen @ '')'')) (\<lambda>_. f chosen))) Q E"
  proof (intro triple_if triple_fail err, assumption, rule triple_stays [OF stays_terminal(4) err], assumption)
    fix chosen v v'
    assume "io_lift (pick_unambiguous (filter_candidates cs (po_peer opts)) (po_yes opts)) v = (Inr chosen, v')"
    then have "filter_candidates cs (po_peer opts) = [chosen]"
      by (auto dest: pick_unambiguous_InrD simp: io_lift_def)
    note fin = ok [OF scan this]
    show "triple (at_terminal s ls b') (io_bind
         (if po_gui opts
          then say (''{\"event\":\"device_found\",\"name\":'' @ json_or ev ''\"Telefono Android\"'' (pd_name chosen) @ ''}'')
          else say (''selected '' @ pd_name chosen @ '' ('' @ pd_address chosen @ '')'')) (\<lambda>_. f chosen)) Q E"
      by (rule triple_stays [OF _ err fin], (intro stays_rules)[1])
  qed
qed

lemma triple_negotiate:
  fixes B :: "'b pair_backend"
  assumes err: "\<And>e b w. at_terminal s ls b w \<Longrightarrow> E e w"
    and ok: "\<And>outcome b'. pb_initiate_lesc_with_peer B chosen b = (Inr outcome, b') \<Longrightarrow> triple (at_terminal s ls b') (f outcome) Q E"
  shows "triple (at_terminal s ls b) (io_bind (negotiate cr ev opts B chosen) f) Q E"
  unfolding negotiate_def io_bind_assoc io_bind_guard io_bind_return
  by (rule triple_stays [OF _ err], (intro stays_rules)[1], assumption, intro triple_if triple_fail err, assumption,
      rule triple_on_backend, erule err, rule triple_stays [OF _ err ok], (intro stays_rules)[1])

lemma triple_run_pair:
  fixes B :: "'b pair_backend"
  assumes laws: "crypto_laws cr" "po_bond_dir opts \<noteq> []"
  shows "triple (at_terminal s ls b0) (run_pair_with_io cr sd ev opts B)
    (\<lambda>ph w. ph = PP_Bonded \<and> (\<exists>chosen outcome. terminal_agreed ev opts B ls b0 chosen outcome \<and>
       terminal_bonded cr sd (po_bond_dir opts) (po_force opts) (build_bond cr ev outcome chosen) (lo_bond_key outcome)
         (fs_nodes s) (fs_nodes (tm_fs w))))
    (\<lambda>e w. trust_same (po_bond_dir opts) (fs_nodes s) (fs_nodes (tm_fs w)) \<or>
       (\<exists>chosen outcome. terminal_agreed ev opts B ls b0 chosen outcome \<and>
       terminal_torn cr sd (po_bond_dir opts) (po_force opts) (build_bond cr ev outcome chosen) (lo_bond_key outcome)
         (fs_nodes s) (fs_nodes (tm_fs w))))" (is "triple _ _ ?Q ?E")
proof -
  have early: "?E e w" if "at_terminal s ls b w" for e b w using that by (simp add: at_terminal_def trust_same_def)
  let ?said = "\<lambda>chosen outcome. if po_gui opts
    then say (''{\"event\":\"bonded\",\"device\":'' @ json_or ev ''\"Telefono Android\"'' (pd_name chosen) @ ''}'')
    else say (''bonded '' @ pd_name chosen @ '' id='' @ peer_id_from_pubkey cr (lo_peer_pubkey outcome) @ ''; run `syauth list` to verify'')"
  have last: "triple (at_terminal s ls b3) (io_bind (confirm_and_bond cr sd ev opts B chosen outcome) (\<lambda>_.
      io_bind (?said chosen outcome) (\<lambda>_. io_return PP_Bonded))) ?Q ?E"
    if "pb_adapter_info B (po_adapter opts) b0 = (Inr info, b1)" "ai_supports_lesc info"
      "pb_scan_peers B (pb_set_transaction_id B (pe_transaction ev) b1) = (Inr cs, b2)" "filter_candidates cs (po_peer opts) = [chosen]"
      "pb_initiate_lesc_with_peer B chosen b2 = (Inr outcome, b3)"
    for info b1 cs b2 chosen outcome b3
  proof -
    note chain = that
    let ?bond = "\<lambda>w. terminal_bonded cr sd (po_bond_dir opts) (po_force opts) (build_bond cr ev outcome chosen) (lo_bond_key outcome)
         (fs_nodes s) (fs_nodes (tm_fs (w :: 'b terminal)))"
    let ?I = "\<lambda>w. (operator_agreed ev opts ls \<and> coordinated B (pe_transaction ev) b3) \<and> ?bond w"
    have agreed: "terminal_agreed ev opts B ls b0 chosen outcome" if "operator_agreed ev opts ls \<and> coordinated B (pe_transaction ev) b3"
      using that chain unfolding terminal_agreed_def coordinated_def by blast
    have fin: "?Q PP_Bonded w" "?E e w" if "?I w" for e w
      using that agreed terminal_bonded_torn by blast+
    have said: "stays ?I (?said chosen outcome)"
      by (auto simp: stays_def say_def put_def split: list.split bool.split)
    show ?thesis
    proof (rule triple_bind [where R = "\<lambda>_. ?I"])
      show "triple (at_terminal s ls b3) (confirm_and_bond cr sd ev opts B chosen outcome) (\<lambda>_. ?I) ?E"
        by (rule triple_weaken [OF triple_confirm [OF laws]]) (use agreed in blast)+
      show "triple ?I (io_bind (?said chosen outcome) (\<lambda>_. io_return PP_Bonded)) ?Q ?E"
        by (rule triple_stays [OF said fin(2)], assumption, rule triple_return) (rule fin)
    qed
  qed
  show ?thesis
    unfolding run_pair_with_io_def
    by (rule triple_on_backend, erule early, rule triple_stays [OF stays_terminal(3) early], assumption, rule triple_if,
        rule triple_fail, erule early, rule triple_on_backend, erule early, rule triple_select, erule early,
        rule triple_negotiate, erule early, rule last) (auto simp: io_do_def)
qed

subsection \<open>Properties\<close>


text \<open>A backend on which every step succeeds, and the sample pairing with it.\<close>

definition willing_backend :: "unit pair_backend" where
  "willing_backend = \<lparr>pb_adapter_info = (\<lambda>a. io_return \<lparr>ai_name = a, ai_supports_lesc = True\<rparr>),
     pb_scan_peers = io_return [\<lparr>pd_name = ''phone'', pd_address = ''AA''\<rparr>],
     pb_initiate_lesc_with_peer = (\<lambda>_. io_return \<lparr>lo_peer_pubkey = replicate 32 1, lo_bond_key = replicate 32 0, lo_numeric_code = 0\<rparr>),
     pb_set_transaction_id = (\<lambda>_ b. b), pb_coordinate_v2 = (\<lambda>_. io_return ())\<rparr>"

definition sample_pair_env :: pair_env where
  "sample_pair_env = \<lparr>pe_now = 0, pe_transaction = replicate 16 7, pe_elapsed = False, pe_json_string = Some, pe_json_command = (\<lambda>_. None)\<rparr>"

definition sample_pair_opts :: pair_opts where
  "sample_pair_opts = \<lparr>po_adapter = ''hci0'', po_peer = None, po_bond_dir = [''var''], po_yes = False, po_force = False,
     po_gui = False, po_scripted_oob = None\<rparr>"

definition sample_terminal :: "unit terminal" where
  "sample_terminal = \<lparr>tm_fs = fresh_fs, tm_backend = (), tm_lines = [Inr (''Yes'' @ newline)], tm_writes = [], tm_output = []\<rparr>"

lemma sample_terminal_run:
  "fst (run_pair_with_io padding_crypto sample_serde sample_pair_env sample_pair_opts willing_backend sample_terminal) = Inr PP_Bonded"
  by code_simp


text \<open>The key file is created with the mode of the umask and restricted afterwards: killed in between, the command
  leaves the whole key readable by everyone the umask admits.\<close>

lemma key_file_created_open:
  "fs_nodes (snd (write_pam_bond_key [''var''] ''ab'' (replicate 32 9)
      (fresh_fs\<lparr>fs_nodes := [[''var''] \<mapsto> Dir 0x1ED, [''var'', ''keys''] \<mapsto> Dir 0x1C0],
        fs_faults := [None, None, None, Some (Crash 0)]\<rparr>))) [''var'', ''keys'', ''ab.bin''] =
    Some (File (replicate 32 9) 0x1A4)"
  by code_simp

end
