(* ===== verification/Terminal_Backend.thy ===== *)
theory Terminal_Backend
  imports Cli_Pair Pair_Engine
begin

section \<open>The terminal's own pairing service: \<open>pair_backend.rs\<close> of syauth-cli\<close>

text \<open>
  \<open>BluerPairBackend\<close>, which serves the pairing characteristics itself while \<open>syauth pair\<close> runs, the handlers that
  ask for the numeric comparison, and the client of the daemon's confirmation socket. BlueZ is a record of
  outcomes; what arrives while the backend sleeps is a script, whose end is the end of the waiting time.
  No holder of the mutexes panics, so none of them is ever poisoned.
\<close>

subsection \<open>Names and messages\<close>

definition PAIR_CONNECTED_PEER_NAME :: string where "PAIR_CONNECTED_PEER_NAME = ''Telefono Android''"
definition SECONDS_PER_MINUTE :: int where "SECONDS_PER_MINUTE = 60"

definition ascii_lower_code :: "nat \<Rightarrow> nat" where
  "ascii_lower_code c = (if 65 \<le> c \<and> c \<le> 90 then c + 32 else c)"

text \<open>Names are lists of code points; an address is ASCII.\<close>

definition friendly_peer_name :: "nat list \<Rightarrow> string \<Rightarrow> string" where
  "friendly_peer_name name address =
     (let display = trim_name (map (\<lambda>c. if is_control c then 32 else c) (take 128 name)) in
      if display = [] \<or> map ascii_lower_code display = map (ascii_lower_code \<circ> of_char) address
      then PAIR_CONNECTED_PEER_NAME
      else map char_of (utf8_string display))"

definition map_bluer :: "bluer_error \<Rightarrow> pair_error" where
  "map_bluer err = (case fst err of Bluer_NotFound \<Rightarrow> Pr_AdapterMissing ''<unknown>'' | Bluer_Other \<Rightarrow> Pr_Backend (Because_Bluez (snd err)))"

definition unix_minute_floor :: "nat \<Rightarrow> int" where
  "unix_minute_floor secs = int secs div SECONDS_PER_MINUTE"

definition pair_discovery_uuid :: "crypto \<Rightarrow> int \<Rightarrow> bytes" where
  "pair_discovery_uuid cr minute = session_uuid_for cr (replicate 32 0) (word_of_int minute)"

definition ADVERTISE_LOCAL_NAME :: string where "ADVERTISE_LOCAL_NAME = ''DeskUnlock''"

record advertisement =
  ad_service_uuids :: "bytes list"
  ad_discoverable :: bool
  ad_local_name :: string

definition build_advertisement :: "crypto \<Rightarrow> int \<Rightarrow> advertisement" where
  "build_advertisement cr minute =
     \<lparr>ad_service_uuids = [pair_discovery_uuid cr minute], ad_discoverable = True, ad_local_name = ADVERTISE_LOCAL_NAME\<rparr>"

definition build_pair_services :: "(uuid \<times> pair_characteristic list) list" where
  "build_pair_services =
     [(SYAUTH_PAIR_SERVICE_UUID,
       [authenticated_read SYAUTH_PAIR_HOST_NAME_V1_CHAR_UUID,
        authenticated_read SYAUTH_PAIR_HOST_PUBKEY_CHAR_UUID,
        authenticated_read SYAUTH_PAIR_V2_STATUS_CHAR_UUID,
        authenticated_write SYAUTH_PAIR_V2_CONTROL_CHAR_UUID,
        authenticated_write SYAUTH_PAIR_PHONE_PUBKEY_CHAR_UUID])]"

subsection \<open>State\<close>

text \<open>\<open>tb_advertised\<close> is the minute whose advertisement is on the air. \<open>tb_wakes\<close> scripts the sleeps: the control
  writes that arrive, each with its sender, whether it is accepted and what its reader yields, and whether
  the deadline has passed on waking.\<close>

datatype control_write = Control_From string bool "bytes option"

record terminal_backend =
  tb_host_pubkey :: bytes
  tb_phone_pubkey :: "bytes option"
  tb_inbox :: "bytes list"
  tb_peer_address :: "string option"
  tb_status :: bytes
  tb_transaction_id :: "bytes option"
  tb_tx :: "transaction option"
  tb_advertised :: "int option"
  tb_wakes :: "(control_write list \<times> bool) list"

type_synonym 'a backend_op = "(terminal_backend, pair_error, 'a) stm"

definition backend_new :: "bytes \<Rightarrow> terminal_backend" where
  "backend_new host_pubkey = \<lparr>tb_host_pubkey = host_pubkey, tb_phone_pubkey = None, tb_inbox = [], tb_peer_address = None,
     tb_status = [], tb_transaction_id = None, tb_tx = None, tb_advertised = None, tb_wakes = []\<rparr>"

definition backend_status :: "terminal_backend \<Rightarrow> status_state" where
  "backend_status b = (case tb_tx b of Some t \<Rightarrow> tx_status t | None \<Rightarrow> St_Unknown)"

text \<open>The task that reads the control characteristic, on one write.\<close>

primrec control_task :: "control_write \<Rightarrow> terminal_backend \<Rightarrow> terminal_backend" where
  "control_task (Control_From address accepted r) b =
     (if \<not> accepted then b
      else case r of
        None \<Rightarrow> b
      | Some bs \<Rightarrow>
          if length bs > 64 \<or> tb_peer_address b \<noteq> Some address then b
          else (case status_decode bs of
                  Inr query \<Rightarrow>
                    if sm_state query = None \<and> tb_transaction_id b = Some (sm_transaction query)
                    then b\<lparr>tb_status := status_encode (status_response (sm_transaction query) (sm_nonce query) (backend_status b))\<rparr>
                    else b
                | Inl e \<Rightarrow> b\<lparr>tb_inbox := tb_inbox b @ [bs]\<rparr>))"

definition publish_protocol :: "message \<Rightarrow> unit backend_op" where
  "publish_protocol m = io_do (\<lambda>b. b\<lparr>tb_status := message_encode m\<rparr>)"

definition publish_status :: "bytes \<Rightarrow> terminal_backend \<Rightarrow> terminal_backend" where
  "publish_status tid b = b\<lparr>tb_status := status_encode (status_response tid 0 (backend_status b))\<rparr>"

definition take_protocol :: "bytes \<Rightarrow> terminal_backend \<Rightarrow> operation option \<times> terminal_backend" where
  "take_protocol tid b =
     (case position (\<lambda>bs. case message_decode bs of Inr m \<Rightarrow> msg_transaction m = tid | Inl e \<Rightarrow> False) (tb_inbox b) of
        None \<Rightarrow> (None, b)
      | Some k \<Rightarrow>
          (map_option msg_operation (result_ok (message_decode (tb_inbox b ! k))),
           b\<lparr>tb_inbox := remove_at k (tb_inbox b)\<rparr>))"

lemma take_protocol_shorter: "take_protocol tid b = (Some x, b') \<Longrightarrow> length (tb_inbox b') < length (tb_inbox b)"
  by (auto simp: take_protocol_def length_remove_at dest!: position_SomeD split: option.splits)

definition apply_tx :: "(transaction \<Rightarrow> unit tx_outcome) \<Rightarrow> unit backend_op" where
  "apply_tx f b =
     (case tb_tx b of
        None \<Rightarrow> (Inl (Pr_Backend (Because ''pair transaction not initialized'')), b)
      | Some t \<Rightarrow> (case f t of (r, t') \<Rightarrow> (result_map_err (\<lambda>e. Pr_Backend (Because_Transaction e)) r, b\<lparr>tb_tx := Some t'\<rparr>)))"

definition apply_local :: "local_event \<Rightarrow> unit backend_op" where
  "apply_local e = apply_tx (\<lambda>t. tx_local t e)"

definition backend_apply_remote :: "bytes \<Rightarrow> operation \<Rightarrow> unit backend_op" where
  "backend_apply_remote tid x = apply_tx (\<lambda>t. tx_remote t \<lparr>msg_transaction = tid, msg_operation = x\<rparr>)"

text \<open>A status query is answered and the loop goes on at once; without a message it sleeps.\<close>

function wait_protocol_loop ::
    "bytes \<Rightarrow> operation \<Rightarrow> (control_write list \<times> bool) list \<Rightarrow> bool \<Rightarrow> terminal_backend \<Rightarrow>
     (pair_error, unit) result \<times> terminal_backend" where
  "wait_protocol_loop tid wanted ws late b =
     (case take_protocol tid b of
        (Some x, b1) \<Rightarrow>
          if x = Op_StatusQuery then wait_protocol_loop tid wanted ws late (publish_status tid b1)
          else if x = wanted then (Inr (), b1\<lparr>tb_wakes := ws\<rparr>)
          else if is_abort_op x then (Inl Pr_RemoteAbort, snd (backend_apply_remote tid x (b1\<lparr>tb_wakes := ws\<rparr>)))
          else (Inl (Pr_Backend (Because ''invalid pairing transaction message'')), b1\<lparr>tb_wakes := ws\<rparr>)
      | (None, b1) \<Rightarrow>
          if late then (Inl Pr_ProtocolTimeout, snd (apply_local Ev_Disconnected (b1\<lparr>tb_wakes := ws\<rparr>)))
          else (case ws of
                  [] \<Rightarrow> (Inl Pr_ProtocolTimeout, snd (apply_local Ev_Disconnected (b1\<lparr>tb_wakes := []\<rparr>)))
                | (es, late') # ws' \<Rightarrow> wait_protocol_loop tid wanted ws' late' (fold control_task es b1)))"
  by pat_completeness auto
termination
  by (relation "measures [\<lambda>(tid, wanted, ws, late, b). length ws, \<lambda>(tid, wanted, ws, late, b). length (tb_inbox b)]")
     (auto dest: take_protocol_shorter [OF sym] simp: publish_status_def)

declare wait_protocol_loop.simps [simp del]

definition wait_protocol :: "bytes \<Rightarrow> operation \<Rightarrow> unit backend_op" where
  "wait_protocol tid wanted b = wait_protocol_loop tid wanted (tb_wakes b) False b"

subsection \<open>The trait\<close>

definition backend_set_transaction_id :: "bytes \<Rightarrow> terminal_backend \<Rightarrow> terminal_backend" where
  "backend_set_transaction_id tid b =
     publish_status tid (b\<lparr>tb_transaction_id := Some tid, tb_tx := Some (tx_new tid Coordinator)\<rparr>)"

definition wait_or_uncertain :: "bytes \<Rightarrow> operation \<Rightarrow> unit backend_op" where
  "wait_or_uncertain tid wanted =
     io_bind (io_try (wait_protocol tid wanted)) (\<lambda>r.
     case r of
       Inl e \<Rightarrow> io_bind (io_ignore (apply_local Ev_Disconnected)) (\<lambda>_. io_fail Pr_ProtocolUncertain)
     | Inr u \<Rightarrow> io_return ())"

definition coordinate_v2 :: "bytes \<Rightarrow> unit backend_op" where
  "coordinate_v2 tid =
     (let msg = (\<lambda>x. \<lparr>msg_transaction = tid, msg_operation = x\<rparr>) in
      io_bind (publish_protocol (msg Op_Capability)) (\<lambda>_.
      io_bind (wait_protocol tid Op_Capability) (\<lambda>_.
      io_bind (backend_apply_remote tid Op_Capability) (\<lambda>_.
      io_bind (apply_local Ev_Capability) (\<lambda>_.
      io_bind (apply_local Ev_VerifiedExchange) (\<lambda>_.
      io_bind (apply_local Ev_Confirm) (\<lambda>_.
      io_bind (publish_protocol (msg Op_Confirm)) (\<lambda>_.
      io_bind (wait_protocol tid Op_Confirm) (\<lambda>_.
      io_bind (backend_apply_remote tid Op_Confirm) (\<lambda>_.
      io_bind (apply_local Ev_Prepared) (\<lambda>_.
      io_bind (publish_protocol (msg Op_Prepared)) (\<lambda>_.
      io_bind (wait_protocol tid Op_Prepared) (\<lambda>_.
      io_bind (backend_apply_remote tid Op_Prepared) (\<lambda>_.
      io_bind (apply_local Ev_Commit) (\<lambda>_.
      io_bind (publish_protocol (msg Op_Commit)) (\<lambda>_.
      io_bind (wait_or_uncertain tid Op_CommitAck) (\<lambda>_.
      io_bind (backend_apply_remote tid Op_CommitAck) (\<lambda>_.
      io_bind (publish_protocol (msg Op_Committed)) (\<lambda>_.
      io_bind (wait_or_uncertain tid Op_Committed) (\<lambda>_.
      io_bind (backend_apply_remote tid Op_Committed) (\<lambda>_.
      apply_local Ev_Committed)))))))))))))))))))))"

definition initiate_lesc_with_peer :: "crypto \<Rightarrow> lesc_outcome backend_op" where
  "initiate_lesc_with_peer cr b =
     (case tb_phone_pubkey b of
        None \<Rightarrow> (Inl Pr_NoPeers, b)
      | Some phone_pubkey \<Rightarrow>
          let bond_key = bond_key_from_pubkeys cr (tb_host_pubkey b) phone_pubkey;
              tid = (case tb_transaction_id b of Some i \<Rightarrow> i | None \<Rightarrow> replicate 16 0);
              b1 = b\<lparr>tb_phone_pubkey := None,
                     tb_status := message_encode \<lparr>msg_transaction = tid, msg_operation = Op_Capability\<rparr>\<rparr> in
          io_bind (apply_local Ev_Capability) (\<lambda>_.
            io_return \<lparr>lo_peer_pubkey = phone_pubkey, lo_bond_key = bond_key, lo_numeric_code = 0\<rparr>) b1)"

text \<open>BlueZ as this backend uses it: each call with its outcome. While it waits for the phone, control writes are
  handled, writes of the key arrive (accepted or not, with what one read yields, the device object and
  its alias), and the ticker fires with the current minute and the outcome of advertising it.\<close>

datatype scan_event =
    Scan_Control control_write
  | Scan_Other
  | Scan_Closed
  | Scan_Write string "(string, unit) result" "(string, bytes) result" "(bluer_error, nat list) result"
  | Scan_Tick int "(string, unit) result"

record bluez_env =
  bl_session :: "(bluer_error, unit) result"
  bl_agent :: "(bluer_error, unit) result"
  bl_adapter :: "string \<Rightarrow> (bluer_error, unit) result"
  bl_set_powered :: "(string, unit) result"
  bl_set_pairable :: "(string, unit) result"
  bl_serve :: "(string, unit) result"
  bl_minute :: int
  bl_advertise :: "(string, unit) result"
  bl_events :: "scan_event list"

definition open_adapter :: "bluez_env \<Rightarrow> string \<Rightarrow> (pair_error, unit) result" where
  "open_adapter be adapter_id =
     result_map_err (\<lambda>e. case fst e of Bluer_NotFound \<Rightarrow> Pr_AdapterMissing adapter_id | Bluer_Other \<Rightarrow> Pr_Backend (Because_Bluez (snd e)))
       (bl_adapter be adapter_id)"

definition backend_adapter_info :: "bluez_env \<Rightarrow> string \<Rightarrow> adapter_info backend_op" where
  "backend_adapter_info be adapter_id =
     io_lift (
       result_bind (result_map_err map_bluer (bl_session be)) (\<lambda>_.
       result_bind (open_adapter be adapter_id) (\<lambda>_.
       result_bind (result_map_err (\<lambda>e. Pr_Backend (Because_Bluez e)) (bl_set_powered be)) (\<lambda>_.
       Inr \<lparr>ai_name = adapter_id, ai_supports_lesc = True\<rparr>))))"

fun scan_loop :: "scan_event list \<Rightarrow> int \<Rightarrow> int \<Rightarrow> pair_candidate backend_op" where
  "scan_loop [] current_adv current_minute b = (Inl Pr_NoPeers, b)"
| "scan_loop (Scan_Control c # es) current_adv current_minute b = scan_loop es current_adv current_minute (control_task c b)"
| "scan_loop (Scan_Other # es) current_adv current_minute b = scan_loop es current_adv current_minute b"
| "scan_loop (Scan_Closed # es) current_adv current_minute b = (Inl Pr_NoPeers, b)"
| "scan_loop (Scan_Write address accepted got alias # es) current_adv current_minute b =
     (case accepted of
        Inl e \<Rightarrow> (Inl (Pr_Backend (Because_Bluez (''phone-pubkey write.accept: '' @ e))), b)
      | Inr _ \<Rightarrow>
          (case got of
             Inl e \<Rightarrow> (Inl (Pr_Backend (Because_Bluez (''phone-pubkey read: '' @ e))), b)
           | Inr buf \<Rightarrow>
               if length buf \<noteq> PAIR_PUBKEY_LEN
               then (Inl (Pr_Backend (Because (''phone-pubkey: expected 32 bytes, got '' @ dec_string (length buf)))), b)
               else
                 let b1 = b\<lparr>tb_phone_pubkey := Some buf, tb_peer_address := Some address, tb_advertised := Some current_adv\<rparr> in
                 (case alias of
                    Inl e \<Rightarrow> (Inl (map_bluer e), b1)
                  | Inr name \<Rightarrow> (Inr \<lparr>pd_name = friendly_peer_name name address, pd_address = address\<rparr>, b1))))"
| "scan_loop (Scan_Tick new_minute advertised # es) current_adv current_minute b =
     (if new_minute = current_minute then scan_loop es current_adv current_minute b
      else case advertised of
        Inr _ \<Rightarrow> scan_loop es new_minute new_minute b
      | Inl e \<Rightarrow> scan_loop es current_adv current_minute b)"

definition backend_scan_peers :: "bluez_env \<Rightarrow> string \<Rightarrow> pair_candidate list backend_op" where
  "backend_scan_peers be adapter_id =
     io_bind (io_lift (result_map_err map_bluer (bl_session be))) (\<lambda>_.
     io_bind (io_lift (result_map_err map_bluer (bl_agent be))) (\<lambda>_.
     io_bind (io_lift (open_adapter be adapter_id)) (\<lambda>_.
     io_bind (io_lift (result_map_err (\<lambda>e. Pr_Backend (Because_Bluez e)) (bl_set_powered be))) (\<lambda>_.
     io_bind (io_lift (result_map_err (\<lambda>e. Pr_Backend (Because_Bluez e)) (bl_set_pairable be))) (\<lambda>_.
     io_bind (io_lift (result_map_err (\<lambda>e. Pr_Backend (Because_Bluez (''serve_gatt_application: '' @ e))) (bl_serve be))) (\<lambda>_.
     io_bind (io_lift (result_map_err (\<lambda>e. Pr_Backend (Because_Bluez (''advertise: '' @ e))) (bl_advertise be))) (\<lambda>_.
     io_bind (io_do (\<lambda>b. b\<lparr>tb_advertised := None\<rparr>)) (\<lambda>_.
     io_bind (scan_loop (bl_events be) (bl_minute be) (bl_minute be)) (\<lambda>peer.
     io_return [peer])))))))))"

definition bluer_pair_backend :: "crypto \<Rightarrow> bluez_env \<Rightarrow> string \<Rightarrow> terminal_backend pair_backend" where
  "bluer_pair_backend cr be adapter_id =
     \<lparr>pb_adapter_info = backend_adapter_info be, pb_scan_peers = backend_scan_peers be adapter_id,
      pb_initiate_lesc_with_peer = (\<lambda>_. initiate_lesc_with_peer cr),
      pb_set_transaction_id = backend_set_transaction_id, pb_coordinate_v2 = coordinate_v2\<rparr>"

subsection \<open>Handlers of the numeric comparison\<close>

text \<open>The agent runs the installed handler on a blocking thread and rejects when there is none or the thread dies.\<close>

definition agent_confirms :: "(u32 \<Rightarrow> bool) option \<Rightarrow> bool \<Rightarrow> u32 \<Rightarrow> bool" where
  "agent_confirms handler joined passkey = (joined \<and> (case handler of Some h \<Rightarrow> h passkey | None \<Rightarrow> False))"

definition stdio_confirms :: "(io_error, string) result \<Rightarrow> bool" where
  "stdio_confirms r = (case r of Inr line \<Rightarrow> parse_yes_no line = OC_Accept | Inl e \<Rightarrow> False)"

definition gui_confirms :: "pair_env \<Rightarrow> (io_error, string) result \<Rightarrow> bool" where
  "gui_confirms ev r = (case r of Inr line \<Rightarrow> pe_json_command ev line = Some ''confirm'' | Inl e \<Rightarrow> False)"

definition PAIR_IPC_DIR_SUBPATH :: string where "PAIR_IPC_DIR_SUBPATH = ''syauth''"
definition PAIR_IPC_REQUEST_FILE :: string where "PAIR_IPC_REQUEST_FILE = ''pair-request.json''"
definition PAIR_IPC_RESPONSE_FILE :: string where "PAIR_IPC_RESPONSE_FILE = ''pair-response.json''"

definition pair_ipc_dir :: "string option \<Rightarrow> string option \<Rightarrow> path option" where
  "pair_ipc_dir sudo_uid xdg_runtime_dir =
     (case Option.bind sudo_uid (\<lambda>s. parse_u32 (string_bytes s)) of
        Some uid \<Rightarrow> Some (path_join (components (''/run/user/'' @ dec_string (nat uid))) PAIR_IPC_DIR_SUBPATH)
      | None \<Rightarrow>
          (case xdg_runtime_dir of
             None \<Rightarrow> None
           | Some xdg \<Rightarrow> if xdg = [] then None else Some (path_join (components xdg) PAIR_IPC_DIR_SUBPATH)))"

definition json_string_field :: "string \<Rightarrow> string \<Rightarrow> string option" where
  "json_string_field text key =
     (let needle = ''\"'' @ key @ ''\"'' in
      Option.bind (str_find needle text) (\<lambda>key_pos.
      let after_key = drop (key_pos + length needle) text in
      Option.bind (str_find '':'' after_key) (\<lambda>colon.
      let after_colon = drop (colon + 1) after_key in
      Option.bind (str_find ''\"'' after_colon) (\<lambda>opening.
      let rest = drop (opening + 1) after_colon in
      Option.bind (str_find ''\"'' rest) (\<lambda>closing. Some (take closing rest))))))"

definition parse_decision :: "bytes \<Rightarrow> string \<Rightarrow> bool option" where
  "parse_decision bs expected_id =
     Option.bind (from_utf8 bs) (\<lambda>text.
     Option.bind (json_string_field text ''request_id'') (\<lambda>i.
     if i \<noteq> expected_id then None
     else Option.bind (json_string_field text ''decision'') (\<lambda>decision.
       if decision = ''accept'' then Some True else if decision = ''reject'' then Some False else None)))"

text \<open>Before each poll the applet may have replaced the response file; the end of the list is the deadline.\<close>

definition applet_writes :: "path \<Rightarrow> bytes option \<Rightarrow> fs \<Rightarrow> fs" where
  "applet_writes p c s = (case c of None \<Rightarrow> s | Some bs \<Rightarrow> set_node p (Some (File bs 0x1A4)) s)"

primrec wait_for_decision :: "path \<Rightarrow> string \<Rightarrow> bytes option list \<Rightarrow> (unit, bool) prog" where
  "wait_for_decision p request_id [] = io_return False"
| "wait_for_decision p request_id (c # cs) =
     io_bind (io_do (applet_writes p c)) (\<lambda>_.
     io_bind (io_try (fs_read p)) (\<lambda>r.
     case r of
       Inr bs \<Rightarrow>
         (case parse_decision bs request_id of
            Some yes \<Rightarrow> io_return yes
          | None \<Rightarrow> wait_for_decision p request_id cs)
     | Inl e \<Rightarrow> wait_for_decision p request_id cs))"

definition pair_request_json :: "string \<Rightarrow> u32 \<Rightarrow> nat \<Rightarrow> string" where
  "pair_request_json request_id passkey ts =
     ''{\"schema_version\":1,\"kind\":\"pair_confirm\",\"request_id\":\"'' @ request_id @ ''\",\"passkey\":\"''
     @ pad_left 6 (dec_string (unat passkey)) @ ''\",\"created_at_secs\":'' @ dec_string ts @ ''}''"

definition waybar_confirms ::
    "path option \<Rightarrow> string \<Rightarrow> nat \<Rightarrow> bytes option list \<Rightarrow> u32 \<Rightarrow> (unit, bool) prog" where
  "waybar_confirms dir request_id ts script passkey =
     (case dir of
        None \<Rightarrow> io_return False
      | Some d \<Rightarrow>
          io_bind (io_try (fs_create_dir_all d)) (\<lambda>made.
          if \<not> is_ok made then io_return False
          else
            let request_path = path_join d PAIR_IPC_REQUEST_FILE; response_path = path_join d PAIR_IPC_RESPONSE_FILE in
            io_bind (io_ignore (fs_remove_file response_path)) (\<lambda>_.
            io_bind (io_try (fs_write request_path (string_bytes (pair_request_json request_id passkey ts)))) (\<lambda>written.
            if \<not> is_ok written then io_return False
            else
              io_bind (io_ignore (fs_set_permissions request_path 0x1A4)) (\<lambda>_.
              io_bind (wait_for_decision response_path request_id script) (\<lambda>decision.
              io_bind (io_ignore (fs_remove_file request_path)) (\<lambda>_.
              io_bind (io_ignore (fs_remove_file response_path)) (\<lambda>_.
              io_return decision))))))))"

subsection \<open>The client of the daemon's confirmation socket\<close>

text \<open>One connection of the daemon: whether it is accepted, what it sends, the line the operator types (with
  whether the thread that reads it survives), and whether the answer can be written.\<close>

record gui_visit =
  gv_accept :: "(io_error, unit) result"
  gv_stream :: bytes
  gv_joined :: bool
  gv_line :: "(io_error, string) result"
  gv_write :: "(io_error, unit) result"

datatype gui_effect =
    Gui_Prints string
  | Gui_Answers bool

definition read_operator_decision :: "pair_env \<Rightarrow> gui_visit \<Rightarrow> (pair_error, bool) result" where
  "read_operator_decision ev v =
     (if gv_joined v then Inr (gui_confirms ev (gv_line v)) else Inl (Pr_Backend (Because ''join error'')))"

definition backend_io :: "(io_error, 'a) result \<Rightarrow> (pair_error, 'a) result" where
  "backend_io r = result_map_err (\<lambda>e. Pr_Backend (Because_Io e)) r"

definition lesc_prints :: "pair_env \<Rightarrow> pairing_request \<Rightarrow> gui_effect list" where
  "lesc_prints ev r =
     map Gui_Prints
       [''{\"event\":\"device_found\",\"name\":'' @ json_or ev ''\"unknown\"'' (pr_peer r) @ ''}'',
        ''{\"event\":\"lesc_code\",\"code\":\"'' @ pad_left 6 (dec_string (unat (pr_passkey r))) @ ''\"}'',
        ''{\"event\":\"waiting_lesc_confirmation\"}'']"

definition oob_prints :: "crypto \<Rightarrow> pair_env \<Rightarrow> oob_request \<Rightarrow> gui_effect list" where
  "oob_prints cr ev r =
     (let words = cli_oob_code_for_bond cr (bond_key_from_pubkeys cr (or_host_pubkey r) (or_phone_pubkey r)) in
      map Gui_Prints
        [''{\"event\":\"device_found\",\"name\":'' @ json_or ev ''\"unknown\"'' (or_peer r) @ ''}'',
         ''{\"event\":\"oob_ready\",\"code\":'' @ json_or ev ''\"\"'' words @ ''}''])"

text \<open>\<open>None\<close>: the client waits for the next connection.\<close>

fun gui_loop :: "crypto \<Rightarrow> pair_env \<Rightarrow> gui_visit list \<Rightarrow> (pair_error, unit) result option \<times> gui_effect list" where
  "gui_loop cr ev [] = (None, [])"
| "gui_loop cr ev (v # vs) =
     (let ask = (\<lambda>prints.
        case read_operator_decision ev v of
          Inl e \<Rightarrow> (Some (Inl e), prints)
        | Inr accepted \<Rightarrow>
            (case backend_io (gv_write v) of
               Inl e \<Rightarrow> (Some (Inl e), prints @ [Gui_Answers accepted])
             | Inr _ \<Rightarrow>
                 if \<not> accepted then (Some (Inl (Pr_Revoked RV_OperatorReject)), prints @ [Gui_Answers accepted])
                 else (case gui_loop cr ev vs of (r, effects) \<Rightarrow> (r, prints @ Gui_Answers accepted # effects)))) in
      case backend_io (gv_accept v) of
        Inl e \<Rightarrow> (Some (Inl e), [])
      | Inr _ \<Rightarrow>
          (case fst (broker_read_frame (gv_stream v)) of
             None \<Rightarrow> (Some (Inl (Pr_Backend (Because ''invalid daemon pairing frame''))), [])
           | Some bs \<Rightarrow>
               (case pairing_request_decode bs of
                  Some request \<Rightarrow> ask (lesc_prints ev request)
                | None \<Rightarrow>
                    (case oob_request_decode bs of
                       Some request \<Rightarrow> ask (oob_prints cr ev request)
                     | None \<Rightarrow>
                         (case bonded_notice_decode bs of
                            Some notice \<Rightarrow>
                              (Some (Inr ()), [Gui_Prints (''{\"event\":\"bonded\",\"device\":'' @ json_or ev ''\"unknown\"'' (bn_peer notice) @ ''}'')])
                          | None \<Rightarrow> gui_loop cr ev vs)))))"

record gui_setup =
  gs_runtime_dir :: bool
  gs_create_dir :: "(io_error, unit) result"
  gs_bind :: "(io_error, unit) result"
  gs_mode :: "(io_error, unit) result"

definition run_daemon_gui_confirmation ::
    "crypto \<Rightarrow> pair_env \<Rightarrow> gui_setup \<Rightarrow> gui_visit list \<Rightarrow> (pair_error, unit) result option \<times> gui_effect list" where
  "run_daemon_gui_confirmation cr ev gs vs =
     (case result_bind (if gs_runtime_dir gs then Inr () else Inl (Pr_Backend (Because ''XDG_RUNTIME_DIR is not set''))) (\<lambda>_.
           result_bind (backend_io (gs_create_dir gs)) (\<lambda>_.
           result_bind (backend_io (gs_bind gs)) (\<lambda>_. backend_io (gs_mode gs)))) of
        Inl e \<Rightarrow> (Some (Inl e), [])
      | Inr _ \<Rightarrow> (case gui_loop cr ev vs of (r, effects) \<Rightarrow> (r, Gui_Prints ''{\"event\":\"preparing\"}'' # effects)))"

subsection \<open>The exchange after the negotiation\<close>

text \<open>The capability of the desktop has been announced to the transaction.\<close>

definition announced :: "terminal_backend \<Rightarrow> bool" where
  "announced b \<longleftrightarrow> (\<exists>t. tb_tx b = Some t \<and> fst (tx_capabilities t))"

lemma control_task_tx [simp]: "tb_tx (control_task c b) = tb_tx b"
  by (cases c) (auto split: option.splits sum.splits)

lemma fold_control_tx [simp]: "tb_tx (fold control_task es b) = tb_tx b"
  by (induction es arbitrary: b) simp_all

lemma take_protocol_tx: "take_protocol tid b = (x, b') \<Longrightarrow> tb_tx b' = tb_tx b"
  by (auto simp: take_protocol_def split: option.splits)

lemma announced_cong: "tb_tx b' = tb_tx b \<Longrightarrow> announced b' = announced b"
  by (simp add: announced_def)

lemma announced_apply:
  assumes "\<And>t. fst (tx_capabilities t) \<Longrightarrow> fst (tx_capabilities (snd (f t)))"
  shows "stays announced (apply_tx f)"
  using assms by (auto simp: stays_def announced_def apply_tx_def split: option.split prod.split) (metis snd_conv)

lemma remote_capabilities: "fst (tx_capabilities t) \<Longrightarrow> fst (tx_capabilities (snd (tx_remote t m)))"
  by (auto simp: tx_remote_def tx_confirm_def tx_prepare_def tx_record_committed_def tx_abort_def set_flag_def Let_def
      split: operation.split)

lemma local_capabilities: "fst (tx_capabilities t) \<Longrightarrow> fst (tx_capabilities (snd (tx_local t e)))"
  by (cases e) (auto simp: tx_confirm_def tx_prepare_def tx_record_committed_def tx_abort_def tx_disconnect_def set_flag_def Let_def)

lemma announced_steps [stays_rules]:
  "stays announced (publish_protocol m)" "stays announced (backend_apply_remote tid x)" "stays announced (apply_local e)"
  by (simp add: publish_protocol_def stays_def io_do_def announced_def)
     (auto simp: backend_apply_remote_def apply_local_def intro: announced_apply remote_capabilities local_capabilities)

lemma announced_wait_loop: "announced b \<Longrightarrow> announced (snd (wait_protocol_loop tid wanted ws late b))"
proof (induction tid wanted ws late b rule: wait_protocol_loop.induct)
  case (1 tid wanted ws late b)
  obtain x b1 where take: "take_protocol tid b = (x, b1)" by force
  have b1: "announced (b1\<lparr>tb_wakes := ws'\<rparr>)" "announced (publish_status tid b1)" "announced (fold control_task es b1)" for ws' es
    using 1(3) take_protocol_tx [OF take] by (simp_all add: announced_def publish_status_def)
  have steps: "announced (snd (backend_apply_remote tid x (b1\<lparr>tb_wakes := ws'\<rparr>)))"
    "announced (snd (apply_local e (b1\<lparr>tb_wakes := ws'\<rparr>)))" for x e ws'
    using announced_steps(2,3) b1(1) unfolding stays_def by blast+
  show ?case
  proof (cases x)
    case None
    show ?thesis
    proof (cases "late \<or> ws = []")
      case True
      then show ?thesis using take None steps by (subst wait_protocol_loop.simps) (auto split: list.split)
    next
      case False
      then obtain es late' ws' where ws: "ws = (es, late') # ws'" by (cases ws) auto
      have "announced (snd (wait_protocol_loop tid wanted ws' late' (fold control_task es b1)))"
        by (rule 1(1)) (use take None False ws b1(3) in auto)
      then show ?thesis using take None False ws by (subst wait_protocol_loop.simps) simp
    qed
  next
    case (Some op)
    then show ?thesis
      using 1(2) [OF take [symmetric]] take b1 steps by (subst wait_protocol_loop.simps) auto
  qed
qed

lemma announced_wait [stays_rules]: "stays announced (wait_protocol tid wanted)"
  by (simp add: stays_def wait_protocol_def announced_wait_loop)

text \<open>Announcing it again is refused, so the exchange stops there at the latest.\<close>

lemma announced_again: "triple announced (apply_local Ev_Capability) (\<lambda>_ _. False) (\<lambda>_ _. True)"
  by (rule tripleI) (auto simp: announced_def apply_local_def apply_tx_def result_map_err_def)

lemma coordinate_after_announcement:
  assumes "announced b"
  shows "\<exists>e. fst (coordinate_v2 tid b) = Inl e"
proof -
  have "triple announced (coordinate_v2 tid) (\<lambda>_ _. False) (\<lambda>_ _. True)"
    unfolding coordinate_v2_def Let_def
    by (rule triple_stays [OF announced_steps(1)], simp, rule triple_stays [OF announced_wait], simp,
        rule triple_stays [OF announced_steps(2)], simp, rule triple_bind [OF announced_again]) (simp add: triple_def)
  then show ?thesis
    using assms by (cases "coordinate_v2 tid b"; cases "fst (coordinate_v2 tid b)") (auto simp: triple_def)
qed

lemma initiate_announces: "initiate_lesc_with_peer cr b = (Inr outcome, b') \<Longrightarrow> announced b'"
  by (auto simp: initiate_lesc_with_peer_def announced_def io_bind_def io_return_def apply_local_def apply_tx_def Let_def
      result_map_err_def set_flag_def split: option.splits prod.splits sum.splits if_splits)

subsection \<open>Properties\<close>

text \<open>C18: pairing from a terminal over the production backend never completes. The negotiation announces the
  capability of the desktop to the transaction, and the exchange announces it again, which the transaction
  refuses; so whatever the phone, the operator and BlueZ do, the command fails, and the active trust is
  as it was.\<close>

theorem terminal_backend_never_bonds:
  assumes "crypto_laws cr" "po_bond_dir opts \<noteq> []"
  shows "(\<exists>e. fst (run_pair_with_io cr sd ev opts (bluer_pair_backend cr be adapter_id) w) = Inl e) \<and>
    trust_same (po_bond_dir opts) (fs_nodes (tm_fs w))
      (fs_nodes (tm_fs (snd (run_pair_with_io cr sd ev opts (bluer_pair_backend cr be adapter_id) w))))"
proof -
  have "\<not> terminal_agreed ev opts (bluer_pair_backend cr be adapter_id) ls b chosen outcome" for ls b chosen outcome
  proof
    assume "terminal_agreed ev opts (bluer_pair_backend cr be adapter_id) ls b chosen outcome"
    then obtain b2 b3 b4 where "initiate_lesc_with_peer cr b2 = (Inr outcome, b3)" "coordinate_v2 (pe_transaction ev) b3 = (Inr (), b4)"
      by (auto simp: terminal_agreed_def bluer_pair_backend_def)
    then show False using coordinate_after_announcement [OF initiate_announces, of cr b2 outcome b3 "pe_transaction ev"] by simp
  qed
  then show ?thesis
    using triple_run_pair [OF assms, of "tm_fs w" "tm_lines w" "tm_backend w" sd ev "bluer_pair_backend cr be adapter_id",
        unfolded triple_def, THEN spec, of w]
    by (cases "run_pair_with_io cr sd ev opts (bluer_pair_backend cr be adapter_id) w")
       (auto simp: at_terminal_def split: sum.splits)
qed

text \<open>A run with a phone that follows the protocol, and the exchange alone with the same phone: without the
  announcement before it, it completes.\<close>

definition phone_message :: "operation \<Rightarrow> control_write" where
  "phone_message x = Control_From ''AA'' True (Some (message_encode \<lparr>msg_transaction = replicate 16 7, msg_operation = x\<rparr>))"

definition obliging_bluez :: bluez_env where
  "obliging_bluez = \<lparr>bl_session = Inr (), bl_agent = Inr (), bl_adapter = (\<lambda>_. Inr ()), bl_set_powered = Inr (),
     bl_set_pairable = Inr (), bl_serve = Inr (), bl_minute = 0, bl_advertise = Inr (),
     bl_events = [Scan_Tick 1 (Inr ()), Scan_Write ''AA'' (Inr ()) (Inr (replicate 32 1)) (Inr [])]\<rparr>"

definition obliging_wakes :: "(control_write list \<times> bool) list" where
  "obliging_wakes = [([phone_message Op_Capability], False), ([phone_message Op_Confirm], False), ([phone_message Op_Prepared], False),
     ([phone_message Op_CommitAck], False), ([phone_message Op_Committed], False)]"

definition terminal_at_backend :: "terminal_backend terminal" where
  "terminal_at_backend = \<lparr>tm_fs = fresh_fs, tm_backend = (backend_new (replicate 32 0))\<lparr>tb_wakes := obliging_wakes\<rparr>,
     tm_lines = [Inr (''y'' @ newline)], tm_writes = [], tm_output = []\<rparr>"

lemma wait_protocol_next:
  assumes "tb_inbox b = []" "tb_peer_address b = Some ''AA''" "tb_wakes b \<noteq> []"
    "fst (hd (tb_wakes b)) = [phone_message x]" "x \<noteq> Op_StatusQuery"
  shows "wait_protocol (replicate 16 7) x b = (Inr (), b\<lparr>tb_wakes := tl (tb_wakes b)\<rparr>)"
proof -
  obtain late ws where ws: "tb_wakes b = ([phone_message x], late) # ws" using assms(3,4) by (cases "tb_wakes b") auto
  let ?m = "\<lparr>msg_transaction = replicate 16 7, msg_operation = x\<rparr>"
  have typed: "message_typed ?m" by (simp add: message_typed_def)
  note decode = message_decode_encode [OF typed]
  have len: "length (message_encode ?m) = 18" using length_message_encode [OF typed] by (simp add: MESSAGE_LEN_def)
  have status: "\<exists>e. status_decode (message_encode ?m) = Inl e"
    by (simp add: status_decode_def len STATUS_MESSAGE_LEN_def)
  have task: "control_task (phone_message x) b = b\<lparr>tb_inbox := [message_encode ?m]\<rparr>"
    using status len assms(1,2) by (auto simp: phone_message_def)
  have first: "take_protocol (replicate 16 7) b = (None, b)"
    using assms(1) by (simp add: take_protocol_def)
  have second: "take_protocol (replicate 16 7) (b\<lparr>tb_inbox := [message_encode ?m]\<rparr>) = (Some x, b)"
    using assms(1) by (simp add: take_protocol_def decode remove_at_def)
  show ?thesis
    unfolding wait_protocol_def
    by (subst wait_protocol_loop.simps) (simp add: first ws task, subst wait_protocol_loop.simps, simp add: second assms(5))
qed

lemma exchange_alone_completes:
  "fst (coordinate_v2 (replicate 16 7)
     ((backend_set_transaction_id (replicate 16 7) (backend_new (replicate 32 0)))
        \<lparr>tb_wakes := obliging_wakes, tb_peer_address := Some ''AA''\<rparr>)) = Inr ()"
  by (simp add: coordinate_v2_def wait_or_uncertain_def Let_def io_bind_def io_do_def io_try_def io_return_def publish_protocol_def
      wait_protocol_next obliging_wakes_def backend_set_transaction_id_def publish_status_def backend_new_def
      backend_apply_remote_def apply_local_def apply_tx_def tx_remote_def tx_new_def tx_confirm_def tx_prepare_def
      tx_record_committed_def set_flag_def flag_def result_map_err_def)

theorem terminal_backend_never_bonds_witness:
  "\<exists>e. fst (run_pair_with_io padding_crypto sample_serde sample_pair_env sample_pair_opts
     (bluer_pair_backend padding_crypto obliging_bluez ''hci0'') terminal_at_backend) = Inl e"
  using terminal_backend_never_bonds [OF padding_crypto_laws, where opts = sample_pair_opts and sd = sample_serde
      and ev = sample_pair_env and be = obliging_bluez and adapter_id = "''hci0''" and w = terminal_at_backend]
  by (simp add: sample_pair_opts_def)

subsection \<open>The GUI client\<close>

text \<open>A connection whose frame asks for a decision, one that brings the notice, and one after which the client
  goes on: readable, and confirmed with the answer delivered if it asks for a decision.\<close>

definition gui_frame :: "gui_visit \<Rightarrow> bytes option" where
  "gui_frame v = (if is_ok (gv_accept v) then fst (broker_read_frame (gv_stream v)) else None)"

definition gui_asked :: "gui_visit \<Rightarrow> bool" where
  "gui_asked v \<longleftrightarrow> (case gui_frame v of None \<Rightarrow> False | Some bs \<Rightarrow> pairing_request_decode bs \<noteq> None \<or> oob_request_decode bs \<noteq> None)"

definition gui_told :: "gui_visit \<Rightarrow> bool" where
  "gui_told v \<longleftrightarrow> (case gui_frame v of None \<Rightarrow> False | Some bs \<Rightarrow>
     pairing_request_decode bs = None \<and> oob_request_decode bs = None \<and> bonded_notice_decode bs \<noteq> None)"

definition gui_passes :: "pair_env \<Rightarrow> gui_visit \<Rightarrow> bool" where
  "gui_passes ev v \<longleftrightarrow> gui_frame v \<noteq> None \<and> \<not> gui_told v \<and>
     (gui_asked v \<longrightarrow> gv_joined v \<and> gui_confirms ev (gv_line v) \<and> is_ok (gv_write v))"

lemma gui_loop_ends:
  "fst (gui_loop cr ev (v # vs)) = Some (Inr ()) \<longleftrightarrow> gui_told v \<or> gui_passes ev v \<and> fst (gui_loop cr ev vs) = Some (Inr ())"
  by (auto simp: gui_told_def gui_passes_def gui_asked_def gui_frame_def read_operator_decision_def backend_io_def
      result_map_err_def is_ok_def Let_def case_prod_beta split: sum.splits option.splits)

lemma gui_loop_answers:
  "Gui_Answers True \<in> set (snd (gui_loop cr ev vs)) \<Longrightarrow> \<exists>v\<in>set vs. gui_asked v \<and> gv_joined v \<and> gui_confirms ev (gv_line v)"
proof (induction vs)
  case (Cons v vs)
  then have "(gui_asked v \<and> gv_joined v \<and> gui_confirms ev (gv_line v)) \<or> Gui_Answers True \<in> set (snd (gui_loop cr ev vs))"
    by (auto simp: gui_asked_def gui_frame_def read_operator_decision_def backend_io_def lesc_prints_def oob_prints_def
      result_map_err_def is_ok_def Let_def case_prod_beta split: sum.splits option.splits if_splits)
  then show ?case using Cons.IH by auto
qed simp

lemma gui_loop_success:
  "fst (gui_loop cr ev vs) = Some (Inr ()) \<longleftrightarrow>
     (\<exists>pre v post. vs = pre @ v # post \<and> (\<forall>u\<in>set pre. gui_passes ev u) \<and> gui_told v)"
proof (induction vs)
  case (Cons v vs)
  have "(\<exists>pre w post. v # vs = pre @ w # post \<and> (\<forall>u\<in>set pre. gui_passes ev u) \<and> gui_told w) \<longleftrightarrow>
      gui_told v \<or> gui_passes ev v \<and> (\<exists>pre w post. vs = pre @ w # post \<and> (\<forall>u\<in>set pre. gui_passes ev u) \<and> gui_told w)" (is "?L \<longleftrightarrow> ?R")
  proof
    assume ?L
    then obtain pre w post where e: "v # vs = pre @ w # post" "\<forall>u\<in>set pre. gui_passes ev u" "gui_told w" by blast
    then show ?R by (cases pre) auto
  next
    assume ?R
    then show ?L
    proof
      assume "gui_told v"
      then show ?L by (intro exI [of _ "[]"]) simp
    next
      assume "gui_passes ev v \<and> (\<exists>pre w post. vs = pre @ w # post \<and> (\<forall>u\<in>set pre. gui_passes ev u) \<and> gui_told w)"
      then obtain pre w post where "vs = pre @ w # post" "\<forall>u\<in>set (v # pre). gui_passes ev u" "gui_told w" by auto
      then show ?L by (intro exI [of _ "v # pre"]) auto
    qed
  qed
  then show ?case using gui_loop_ends Cons.IH by simp
qed simp


definition sample_visit :: "bytes \<Rightarrow> gui_visit" where
  "sample_visit stream = \<lparr>gv_accept = Inr (), gv_stream = stream, gv_joined = True, gv_line = Inr ''confirm'', gv_write = Inr ()\<rparr>"

definition sample_oob :: oob_request where
  "sample_oob = \<lparr>or_id = 0, or_peer = ''AA'', or_host_pubkey = replicate 32 0, or_phone_pubkey = replicate 32 1\<rparr>"

lemma sample_frames:
  "\<exists>p f. oob_request_encode sample_oob = Some p \<and> broker_frame p = Some f"
  "\<exists>p f. bonded_notice_encode \<lparr>bn_peer = ''AA''\<rparr> = Some p \<and> broker_frame p = Some f \<and>
     pairing_request_decode p = None \<and> oob_request_decode p = None"
  by (simp_all add: oob_request_encode_def bonded_notice_encode_def broker_frame_def u16_try_from_def u32_try_from_def sample_oob_def
      pairing_request_decode_def oob_request_decode_def string_bytes_def wire_consts Let_def)


text \<open>The applet's answer counts only for this request: the handler accepts only when the response file it read
  names the request and says so.\<close>

lemma wait_for_decision_accepts:
  assumes "fst (wait_for_decision p i script s) = Inr True"
  shows "\<exists>c. (Some c \<in> set script \<or> (\<exists>m. fs_nodes s p = Some (File c m))) \<and> parse_decision c i = Some True"
  using assms
proof (induction script arbitrary: s)
  case (Cons w script)
  let ?s = "applet_writes p w s"
  obtain r s1 where read: "fs_read p ?s = (r, s1)" by force
  have nodes: "fs_nodes s1 = fs_nodes ?s" and got: "\<And>c. r = Inr c \<Longrightarrow> \<exists>m. fs_nodes ?s p = Some (File c m)"
    using read by (auto simp: fs_read_def io_call_def Let_def split: if_splits list.splits option.splits fault.splits node.splits)
  have here: "Some c \<in> set (w # script) \<or> (\<exists>m. fs_nodes s p = Some (File c m))" if "fs_nodes ?s p = Some (File c m)" for c m
    using that by (cases w) (auto simp: applet_writes_def set_node_def)
  show ?case
  proof (cases "\<exists>c. r = Inr c \<and> parse_decision c i = Some True")
    case True
    then show ?thesis using got here by blast
  next
    case False
    then have "fst (wait_for_decision p i script s1) = Inr True"
      using Cons.prems read by (auto simp: io_bind_def io_do_def io_try_def io_return_def split: sum.splits option.splits)
    then obtain c where "Some c \<in> set script \<or> (\<exists>m. fs_nodes s1 p = Some (File c m))" "parse_decision c i = Some True"
      using Cons.IH by blast
    then show ?thesis using here [of c] unfolding nodes by (metis list.set_intros(2))
  qed
qed (simp add: io_return_def)

end
