(* ===== verification/Spec2Isabelle.thy ===== *)
theory Spec2Isabelle
  imports Pair_Agreement Pair_Daemon Mobile Orchestrator_Reload Pam Reconcile Terminal_Backend
begin

text \<open>
  A verification development for DeskUnlock.

  HEADER
\<close>

end
